(* ===== verification/Prelude.thy ===== *)
theory Prelude
  imports Main "HOL-Library.AList" "HOL-Library.Word"
begin

text \<open>
  The shared vocabulary of the development: machine integers, hash tables, Rust strings and
  the generic lemmas about them that the component theories use.

  Conventions, valid in every theory.
  \<^item> A Rust \<^verbatim>\<open>String\<close>/\<^verbatim>\<open>&str\<close> is the list of its UTF-8 bytes, a \<^typ>\<open>string\<close>;
    \<^verbatim>\<open>len()\<close> is \<^const>\<open>length\<close>. A Rust \<^verbatim>\<open>char\<close>, where a loop is over
    \<^verbatim>\<open>chars()\<close> and the difference can be seen, is the byte string of one code point
    (\<open>utf8_chars\<close>). A loop over \<^verbatim>\<open>chars()\<close> that only looks for ASCII
    characters is written over bytes: a byte below 128 never occurs inside a multi-byte
    sequence.
  \<^item> A \<^verbatim>\<open>HashMap\<close> is an association list with distinct keys (\<open>hm_wf\<close>); the order of
    the list is one of the orders in which Rust may iterate. Theorems are stated for every such list.
  \<^item> \<^verbatim>\<open>usize\<close> counters of in-memory objects are \<^typ>\<open>nat\<close>; integers that carry
    client-chosen values keep their width.
  \<^item> \<^verbatim>\<open>Instant\<close> is a \<^typ>\<open>nat\<close> clock reading passed in as an argument;
    \<^verbatim>\<open>duration_since\<close> saturates at zero, as \<^typ>\<open>nat\<close> subtraction does.
\<close>

section \<open>Collections of facts\<close>

named_theorems hm_simps \<open>lookup after an update of a hash table\<close>
named_theorems ascii_simps \<open>character classes on closed characters\<close>

section \<open>Types\<close>

type_synonym u8 = "8 word"
type_synonym u32 = "32 word"
type_synonym u64 = "64 word"
type_synonym conn_id = nat
type_synonym instant = nat
type_synonym ('k, 'v) hmap = "('k \<times> 'v) list"

section \<open>Hash tables\<close>

abbreviation hm_get :: "('k, 'v) hmap \<Rightarrow> 'k \<Rightarrow> 'v option" where
  "hm_get m k \<equiv> map_of m k"

abbreviation hm_insert :: "'k \<Rightarrow> 'v \<Rightarrow> ('k, 'v) hmap \<Rightarrow> ('k, 'v) hmap" where
  "hm_insert k v m \<equiv> AList.update k v m"

abbreviation hm_remove :: "'k \<Rightarrow> ('k, 'v) hmap \<Rightarrow> ('k, 'v) hmap" where
  "hm_remove k m \<equiv> AList.delete k m"

definition hm_contains :: "('k, 'v) hmap \<Rightarrow> 'k \<Rightarrow> bool" where
  "hm_contains m k = (case hm_get m k of None \<Rightarrow> False | Some _ \<Rightarrow> True)"

definition hm_values :: "('k, 'v) hmap \<Rightarrow> 'v list" where
  "hm_values m = map snd m"

definition hm_wf :: "('k, 'v) hmap \<Rightarrow> bool" where
  "hm_wf m \<longleftrightarrow> distinct (map fst m)"

lemma hm_get_insert [hm_simps]:
  "hm_get (hm_insert k v m) k' = (if k' = k then Some v else hm_get m k')"
  by (simp add: update_conv)

lemma hm_get_remove [hm_simps]:
  "hm_get (hm_remove k m) k' = (if k' = k then None else hm_get m k')"
  by (simp add: delete_conv)

lemma hm_contains_get: "hm_contains m k \<longleftrightarrow> hm_get m k \<noteq> None"
  by (simp add: hm_contains_def split: option.splits)

lemma hm_contains_iff: "hm_contains m k \<longleftrightarrow> k \<in> fst ` set m"
  by (simp add: hm_contains_get map_of_eq_None_iff)

lemma hm_wf_empty [simp]: "hm_wf []"
  by (simp add: hm_wf_def)

lemma hm_wf_insert [simp, intro]: "hm_wf m \<Longrightarrow> hm_wf (hm_insert k v m)"
  by (simp add: hm_wf_def distinct_update)

lemma hm_wf_remove [simp, intro]: "hm_wf m \<Longrightarrow> hm_wf (hm_remove k m)"
  by (simp add: hm_wf_def distinct_delete)

lemma hm_wf_get: "hm_wf m \<Longrightarrow> (k, v) \<in> set m \<longleftrightarrow> hm_get m k = Some v"
  by (auto simp: hm_wf_def intro: map_of_is_SomeI dest: map_of_SomeD)

lemma hm_values_iff: "hm_wf m \<Longrightarrow> v \<in> set (hm_values m) \<longleftrightarrow> (\<exists>k. hm_get m k = Some v)"
  by (auto simp: hm_values_def hm_wf_get [symmetric] image_iff intro: rev_bexI)

lemma hm_length_insert:
  "length (hm_insert k v m) = (if hm_contains m k then length m else Suc (length m))"
  by (induction m) (auto simp: hm_contains_iff split: if_splits)

lemma hm_values_insert_fresh:
  "\<not> hm_contains m k \<Longrightarrow> hm_values (hm_insert k v m) = hm_values m @ [v]"
  by (induction m) (auto simp: hm_contains_iff hm_values_def)

lemma hm_length_remove:
  "hm_wf m \<Longrightarrow> length (hm_remove k m) = (if hm_contains m k then length m - 1 else length m)"
proof (induction m)
  case Nil
  then show ?case by (simp add: hm_contains_iff)
next
  case (Cons p m)
  then have wf: "hm_wf m" and fresh: "fst p \<notin> fst ` set m" by (simp_all add: hm_wf_def)
  show ?case
  proof (cases "fst p = k")
    case True
    with fresh have "hm_remove k m = m" by (simp add: delete_idem)
    with True show ?thesis by (simp add: hm_contains_iff)
  next
    case False
    then have "length (hm_remove k (p # m)) = Suc (length (hm_remove k m))"
      by simp
    moreover have "hm_contains m k \<Longrightarrow> 0 < length m" by (auto simp: hm_contains_iff)
    ultimately show ?thesis
      using Cons.IH [OF wf] False by (auto simp: hm_contains_iff)
  qed
qed

section \<open>Bytes and characters\<close>

abbreviation byte_val :: "char \<Rightarrow> nat" where
  "byte_val c \<equiv> of_char c"

definition is_ascii :: "char \<Rightarrow> bool" where
  "is_ascii c \<longleftrightarrow> byte_val c < 128"

definition is_digit :: "char \<Rightarrow> bool" where
  "is_digit c \<longleftrightarrow> 48 \<le> byte_val c \<and> byte_val c \<le> 57"

definition is_upper :: "char \<Rightarrow> bool" where
  "is_upper c \<longleftrightarrow> 65 \<le> byte_val c \<and> byte_val c \<le> 90"

definition is_lower :: "char \<Rightarrow> bool" where
  "is_lower c \<longleftrightarrow> 97 \<le> byte_val c \<and> byte_val c \<le> 122"

definition is_alphabetic :: "char \<Rightarrow> bool" where
  "is_alphabetic c \<longleftrightarrow> is_upper c \<or> is_lower c"

definition is_hexdigit :: "char \<Rightarrow> bool" where
  "is_hexdigit c \<longleftrightarrow> is_digit c \<or> (65 \<le> byte_val c \<and> byte_val c \<le> 70)
     \<or> (97 \<le> byte_val c \<and> byte_val c \<le> 102)"

text \<open>\<^verbatim>\<open>is_ascii_whitespace\<close>: space, tab, line feed, form feed, carriage return.\<close>

definition is_ws :: "char \<Rightarrow> bool" where
  "is_ws c \<longleftrightarrow> byte_val c \<in> {32, 9, 10, 12, 13}"

definition to_lower :: "char \<Rightarrow> char" where
  "to_lower c = (if is_upper c then char_of (byte_val c + 32) else c)"

definition to_upper :: "char \<Rightarrow> char" where
  "to_upper c = (if is_lower c then char_of (byte_val c - 32) else c)"

lemmas char_class_defs = is_ascii_def is_digit_def is_upper_def is_lower_def
  is_alphabetic_def is_hexdigit_def is_ws_def

lemma byte_val_bound: "byte_val c < 256"
  by (metis mod_less_divisor of_char_mod_256 zero_less_numeral)

lemma byte_val_char_of [simp]: "n < 256 \<Longrightarrow> byte_val (char_of n) = n"
  by simp

lemma to_lower_idem [simp]: "to_lower (to_lower c) = to_lower c"
  using byte_val_bound [of c] by (auto simp: to_lower_def is_upper_def)

lemma to_upper_upper: "is_alphabetic c \<Longrightarrow> is_upper (to_upper c)"
  using byte_val_bound [of c]
  by (auto simp: to_upper_def is_upper_def is_lower_def is_alphabetic_def)

lemma to_upper_id: "is_upper c \<Longrightarrow> to_upper c = c"
  by (auto simp: to_upper_def is_upper_def is_lower_def)

abbreviation lower :: "string \<Rightarrow> string" where
  "lower \<equiv> map to_lower"

abbreviation upper :: "string \<Rightarrow> string" where
  "upper \<equiv> map to_upper"

section \<open>Rust string functions\<close>

subsection \<open>Characters of a UTF-8 string\<close>

text \<open>Continuation bytes are \<^verbatim>\<open>0b10xxxxxx\<close>; every other byte starts a code point.\<close>

definition is_cont :: "char \<Rightarrow> bool" where
  "is_cont c \<longleftrightarrow> 128 \<le> byte_val c \<and> byte_val c < 192"

function utf8_chars :: "string \<Rightarrow> string list" where
  "utf8_chars [] = []"
| "utf8_chars (c # cs) = (c # takeWhile is_cont cs) # utf8_chars (dropWhile is_cont cs)"
  by pat_completeness auto
termination
  by (relation "measure length") (auto simp: less_Suc_eq_le length_dropWhile_le)

lemma concat_utf8_chars [simp]: "concat (utf8_chars s) = s"
  by (induction s rule: utf8_chars.induct) auto

lemma utf8_chars_ascii: "list_all is_ascii s \<Longrightarrow> utf8_chars s = map (\<lambda>c. [c]) s"
proof (induction s)
  case Nil
  then show ?case by simp
next
  case (Cons c s)
  then have "takeWhile is_cont s = []" and "dropWhile is_cont s = s"
    by (cases s; auto simp: is_cont_def is_ascii_def)+
  with Cons show ?case by simp
qed

text \<open>Well-formed UTF-8 (the table of \<^verbatim>\<open>std::str::from_utf8\<close>), on byte values.\<close>

fun utf8_wf :: "nat list \<Rightarrow> bool" where
  "utf8_wf [] = True"
| "utf8_wf (a # r) =
     (if a < 128 then utf8_wf r
      else if 194 \<le> a \<and> a \<le> 223 then
        (case r of b # r' \<Rightarrow> 128 \<le> b \<and> b \<le> 191 \<and> utf8_wf r' | _ \<Rightarrow> False)
      else if 224 \<le> a \<and> a \<le> 239 then
        (case r of b # c # r' \<Rightarrow>
           (if a = 224 then 160 else 128) \<le> b \<and> b \<le> (if a = 237 then 159 else 191)
           \<and> 128 \<le> c \<and> c \<le> 191 \<and> utf8_wf r' | _ \<Rightarrow> False)
      else if 240 \<le> a \<and> a \<le> 244 then
        (case r of b # c # d # r' \<Rightarrow>
           (if a = 240 then 144 else 128) \<le> b \<and> b \<le> (if a = 244 then 143 else 191)
           \<and> 128 \<le> c \<and> c \<le> 191 \<and> 128 \<le> d \<and> d \<le> 191 \<and> utf8_wf r' | _ \<Rightarrow> False)
      else False)"

definition is_utf8 :: "string \<Rightarrow> bool" where
  "is_utf8 s \<longleftrightarrow> utf8_wf (map byte_val s)"

text \<open>Whether a byte offset is a character boundary; slicing elsewhere panics in Rust.\<close>

definition is_char_boundary :: "string \<Rightarrow> nat \<Rightarrow> bool" where
  "is_char_boundary s i \<longleftrightarrow> i = 0 \<or> i = length s \<or> (i < length s \<and> \<not> is_cont (s ! i))"

text \<open>\<^verbatim>\<open>char::is_whitespace\<close> (Unicode \<^verbatim>\<open>White_Space\<close>), on one code point.\<close>

definition is_uni_ws :: "string \<Rightarrow> bool" where
  "is_uni_ws ch \<longleftrightarrow>
     (case map byte_val ch of
        [a] \<Rightarrow> (9 \<le> a \<and> a \<le> 13) \<or> a = 32
      | [a, b] \<Rightarrow> a = 194 \<and> (b = 133 \<or> b = 160)
      | [a, b, c] \<Rightarrow> (a = 225 \<and> b = 154 \<and> c = 128)
          \<or> (a = 226 \<and> b = 128 \<and> ((128 \<le> c \<and> c \<le> 138) \<or> c = 168 \<or> c = 169 \<or> c = 175))
          \<or> (a = 226 \<and> b = 129 \<and> c = 159)
          \<or> (a = 227 \<and> b = 128 \<and> c = 128)
      | _ \<Rightarrow> False)"

definition trim_start :: "string \<Rightarrow> string" where
  "trim_start s = concat (dropWhile is_uni_ws (utf8_chars s))"

definition trim :: "string \<Rightarrow> string" where
  "trim s = concat (rev (dropWhile is_uni_ws (rev (dropWhile is_uni_ws (utf8_chars s)))))"

subsection \<open>Splitting and joining\<close>

fun split_on :: "'a \<Rightarrow> 'a list \<Rightarrow> 'a list list" where
  "split_on c [] = [[]]"
| "split_on c (x # xs) =
     (if x = c then [] # split_on c xs
      else (case split_on c xs of [] \<Rightarrow> [[x]] | w # ws \<Rightarrow> (x # w) # ws))"

fun join_with :: "'a list \<Rightarrow> 'a list list \<Rightarrow> 'a list" where
  "join_with sep [] = []"
| "join_with sep [w] = w"
| "join_with sep (w # ws) = w @ sep @ join_with sep ws"

fun split_pred :: "('a \<Rightarrow> bool) \<Rightarrow> 'a list \<Rightarrow> 'a list list" where
  "split_pred P [] = [[]]"
| "split_pred P (x # xs) =
     (if P x then [] # split_pred P xs
      else (case split_pred P xs of [] \<Rightarrow> [[x]] | w # ws \<Rightarrow> (x # w) # ws))"

definition split_whitespace :: "string \<Rightarrow> string list" where
  "split_whitespace s =
     filter (\<lambda>w. w \<noteq> []) (map concat (split_pred is_uni_ws (utf8_chars s)))"

text \<open>\<^verbatim>\<open>split_once(c)\<close>: the text before and after the first \<open>c\<close>.\<close>

definition split_once :: "'a \<Rightarrow> 'a list \<Rightarrow> ('a list \<times> 'a list) option" where
  "split_once c s = (case dropWhile (\<lambda>x. x \<noteq> c) s of
     [] \<Rightarrow> None
   | _ # rest \<Rightarrow> Some (takeWhile (\<lambda>x. x \<noteq> c) s, rest))"

definition strip_prefix :: "'a list \<Rightarrow> 'a list \<Rightarrow> 'a list option" where
  "strip_prefix p s = (if take (length p) s = p then Some (drop (length p) s) else None)"

definition strip_suffix :: "'a list \<Rightarrow> 'a list \<Rightarrow> 'a list option" where
  "strip_suffix p s = map_option rev (strip_prefix (rev p) (rev s))"

definition starts_with :: "'a list \<Rightarrow> 'a list \<Rightarrow> bool" where
  "starts_with p s \<longleftrightarrow> take (length p) s = p"

lemma split_on_ne [simp]: "split_on c xs \<noteq> []"
  by (induction xs) (auto split: list.splits)

lemma split_on_none: "c \<notin> set xs \<Longrightarrow> split_on c xs = [xs]"
  by (induction xs) auto

lemma split_on_append:
  "c \<notin> set w \<Longrightarrow> split_on c (w @ c # rest) = w # split_on c rest"
  by (induction w) auto

lemma split_join:
  "ws \<noteq> [] \<Longrightarrow> (\<And>w. w \<in> set ws \<Longrightarrow> c \<notin> set w) \<Longrightarrow> split_on c (join_with [c] ws) = ws"
proof (induction "[c]" ws rule: join_with.induct)
  case 1
  then show ?case by simp
next
  case (2 w)
  then show ?case by (simp add: split_on_none)
next
  case (3 w v vs)
  then have "split_on c (join_with [c] (v # vs)) = v # vs" by simp
  moreover have "c \<notin> set w" using 3 by simp
  ultimately show ?case by (simp add: split_on_append)
qed

lemma split_on_pieces: "w \<in> set (split_on c xs) \<Longrightarrow> c \<notin> set w"
  by (induction xs arbitrary: w) (auto split: list.splits if_splits)

lemma takeWhile_until: "c \<notin> set k \<Longrightarrow> takeWhile (\<lambda>x. x \<noteq> c) (k @ c # v) = k"
  by (induction k) auto

lemma dropWhile_until: "c \<notin> set k \<Longrightarrow> dropWhile (\<lambda>x. x \<noteq> c) (k @ c # v) = c # v"
  by (induction k) auto

lemma split_once_append: "c \<notin> set k \<Longrightarrow> split_once c (k @ c # v) = Some (k, v)"
  by (simp add: split_once_def takeWhile_until dropWhile_until)

lemma split_once_none: "c \<notin> set k \<Longrightarrow> split_once c k = None"
  by (metis (mono_tags, lifting) dropWhile_eq_Nil_conv list.simps(4) split_once_def)

text \<open>\<^verbatim>\<open>lines()\<close>: split at line feeds, drop a final empty piece, strip one trailing CR.\<close>

definition strip_cr :: "string \<Rightarrow> string" where
  "strip_cr l = (if l \<noteq> [] \<and> last l = CHR 0x0D then butlast l else l)"

definition rust_lines :: "string \<Rightarrow> string list" where
  "rust_lines s =
     (let ps = split_on (CHR 0x0A) s
      in map strip_cr (if last ps = [] then butlast ps else ps))"

lemma split_on_terminated:
  "(\<And>l. l \<in> set ls \<Longrightarrow> c \<notin> set l) \<Longrightarrow> split_on c (concat (map (\<lambda>l. l @ [c]) ls)) = ls @ [[]]"
  by (induction ls) (auto simp: split_on_append)

text \<open>A file written as newline-terminated lines is read back line by line.\<close>

lemma rust_lines_terminated:
  assumes "\<And>l. l \<in> set ls \<Longrightarrow> CHR 0x0A \<notin> set l"
    and "\<And>l. l \<in> set ls \<Longrightarrow> strip_cr l = l"
  shows "rust_lines (concat (map (\<lambda>l. l @ [CHR 0x0A]) ls)) = ls"
proof -
  have "split_on (CHR 0x0A) (concat (map (\<lambda>l. l @ [CHR 0x0A]) ls)) = ls @ [[]]"
    using assms(1) by (rule split_on_terminated)
  then show ?thesis using assms(2) by (simp add: rust_lines_def map_idI)
qed

subsection \<open>Decimal numbers\<close>

text \<open>\<^verbatim>\<open>to_string()\<close> of an unsigned integer, and \<^verbatim>\<open>parse()\<close> with the type's
  bound: an optional plus sign, at least one digit, no overflow.\<close>

definition digit_char :: "nat \<Rightarrow> char" where
  "digit_char d = char_of (48 + d)"

definition digit_val :: "char \<Rightarrow> nat" where
  "digit_val c = byte_val c - 48"

fun show_nat :: "nat \<Rightarrow> string" where
  "show_nat n = (if n < 10 then [digit_char n] else show_nat (n div 10) @ [digit_char (n mod 10)])"

declare show_nat.simps [simp del]

definition digits_val :: "string \<Rightarrow> nat" where
  "digits_val ds = foldl (\<lambda>a c. a * 10 + digit_val c) 0 ds"

definition parse_uint :: "nat \<Rightarrow> string \<Rightarrow> nat option" where
  "parse_uint bound s =
     (let ds = (case s of c # cs \<Rightarrow> if c = CHR ''+'' then cs else s | [] \<Rightarrow> [])
      in if ds \<noteq> [] \<and> list_all is_digit ds \<and> digits_val ds < bound
         then Some (digits_val ds) else None)"

abbreviation parse_u64 :: "string \<Rightarrow> nat option" where
  "parse_u64 \<equiv> parse_uint (2 ^ 64)"

abbreviation parse_u32 :: "string \<Rightarrow> nat option" where
  "parse_u32 \<equiv> parse_uint (2 ^ 32)"

lemma is_digit_digit_char: "d < 10 \<Longrightarrow> is_digit (digit_char d)"
  by (simp add: is_digit_def digit_char_def)

lemma digit_val_digit_char [simp]: "d < 10 \<Longrightarrow> digit_val (digit_char d) = d"
  by (simp add: digit_val_def digit_char_def)

lemma digits_val_snoc: "digits_val (ds @ [c]) = digits_val ds * 10 + digit_val c"
  by (simp add: digits_val_def)

lemma show_nat_digits: "list_all is_digit (show_nat n)"
  by (induction n rule: show_nat.induct)
    (subst show_nat.simps, auto simp: is_digit_digit_char)

lemma show_nat_ne [simp]: "show_nat n \<noteq> []"
  by (subst show_nat.simps) simp

lemma digits_val_show_nat: "digits_val (show_nat n) = n"
proof (induction n rule: show_nat.induct)
  case (1 n)
  show ?case
  proof (cases "n < 10")
    case True
    then show ?thesis by (subst show_nat.simps) (simp add: digits_val_def)
  next
    case False
    with 1 show ?thesis by (subst show_nat.simps) (simp add: digits_val_snoc)
  qed
qed

lemma show_nat_hd_not_plus: "show_nat n = c # cs \<Longrightarrow> c \<noteq> CHR ''+''"
  using show_nat_digits [of n] by (auto simp: is_digit_def)

lemma parse_show_nat: "n < bound \<Longrightarrow> parse_uint bound (show_nat n) = Some n"
  using show_nat_digits [of n] show_nat_hd_not_plus [of n] digits_val_show_nat [of n]
  by (cases "show_nat n") (auto simp: parse_uint_def)

lemma show_nat_no: "\<not> is_digit c \<Longrightarrow> c \<notin> set (show_nat n)"
  using show_nat_digits [of n] by (auto simp: list_all_iff)

lemma show_nat_inj: "show_nat m = show_nat n \<Longrightarrow> m = n"
  by (metis digits_val_show_nat)

section \<open>Options\<close>

abbreviation opt_default :: "'a \<Rightarrow> 'a option \<Rightarrow> 'a" where
  "opt_default d o' \<equiv> case_option d (\<lambda>x. x) o'"

lemma find_SomeD: "List.find P xs = Some x \<Longrightarrow> x \<in> set xs \<and> P x"
  by (induction xs) (auto split: if_splits)

definition nth_opt :: "'a list \<Rightarrow> nat \<Rightarrow> 'a option" where
  "nth_opt xs i = (if i < length xs then Some (xs ! i) else None)"

definition first_opt :: "'a list \<Rightarrow> 'a option" where
  "first_opt xs = (case xs of [] \<Rightarrow> None | x # _ \<Rightarrow> Some x)"

definition last_opt :: "'a list \<Rightarrow> 'a option" where
  "last_opt xs = (if xs = [] then None else Some (last xs))"

end
