(* ===== verification/Glob.thy ===== *)
theory Glob
  imports Prelude
begin

text \<open>
  The wildcard matcher \<^verbatim>\<open>glob_match\<close> of \<^verbatim>\<open>src/bans.rs\<close>, which
  \<^verbatim>\<open>wildcard_match\<close> (\<^verbatim>\<open>src/state.rs\<close>), K-lines, channel bans, exemption
  lists and KILL patterns all use. The loop is translated with its four indices; \<open>glob_spec\<close>
  is the textbook meaning of a pattern. The equivalence holds for texts without a literal
  star, and \<open>glob_star_text\<close> shows the code departs from the meaning on a text with one.
\<close>

section \<open>The loop\<close>

abbreviation star_ch :: string where "star_ch \<equiv> ''*''"
abbreviation any_ch :: string where "any_ch \<equiv> ''?''"

text \<open>\<^verbatim>\<open>star == usize::MAX\<close> (no star seen yet) is \<^const>\<open>None\<close>.\<close>

function glob_loop ::
    "string list \<Rightarrow> string list \<Rightarrow> nat \<Rightarrow> nat \<Rightarrow> nat option \<Rightarrow> nat \<Rightarrow> bool" where
  "glob_loop m t mi ti star backtrack =
     (if ti < length t then
        if mi < length m \<and> (m ! mi = any_ch \<or> m ! mi = t ! ti) then
          glob_loop m t (mi + 1) (ti + 1) star backtrack
        else if mi < length m \<and> m ! mi = star_ch then
          glob_loop m t (mi + 1) ti (Some mi) ti
        else (case star of
            Some s \<Rightarrow> glob_loop m t (s + 1) (backtrack + 1) star (backtrack + 1)
          | None \<Rightarrow> False)
      else list_all (\<lambda>c. c = star_ch) (drop mi m))"
  by pat_completeness auto
termination
  by (relation "measures
       [\<lambda>(m, t, mi, ti, star, bt).
          max (length m - mi) (case star of None \<Rightarrow> 0 | Some s \<Rightarrow> length m - (s + 1)),
        \<lambda>(m, t, mi, ti, star, bt). Suc (length t) - bt,
        \<lambda>(m, t, mi, ti, star, bt). length t - ti]")
    (auto split: option.splits)

declare glob_loop.simps [simp del]

definition glob_match :: "string \<Rightarrow> string \<Rightarrow> bool" where
  "glob_match pat text = glob_loop (utf8_chars pat) (utf8_chars text) 0 0 None 0"

section \<open>The meaning of a pattern\<close>

fun glob_spec :: "string list \<Rightarrow> string list \<Rightarrow> bool" where
  "glob_spec [] ts = (ts = [])"
| "glob_spec (m # ms) [] = (m = star_ch \<and> glob_spec ms [])"
| "glob_spec (m # ms) (t # ts) =
     (if m = star_ch then glob_spec ms (t # ts) \<or> glob_spec (m # ms) ts
      else (m = any_ch \<or> m = t) \<and> glob_spec ms ts)"

lemma glob_spec_stars: "glob_spec ms [] = list_all (\<lambda>c. c = star_ch) ms"
  by (induction ms) auto

lemma glob_spec_star: "glob_spec (star_ch # ms) ts = (\<exists>k \<le> length ts. glob_spec ms (drop k ts))"
proof (induction ts)
  case Nil
  then show ?case by simp
next
  case (Cons t ts)
  have "(\<exists>k \<le> length (t # ts). glob_spec ms (drop k (t # ts))) =
    (glob_spec ms (t # ts) \<or> (\<exists>k \<le> length ts. glob_spec ms (drop k ts)))"
    (is "?l = ?r")
  proof
    assume ?l
    then obtain k where k: "k \<le> Suc (length ts)" "glob_spec ms (drop k (t # ts))" by auto
    then show ?r by (cases k) auto
  next
    assume ?r
    then show ?l by (metis drop0 drop_Suc_Cons le0 length_Cons Suc_le_mono)
  qed
  with Cons show ?case by simp
qed

lemma glob_spec_star_mono:
  assumes "glob_spec (star_ch # ms) (drop k ts)" and "j \<le> k"
  shows "glob_spec (star_ch # ms) (drop j ts)"
proof -
  obtain i where "i \<le> length (drop k ts)" and "glob_spec ms (drop i (drop k ts))"
    using assms(1) glob_spec_star by blast
  then have "glob_spec ms (drop (i + (k - j)) (drop j ts))" and "i + (k - j) \<le> length (drop j ts) \<or> k > length ts"
    using assms(2) by (auto simp: add.commute)
  then show ?thesis
    using assms(2) \<open>i \<le> length (drop k ts)\<close> \<open>glob_spec ms (drop i (drop k ts))\<close>
    by (metis drop_all glob_spec_star le_refl nat_le_linear length_drop)
qed

text \<open>A star-free run of pattern characters consumes exactly as many characters of text.\<close>

lemma glob_spec_segment:
  "list_all (\<lambda>c. c \<noteq> star_ch) seg \<Longrightarrow> glob_spec (seg @ ms) ts \<Longrightarrow>
     length seg \<le> length ts \<and> glob_spec ms (drop (length seg) ts)"
proof (induction seg arbitrary: ts)
  case Nil
  then show ?case by simp
next
  case (Cons c seg)
  then show ?case by (cases ts) auto
qed

section \<open>Correctness of the loop\<close>

abbreviation glob_from :: "string list \<Rightarrow> string list \<Rightarrow> nat \<Rightarrow> nat \<Rightarrow> bool" where
  "glob_from m t mi ti \<equiv> glob_spec (drop mi m) (drop ti t)"

text \<open>What the loop keeps of its star: it is behind \<open>mi\<close>, the pattern between them has no
  star, and that run of pattern spans the text between \<open>backtrack\<close> and \<open>ti\<close>.\<close>

definition glob_inv ::
    "string list \<Rightarrow> string list \<Rightarrow> nat \<Rightarrow> nat \<Rightarrow> nat option \<Rightarrow> nat \<Rightarrow> bool" where
  "glob_inv m t mi ti star bt \<longleftrightarrow> mi \<le> length m \<and> ti \<le> length t \<and>
     (\<forall>s. star = Some s \<longrightarrow> s < mi \<and> m ! s = star_ch \<and> bt \<le> ti \<and> ti - bt = mi - (s + 1)
        \<and> (\<forall>i. s < i \<and> i < mi \<longrightarrow> m ! i \<noteq> star_ch))"

definition glob_later :: "string list \<Rightarrow> string list \<Rightarrow> nat option \<Rightarrow> nat \<Rightarrow> bool" where
  "glob_later m t star bt \<longleftrightarrow>
     (\<exists>s k. star = Some s \<and> bt < k \<and> k \<le> length t \<and> glob_from m t (s + 1) k)"

lemma glob_later_segment:
  assumes inv: "glob_inv m t mi ti star bt" and later: "glob_later m t star bt"
  obtains k where "ti < k" and "k \<le> length t" and "glob_from m t mi k"
proof -
  from later obtain s k where s: "star = Some s" and k: "bt < k" "k \<le> length t"
    and g: "glob_from m t (s + 1) k" by (auto simp: glob_later_def)
  from inv s have smi: "s < mi" "mi \<le> length m" and bt: "bt \<le> ti" "ti - bt = mi - (s + 1)"
    and free: "\<And>i. s < i \<Longrightarrow> i < mi \<Longrightarrow> m ! i \<noteq> star_ch"
    by (auto simp: glob_inv_def)
  define seg where "seg = take (mi - (s + 1)) (drop (s + 1) m)"
  have len: "length seg = mi - (s + 1)" using smi by (simp add: seg_def)
  have "drop (s + 1) m = seg @ drop mi m"
    using smi append_take_drop_id [of "mi - (s + 1)" "drop (s + 1) m"] by (simp add: seg_def)
  moreover have "list_all (\<lambda>c. c \<noteq> star_ch) seg"
    unfolding list_all_length using free smi len by (simp add: seg_def)
  ultimately have "length seg \<le> length (drop k t)" "glob_from m t mi (k + length seg)"
    using glob_spec_segment [of seg "drop mi m" "drop k t"] g by (simp_all add: add.commute)
  then show thesis using that [of "k + length seg"] k bt len by simp
qed

lemma glob_later_star:
  assumes "glob_inv m t mi ti star bt" and "glob_later m t star bt"
    and "mi < length m" and "m ! mi = star_ch"
  shows "glob_from m t mi ti"
proof -
  obtain k where k: "ti < k" "glob_from m t mi k" using assms(1,2) by (rule glob_later_segment)
  have "drop mi m = star_ch # drop (Suc mi) m"
    using assms(3,4) by (metis Cons_nth_drop_Suc)
  with k show ?thesis using glob_spec_star_mono [of "drop (Suc mi) m" k t ti] by simp
qed

lemma glob_from_star:
  assumes "mi < length m" and "m ! mi = star_ch" and "ti \<le> length t"
  shows "glob_from m t mi ti \<longleftrightarrow> (glob_from m t (mi + 1) ti \<or> glob_later m t (Some mi) ti)"
proof -
  have "drop mi m = star_ch # drop (Suc mi) m" using assms by (metis Cons_nth_drop_Suc)
  then have "glob_from m t mi ti \<longleftrightarrow> (\<exists>k \<le> length t - ti. glob_from m t (mi + 1) (ti + k))"
    by (simp add: glob_spec_star add.commute)
  also have "\<dots> \<longleftrightarrow> (glob_from m t (mi + 1) ti \<or> glob_later m t (Some mi) ti)" (is "?l \<longleftrightarrow> ?r")
  proof
    assume ?l
    then obtain k where k: "k \<le> length t - ti" "glob_from m t (mi + 1) (ti + k)" by auto
    then show ?r using assms(3) by (cases k) (auto simp: glob_later_def intro!: exI [of _ "ti + k"])
  next
    assume ?r
    then show ?l
    proof
      assume "glob_later m t (Some mi) ti"
      then obtain k where "ti < k" "k \<le> length t" "glob_from m t (mi + 1) k"
        by (auto simp: glob_later_def)
      then show ?l by (intro exI [of _ "k - ti"]) auto
    qed (auto intro: exI [of _ 0])
  qed
  finally show ?thesis .
qed

lemma glob_from_match:
  assumes "mi < length m" "ti < length t" "m ! mi \<noteq> star_ch"
  shows "glob_from m t mi ti \<longleftrightarrow>
    (m ! mi = any_ch \<or> m ! mi = t ! ti) \<and> glob_from m t (mi + 1) (ti + 1)"
  using assms by (simp add: Cons_nth_drop_Suc [symmetric, of mi m] Cons_nth_drop_Suc [symmetric, of ti t])

lemma glob_later_step:
  assumes "backtrack < length t"
  shows "glob_later m t (Some s) backtrack \<longleftrightarrow>
    (glob_from m t (s + 1) (backtrack + 1) \<or> glob_later m t (Some s) (backtrack + 1))"
proof -
  have "(\<exists>k. backtrack < k \<and> P k) \<longleftrightarrow> P (backtrack + 1) \<or> (\<exists>k. backtrack + 1 < k \<and> P k)"
    for P :: "nat \<Rightarrow> bool"
    by (metis Suc_eq_plus1 lessI less_trans Suc_lessI)
  from this [of "\<lambda>k. k \<le> length t \<and> glob_from m t (s + 1) k"] assms show ?thesis
    by (auto simp: glob_later_def)
qed

lemma glob_loop_correct:
  "star_ch \<notin> set t \<Longrightarrow> glob_inv m t mi ti star bt \<Longrightarrow>
     glob_loop m t mi ti star bt \<longleftrightarrow> glob_from m t mi ti \<or> glob_later m t star bt"
proof (induction m t mi ti star bt rule: glob_loop.induct)
  case (1 m t mi ti star bt)
  note inv = "1.prems"(2)
  from inv have ti: "ti \<le> length t" by (simp add: glob_inv_def)
  show ?case
  proof (cases "ti < length t")
    case False
    then have end': "ti = length t" using ti by simp
    have "\<not> glob_later m t star bt"
      using glob_later_segment [OF inv] end' by (metis leD)
    with end' show ?thesis
      by (subst glob_loop.simps) (simp add: glob_spec_stars)
  next
    case True
    have tstar: "t ! ti \<noteq> star_ch" using "1.prems"(1) True nth_mem by metis
    consider (matched) "mi < length m" "m ! mi = any_ch \<or> m ! mi = t ! ti"
      | (starred) "mi < length m" "m ! mi = star_ch"
      | (stuck) "\<not> (mi < length m \<and> (m ! mi = any_ch \<or> m ! mi = t ! ti))"
          "\<not> (mi < length m \<and> m ! mi = star_ch)"
      by blast
    then show ?thesis
    proof cases
      case matched
      then have nstar: "m ! mi \<noteq> star_ch" using tstar by auto
      then have "glob_inv m t (mi + 1) (ti + 1) star bt"
        using inv matched True by (auto simp: glob_inv_def less_Suc_eq)
      then show ?thesis
        using "1.IH"(1) [OF True] matched "1.prems"(1) glob_from_match [OF matched(1) True nstar]
        by (subst glob_loop.simps) (simp add: True)
    next
      case starred
      then have nm: "\<not> (m ! mi = any_ch \<or> m ! mi = t ! ti)" using tstar by auto
      have "glob_inv m t (mi + 1) ti (Some mi) ti"
        using starred True by (auto simp: glob_inv_def)
      then have "glob_loop m t (mi + 1) ti (Some mi) ti \<longleftrightarrow> glob_from m t mi ti"
        using "1.IH"(2) [OF True] starred nm "1.prems"(1) glob_from_star [OF starred, of ti t] ti
        by simp
      then show ?thesis
        using starred nm True glob_later_star [OF inv _ starred]
        by (subst glob_loop.simps) auto
    next
      case stuck
      have nfrom: "\<not> glob_from m t mi ti"
        using stuck True glob_from_match [of mi m ti t] by (cases "mi < length m") auto
      show ?thesis
      proof (cases star)
        case None
        then show ?thesis using stuck True nfrom
          by (subst glob_loop.simps) (auto simp: glob_later_def)
      next
        case (Some s)
        then have bt: "bt < length t" and s: "s < length m" "m ! s = star_ch"
          using inv True by (auto simp: glob_inv_def)
        have "glob_inv m t (s + 1) (bt + 1) (Some s) (bt + 1)"
          using s bt by (auto simp: glob_inv_def)
        then have "glob_loop m t (s + 1) (bt + 1) (Some s) (bt + 1)
            \<longleftrightarrow> glob_later m t (Some s) bt"
          using "1.IH"(3) [OF True] stuck Some "1.prems"(1) glob_later_step [OF bt] by simp
        then show ?thesis using stuck True nfrom Some
          by (subst glob_loop.simps) auto
      qed
    qed
  qed
qed

lemma glob_match_spec:
  assumes "star_ch \<notin> set (utf8_chars text)"
  shows "glob_match pat text \<longleftrightarrow> glob_spec (utf8_chars pat) (utf8_chars text)"
  using glob_loop_correct [OF assms, of "utf8_chars pat" 0 0 None 0]
  by (simp add: glob_match_def glob_inv_def glob_later_def)

text \<open>The loop compares for equality before it looks for a star, so a star in the text takes the
  star of the pattern as a literal and leaves nothing to fall back on.\<close>

lemma glob_star_text:
  "\<not> glob_match ''*a'' ''*ba'' \<and> glob_spec (utf8_chars ''*a'') (utf8_chars ''*ba'')"
  by code_simp

section \<open>The interface its callers use\<close>

text \<open>
  Callers rely on a matcher that agrees with the meaning of the pattern on ordinary text.
\<close>

locale wildcard_matcher =
  fixes matches :: "string \<Rightarrow> string \<Rightarrow> bool"
  assumes matches_spec:
    "star_ch \<notin> set (utf8_chars text) \<Longrightarrow>
       matches pat text \<longleftrightarrow> glob_spec (utf8_chars pat) (utf8_chars text)"
begin

lemma catch_all:
  assumes "star_ch \<notin> set (utf8_chars text)"
  shows "matches ''*'' text"
proof -
  have "glob_spec [star_ch] (utf8_chars text)"
    unfolding glob_spec_star by (rule exI [of _ "length (utf8_chars text)"]) simp
  then show ?thesis using assms by (simp add: matches_spec is_cont_def)
qed

lemma literal:
  assumes "star_ch \<notin> set (utf8_chars text)" and "star_ch \<notin> set (utf8_chars pat)"
    and "any_ch \<notin> set (utf8_chars pat)"
  shows "matches pat text \<longleftrightarrow> utf8_chars pat = utf8_chars text"
proof -
  have "star_ch \<notin> set ms \<Longrightarrow> any_ch \<notin> set ms \<Longrightarrow> glob_spec ms ts \<longleftrightarrow> ms = ts" for ms ts
    by (induction ms ts rule: glob_spec.induct) auto
  with assms show ?thesis by (simp add: matches_spec)
qed

lemma prefix_pattern:
  assumes "star_ch \<notin> set (utf8_chars text)" and "star_ch \<notin> set (utf8_chars p)"
    and "any_ch \<notin> set (utf8_chars p)" and "utf8_chars (p @ ''*'') = utf8_chars p @ [star_ch]"
  shows "matches (p @ ''*'') text \<longleftrightarrow> (\<exists>r. utf8_chars text = utf8_chars p @ r)"
proof -
  have "glob_spec (ps @ [star_ch]) ts \<longleftrightarrow> (\<exists>r. ts = ps @ r)"
    if "star_ch \<notin> set ps" "any_ch \<notin> set ps" for ps ts
    using that
  proof (induction ps arbitrary: ts)
    case Nil
    have "glob_spec [star_ch] ts"
      unfolding glob_spec_star by (rule exI [of _ "length ts"]) simp
    then show ?case by simp
  next
    case (Cons p ps)
    then show ?case by (cases ts) auto
  qed
  with assms show ?thesis by (simp add: matches_spec)
qed

end

interpretation glob: wildcard_matcher glob_match
  by unfold_locales (rule glob_match_spec)

end
