(* ===== verification/Casemap.thy ===== *)
theory Casemap
  imports Glob
begin

text \<open>
  \<^verbatim>\<open>CASEMAPPING=rfc1459\<close> (\<^verbatim>\<open>norm_nick\<close>, \<^verbatim>\<open>is_service_name\<close> and
  \<^verbatim>\<open>wildcard_match\<close> of \<^verbatim>\<open>src/state.rs\<close>): the fold under which nicknames, channel
  names and account names are compared and keyed, and the contract the keyed stores rely on.
\<close>

section \<open>The fold\<close>

definition fold_char :: "char \<Rightarrow> char" where
  "fold_char c = (let l = to_lower c in
     if l = CHR ''{'' then CHR ''['' else
     if l = CHR ''}'' then CHR '']'' else
     if l = CHR ''|'' then CHR 0x5C else
     if l = CHR ''^'' then CHR ''~'' else l)"

definition norm_nick :: "string \<Rightarrow> string" where
  "norm_nick s = map fold_char s"

definition is_service_name :: "string \<Rightarrow> bool" where
  "is_service_name s \<longleftrightarrow> norm_nick s = ''nickserv'' \<or> norm_nick s = ''chanserv''"

definition wildcard_match :: "string \<Rightarrow> string \<Rightarrow> bool" where
  "wildcard_match pattern text = glob_match pattern text"

lemma fold_char_lower: "fold_char (to_lower c) = fold_char c"
  by (simp add: fold_char_def)

lemma fold_char_idem [simp]: "fold_char (fold_char c) = fold_char c"
  by (auto simp: fold_char_def Let_def to_lower_def is_upper_def)

lemma norm_nick_idem [simp]: "norm_nick (norm_nick s) = norm_nick s"
  by (simp add: norm_nick_def)

lemma norm_nick_Nil [simp]: "norm_nick s = [] \<longleftrightarrow> s = []"
  by (simp add: norm_nick_def)

lemma length_norm_nick [simp]: "length (norm_nick s) = length s"
  by (simp add: norm_nick_def)

lemma norm_nick_append: "norm_nick (a @ b) = norm_nick a @ norm_nick b"
  by (simp add: norm_nick_def)

lemma is_service_name_norm [simp]: "is_service_name (norm_nick s) = is_service_name s"
  by (simp add: is_service_name_def)

text \<open>The fold never produces or removes a byte outside letters and the four bracket pairs;
  in particular it keeps tabs, line feeds and the other separators the file formats use.\<close>

lemma byte_val_to_lower: "byte_val (to_lower c) = (if is_upper c then byte_val c + 32 else byte_val c)"
  by (auto simp: to_lower_def is_upper_def)

lemma fold_char_control:
  assumes "byte_val d \<le> 64"
  shows "fold_char c = d \<longleftrightarrow> c = d"
proof
  assume eq: "fold_char c = d"
  have big: "d \<noteq> CHR ''['' \<and> d \<noteq> CHR '']'' \<and> d \<noteq> CHR 0x5C \<and> d \<noteq> CHR ''~''"
    using assms by auto
  have "to_lower c = d" using eq big by (auto simp: fold_char_def Let_def split: if_splits)
  moreover have "\<not> is_upper c"
  proof
    assume "is_upper c"
    then have "byte_val (to_lower c) \<ge> 97" by (simp add: byte_val_to_lower is_upper_def)
    with \<open>to_lower c = d\<close> assms show False by simp
  qed
  ultimately show "c = d" by (simp add: to_lower_def)
next
  assume "c = d"
  have "\<not> is_upper d" using assms by (simp add: is_upper_def)
  moreover have "d \<noteq> CHR ''{'' \<and> d \<noteq> CHR ''}'' \<and> d \<noteq> CHR ''|'' \<and> d \<noteq> CHR ''^''"
    using assms by auto
  ultimately show "fold_char c = d" using \<open>c = d\<close> by (simp add: fold_char_def to_lower_def Let_def)
qed

lemma norm_nick_control: "byte_val d \<le> 64 \<Longrightarrow> d \<in> set (norm_nick s) \<longleftrightarrow> d \<in> set s"
  using fold_char_control [of d] unfolding norm_nick_def set_map image_iff by metis

section \<open>The contract of a case fold\<close>

text \<open>
  What a case-insensitively keyed store needs of its fold: folding a folded key changes
  nothing, and the empty name is the only one folded to the empty key.
\<close>

locale casefold =
  fixes fold :: "string \<Rightarrow> string"
  assumes fold_idem: "fold (fold s) = fold s"
    and fold_empty: "fold s = [] \<longleftrightarrow> s = []"
begin

definition same :: "string \<Rightarrow> string \<Rightarrow> bool" where
  "same a b \<longleftrightarrow> fold a = fold b"

lemma same_equiv: "equivp same"
  by (rule equivpI) (auto simp: reflp_def symp_def transp_def same_def)

lemma same_fold: "same (fold a) b \<longleftrightarrow> same a b"
  by (simp add: same_def fold_idem)

text \<open>A table keyed by folded names answers alike to every spelling of a name.\<close>

lemma get_same: "same a b \<Longrightarrow> hm_get m (fold a) = hm_get m (fold b)"
  by (simp add: same_def)

lemma get_after_insert: "hm_get (hm_insert (fold a) v m) (fold b) =
    (if same b a then Some v else hm_get m (fold b))"
  by (simp add: hm_simps same_def)

lemma get_after_remove: "hm_get (hm_remove (fold a) m) (fold b) =
    (if same b a then None else hm_get m (fold b))"
  by (simp add: hm_simps same_def)

end

interpretation rfc1459: casefold norm_nick
  by unfold_locales simp_all

interpretation wildcard: wildcard_matcher wildcard_match
  by unfold_locales (simp add: wildcard_match_def glob.matches_spec)

end
