(* ===== verification/Proto.thy ===== *)
theory Proto
  imports Prelude
begin

text \<open>
  \<^verbatim>\<open>src/proto.rs\<close>: composing and parsing one IRC message, IRCv3 message tags, and the
  civil date of a Unix timestamp. \<^verbatim>\<open>proto::line\<close>, \<^verbatim>\<open>proto::params\<close> and
  \<^verbatim>\<open>proto::parse\<close> are \<open>proto_line\<close>, \<open>proto_params\<close> and \<open>proto_parse\<close>.
\<close>

section \<open>Messages\<close>

definition VERSION :: string where
  "VERSION = ''chonkline-beta''"

abbreviation MAX_LINE_WITH_CRLF :: nat where "MAX_LINE_WITH_CRLF \<equiv> 512"
abbreviation MAX_CONTENT_BYTES :: nat where "MAX_CONTENT_BYTES \<equiv> 510"
abbreviation MAX_PARAMS :: nat where "MAX_PARAMS \<equiv> 15"

record command =
  cmd_prefix :: "string option"
  cmd_name :: string
  cmd_params :: "string list"
  cmd_tags :: "(string \<times> string option) list"

abbreviation crlf :: string where "crlf \<equiv> [CHR 0x0D, CHR 0x0A]"

definition needs_trailing_marker :: "string \<Rightarrow> bool" where
  "needs_trailing_marker s \<longleftrightarrow> s \<noteq> [] \<and> CHR '' '' \<in> set s \<and> \<not> starts_with '':'' s"

definition proto_line :: "string \<Rightarrow> string \<Rightarrow> string \<Rightarrow> string" where
  "proto_line pfx keyword tail' =
     (if pfx \<noteq> [] then pfx @ '' '' else []) @ keyword
       @ (if tail' \<noteq> [] then '' '' @ tail' else []) @ crlf"

fun params_body :: "string list \<Rightarrow> string" where
  "params_body [] = []"
| "params_body [a] = (if needs_trailing_marker a then '':'' else []) @ a"
| "params_body (a # args) = a @ '' '' @ params_body args"

definition proto_params :: "string \<Rightarrow> string \<Rightarrow> string list \<Rightarrow> string" where
  "proto_params pfx keyword args = proto_line pfx keyword (params_body args)"

definition user_prefix :: "string \<Rightarrow> string \<Rightarrow> string \<Rightarrow> string" where
  "user_prefix nick user host = nick @ ''!'' @ user @ ''@'' @ host"

section \<open>Message tags\<close>

definition escape_tag_char :: "char \<Rightarrow> string" where
  "escape_tag_char c =
     (if c = CHR '';'' then [CHR 0x5C, CHR '':''] else
      if c = CHR '' '' then [CHR 0x5C, CHR ''s''] else
      if c = CHR 0x5C then [CHR 0x5C, CHR 0x5C] else
      if c = CHR 0x0D then [CHR 0x5C, CHR ''r''] else
      if c = CHR 0x0A then [CHR 0x5C, CHR ''n''] else [c])"

definition escape_tag_value :: "string \<Rightarrow> string" where
  "escape_tag_value s = concat (map escape_tag_char s)"

fun unescape_tag_value :: "string \<Rightarrow> string" where
  "unescape_tag_value [] = []"
| "unescape_tag_value [c] = [c]"
| "unescape_tag_value (c # d # cs) =
     (if c \<noteq> CHR 0x5C then c # unescape_tag_value (d # cs)
      else (if d = CHR '':'' then CHR '';'' else
            if d = CHR ''s'' then CHR '' '' else
            if d = CHR 0x5C then CHR 0x5C else
            if d = CHR ''r'' then CHR 0x0D else
            if d = CHR ''n'' then CHR 0x0A else d) # unescape_tag_value cs)"

definition parse_tags :: "string \<Rightarrow> (string \<times> string option) list" where
  "parse_tags raw =
     map (\<lambda>tag. case split_once (CHR ''='') tag of
            Some (k, v) \<Rightarrow> (k, Some (unescape_tag_value v))
          | None \<Rightarrow> (tag, None))
       (filter (\<lambda>t. t \<noteq> []) (split_on (CHR '';'') raw))"

section \<open>Parsing\<close>

abbreviation not_ws :: "char \<Rightarrow> bool" where "not_ws c \<equiv> \<not> is_ws c"

text \<open>The parameter loop: white space separates, a token-initial colon takes the rest.\<close>

function parse_params :: "string \<Rightarrow> string list" where
  "parse_params [] = []"
| "parse_params (c # cs) =
     (if is_ws c then parse_params cs
      else if c = CHR '':'' then [cs]
      else takeWhile not_ws (c # cs) # parse_params (dropWhile not_ws (c # cs)))"
  by pat_completeness auto
termination
  by (relation "measure length") (auto simp: less_Suc_eq_le length_dropWhile_le)

text \<open>The leading \<^verbatim>\<open>@tags\<close> list: the tags and the rest of the line, or \<^const>\<open>None\<close>
  where the source returns early.\<close>

definition take_tags :: "string \<Rightarrow> ((string \<times> string option) list \<times> string) option" where
  "take_tags l =
     (case strip_prefix ''@'' l of
        Some rest \<Rightarrow>
          (if list_all not_ws rest then None
           else Some (parse_tags (takeWhile not_ws rest), trim_start (dropWhile not_ws rest)))
      | None \<Rightarrow> Some ([], l))"

definition take_prefix :: "string \<Rightarrow> string option" where
  "take_prefix l =
     (case l of c # cs \<Rightarrow> if c = CHR '':'' then Some (takeWhile not_ws cs) else None | [] \<Rightarrow> None)"

definition proto_parse :: "string \<Rightarrow> command option" where
  "proto_parse l0 =
     (if length l0 > MAX_CONTENT_BYTES \<or> l0 = [] \<or> CHR 0x00 \<in> set l0 then None
      else case take_tags l0 of
        None \<Rightarrow> None
      | Some (tgs, l) \<Rightarrow>
          (if l = [] then None
           else
             let prefix_now = take_prefix l;
                 rest_now = (case prefix_now of Some p \<Rightarrow> drop (length p + 2) l | None \<Rightarrow> l);
                 name_now = takeWhile not_ws rest_now
             in if name_now = [] \<or> \<not> list_all is_alphabetic name_now then None
                else
                  let params_now = parse_params (dropWhile not_ws rest_now)
                  in if length params_now > MAX_PARAMS then None
                     else Some \<lparr>cmd_prefix = prefix_now, cmd_name = upper name_now,
                                cmd_params = params_now, cmd_tags = tgs\<rparr>))"

section \<open>Timestamps\<close>

text \<open>\<^verbatim>\<open>civil_from_epoch\<close>; \<open>z\<close> is never negative for an unsigned timestamp, so Rust's
  truncating division is \<open>div\<close> here.\<close>

definition civil_from_epoch :: "nat \<Rightarrow> int \<times> int \<times> int \<times> int \<times> int \<times> int" where
  "civil_from_epoch secs =
     (let days = int (secs div 86400);
          rem = int (secs mod 86400);
          h = rem div 3600; mi = rem mod 3600 div 60; s = rem mod 60;
          z = days + 719468;
          era = (if z \<ge> 0 then z else z - 146096) div 146097;
          doe = z - era * 146097;
          yoe = (doe - doe div 1460 + doe div 36524 - doe div 146096) div 365;
          y = yoe + era * 400;
          doy = doe - (365 * yoe + yoe div 4 - yoe div 100);
          mp = (5 * doy + 2) div 153;
          d = doy - (153 * mp + 2) div 5 + 1;
          m = (if mp < 10 then mp + 3 else mp - 9);
          year = (if m \<le> 2 then y + 1 else y)
      in (year, m, d, h, mi, s))"

text \<open>\<^verbatim>\<open>{:0w}\<close> of a number that is not negative.\<close>

definition pad_zero :: "nat \<Rightarrow> int \<Rightarrow> string" where
  "pad_zero w n = (let s = show_nat (nat n) in replicate (w - length s) (CHR ''0'') @ s)"

definition ircv3_timestamp :: "nat \<Rightarrow> nat \<Rightarrow> string" where
  "ircv3_timestamp secs millis =
     (case civil_from_epoch secs of (y, mo, d, h, mi, s) \<Rightarrow>
        pad_zero 4 y @ ''-'' @ pad_zero 2 mo @ ''-'' @ pad_zero 2 d @ ''T'' @ pad_zero 2 h @ '':''
          @ pad_zero 2 mi @ '':'' @ pad_zero 2 s @ ''.'' @ pad_zero 3 (int millis) @ ''Z'')"

section \<open>Tag values survive escaping\<close>

lemma unescape_plain:
  "c \<noteq> CHR 0x5C \<Longrightarrow> unescape_tag_value (c # s) = c # unescape_tag_value s"
  by (cases s) auto

lemma unescape_escape_char:
  "unescape_tag_value (escape_tag_char c @ s) = c # unescape_tag_value s"
  by (auto simp: escape_tag_char_def unescape_plain)

lemma unescape_escape: "unescape_tag_value (escape_tag_value s) = s"
  by (induction s) (simp_all add: escape_tag_value_def unescape_escape_char)

lemma escape_tag_char_safe:
  "d \<in> set (escape_tag_char c) \<Longrightarrow>
     d \<noteq> CHR '';'' \<and> d \<noteq> CHR '' '' \<and> d \<noteq> CHR 0x0D \<and> d \<noteq> CHR 0x0A"
  by (auto simp: escape_tag_char_def split: if_splits)

lemma escape_tag_value_safe:
  "d \<in> set (escape_tag_value s) \<Longrightarrow>
     d \<noteq> CHR '';'' \<and> d \<noteq> CHR '' '' \<and> d \<noteq> CHR 0x0D \<and> d \<noteq> CHR 0x0A"
  by (auto simp: escape_tag_value_def dest: escape_tag_char_safe)

definition render_tag :: "string \<times> string option \<Rightarrow> string" where
  "render_tag t = (case t of (k, None) \<Rightarrow> k | (k, Some v) \<Rightarrow> k @ ''='' @ escape_tag_value v)"

definition tag_key_ok :: "string \<Rightarrow> bool" where
  "tag_key_ok k \<longleftrightarrow> k \<noteq> [] \<and> CHR ''='' \<notin> set k \<and> CHR '';'' \<notin> set k"

lemma parse_tags_render:
  assumes "ts \<noteq> []" and "\<And>k v. (k, v) \<in> set ts \<Longrightarrow> tag_key_ok k"
  shows "parse_tags (join_with '';'' (map render_tag ts)) = ts"
proof -
  have no_semi: "CHR '';'' \<notin> set (render_tag t)" if "t \<in> set ts" for t
    using assms(2) [of "fst t" "snd t"] that
    by (cases t) (auto simp: render_tag_def tag_key_ok_def dest: escape_tag_value_safe split: option.splits)
  have split: "split_on (CHR '';'') (join_with '';'' (map render_tag ts)) = map render_tag ts"
    using assms(1) no_semi by (intro split_join) auto
  have ne: "render_tag t \<noteq> []" if "t \<in> set ts" for t
    using assms(2) [of "fst t" "snd t"] that
    by (cases t) (auto simp: render_tag_def tag_key_ok_def split: option.splits)
  have parsed: "(case split_once (CHR ''='') (render_tag t) of
       Some (k, v) \<Rightarrow> (k, Some (unescape_tag_value v)) | None \<Rightarrow> (render_tag t, None)) = t"
    if "t \<in> set ts" for t
    using assms(2) [of "fst t" "snd t"] that
    by (cases t) (auto simp: render_tag_def tag_key_ok_def split_once_append split_once_none
        unescape_escape split: option.splits)
  have "filter (\<lambda>t. t \<noteq> []) (map render_tag ts) = map render_tag ts"
    using ne by (simp add: filter_id_conv)
  then show ?thesis using parsed by (simp add: parse_tags_def split map_idI)
qed

section \<open>What a parsed command looks like\<close>

lemma parse_params_shape:
  "p \<in> set (butlast (parse_params s)) \<Longrightarrow> p \<noteq> [] \<and> list_all not_ws p \<and> hd p \<noteq> CHR '':''"
proof (induction s rule: parse_params.induct)
  case 1
  then show ?case by simp
next
  case (2 c cs)
  show ?case
  proof (cases "is_ws c \<or> c = CHR '':''")
    case True
    with 2 show ?thesis by (cases "is_ws c") simp_all
  next
    case False
    let ?tok = "takeWhile not_ws (c # cs)" and ?rest = "parse_params (dropWhile not_ws (c # cs))"
    have "p = ?tok \<or> p \<in> set (butlast ?rest)"
      using "2.prems" False by (simp split: if_splits)
    moreover have "?tok \<noteq> []" "hd ?tok \<noteq> CHR '':''" "list_all not_ws ?tok"
      using False by (auto simp: list_all_iff dest: set_takeWhileD)
    ultimately show ?thesis using "2.IH"(2) False by (elim disjE) (simp only:, simp_all)
  qed
qed

lemma parse_params_ws: "is_ws c \<Longrightarrow> parse_params (c # cs) = parse_params cs"
  by simp

lemma parse_params_token:
  assumes "a \<noteq> []" "list_all not_ws a" "hd a \<noteq> CHR '':''" "rest = [] \<or> is_ws (hd rest)"
  shows "parse_params (a @ rest) = a # parse_params rest"
proof -
  obtain c cs where a: "a = c # cs" using assms(1) by (cases a) auto
  have all: "\<And>x. x \<in> set a \<Longrightarrow> not_ws x" using assms(2) by (simp add: list_all_iff)
  have "takeWhile not_ws (a @ rest) = a" and "dropWhile not_ws (a @ rest) = rest"
    using all assms(4) by (cases rest; simp add: takeWhile_append2 dropWhile_append2)+
  with a assms all show ?thesis by simp
qed

definition middle_ok :: "string \<Rightarrow> bool" where
  "middle_ok a \<longleftrightarrow> a \<noteq> [] \<and> list_all not_ws a \<and> hd a \<noteq> CHR '':''"

definition final_ok :: "string \<Rightarrow> bool" where
  "final_ok a \<longleftrightarrow> middle_ok a \<or> (a \<noteq> [] \<and> (hd a = CHR '':'' \<or> CHR '' '' \<in> set a))"

definition final_value :: "string \<Rightarrow> string" where
  "final_value a = (if hd a = CHR '':'' then tl a else a)"

lemma parse_params_body:
  "args \<noteq> [] \<Longrightarrow> list_all middle_ok (butlast args) \<Longrightarrow> final_ok (last args) \<Longrightarrow>
     parse_params (params_body args) = butlast args @ [final_value (last args)]"
proof (induction args rule: params_body.induct)
  case 1
  then show ?case by simp
next
  case (2 a)
  show ?case
  proof (cases "needs_trailing_marker a")
    case True
    then show ?thesis
      by (cases a) (auto simp: needs_trailing_marker_def starts_with_def final_value_def is_ws_def)
  next
    case False
    then consider "middle_ok a" | "a \<noteq> []" "hd a = CHR '':''"
      using 2 by (auto simp: final_ok_def needs_trailing_marker_def starts_with_def take_Suc
          split: list.splits; cases a; auto)
    then show ?thesis
    proof cases
      case 1
      with False show ?thesis
        using parse_params_token [of a "[]"] by (simp add: middle_ok_def final_value_def)
    next
      case 2
      with False show ?thesis by (cases a) (simp_all add: final_value_def is_ws_def)
    qed
  qed
next
  case (3 a b args)
  have "parse_params (a @ '' '' @ params_body (b # args)) =
      a # parse_params ('' '' @ params_body (b # args))"
    using 3 by (intro parse_params_token) (auto simp: middle_ok_def is_ws_def)
  moreover have "parse_params ('' '' @ params_body (b # args)) = parse_params (params_body (b # args))"
    by (simp add: is_ws_def)
  ultimately show ?case using 3 by simp
qed

lemma params_body_ne: "args \<noteq> [] \<Longrightarrow> list_all (\<lambda>a. a \<noteq> []) args \<Longrightarrow> params_body args \<noteq> []"
  by (induction args rule: params_body.induct) auto

section \<open>Parsing a composed line\<close>

definition keyword_ok :: "string \<Rightarrow> bool" where
  "keyword_ok k \<longleftrightarrow> k \<noteq> [] \<and> list_all is_upper k"

definition source_ok :: "string \<Rightarrow> bool" where
  "source_ok s \<longleftrightarrow> list_all not_ws s"

lemma upper_not_ws: "is_upper c \<Longrightarrow> not_ws c"
  by (auto simp: is_upper_def is_ws_def)

lemma takeWhile_space: "list_all not_ws k \<Longrightarrow> takeWhile not_ws (k @ CHR '' '' # r) = k"
  by (induction k) (auto simp: is_ws_def)

lemma dropWhile_space: "list_all not_ws k \<Longrightarrow> dropWhile not_ws (k @ CHR '' '' # r) = CHR '' '' # r"
  by (induction k) (auto simp: is_ws_def)

lemma keyword_facts:
  assumes "keyword_ok k"
  shows "list_all not_ws k" and "list_all is_alphabetic k" and "upper k = k"
  using assms by (auto simp: keyword_ok_def list_all_iff upper_not_ws is_alphabetic_def to_upper_id
      intro: map_idI)

definition args_ok :: "string list \<Rightarrow> bool" where
  "args_ok args \<longleftrightarrow> args \<noteq> [] \<and> length args \<le> MAX_PARAMS \<and> list_all middle_ok (butlast args)
     \<and> final_ok (last args)"

lemma args_ok_ne: "args_ok args \<Longrightarrow> list_all (\<lambda>a. a \<noteq> []) args"
  by (cases args rule: rev_cases)
    (auto simp: args_ok_def middle_ok_def final_ok_def list_all_iff)

text \<open>A line composed from a colon-marked source, a keyword and parameters parses back to
  exactly those, with the marker of an explicitly marked last parameter removed.\<close>

lemma proto_parse_params:
  assumes src: "source_ok src" and k: "keyword_ok k" and args: "args_ok args"
    and l: "proto_params ('':'' @ src) k args = l @ crlf"
    and len: "length l \<le> MAX_CONTENT_BYTES" and nul: "CHR 0x00 \<notin> set l"
  shows "proto_parse l = Some \<lparr>cmd_prefix = Some src, cmd_name = k,
           cmd_params = butlast args @ [final_value (last args)], cmd_tags = []\<rparr>"
proof -
  have body: "params_body args \<noteq> []"
    using args args_ok_ne [OF args] by (simp add: args_ok_def params_body_ne)
  have l': "l = CHR '':'' # src @ CHR '' '' # k @ CHR '' '' # params_body args"
    using l body by (simp add: proto_params_def proto_line_def)
  have tags: "take_tags l = Some ([], l)" by (simp add: l' take_tags_def strip_prefix_def)
  have pfx: "take_prefix l = Some src"
    using src by (simp add: l' take_prefix_def source_ok_def takeWhile_space)
  have rest: "drop (Suc (Suc (length src))) l = k @ CHR '' '' # params_body args" by (simp add: l')
  have ps: "parse_params (CHR '' '' # params_body args) = butlast args @ [final_value (last args)]"
    using args by (simp add: is_ws_def args_ok_def parse_params_body)
  have "length (butlast args @ [final_value (last args)]) \<le> MAX_PARAMS" and "l \<noteq> []"
    using args by (simp_all add: args_ok_def l')
  moreover have "k \<noteq> []" using k by (simp add: keyword_ok_def)
  ultimately show ?thesis
    using len nul keyword_facts [OF k]
    by (simp add: proto_parse_def tags pfx rest takeWhile_space dropWhile_space ps Let_def
        del: parse_params.simps)
qed

lemma proto_parse_wf:
  assumes "proto_parse l = Some c"
  shows "length (cmd_params c) \<le> MAX_PARAMS" and "cmd_name c \<noteq> []" and "list_all is_upper (cmd_name c)"
    and "\<exists>s. cmd_params c = parse_params s" and "length l \<le> MAX_CONTENT_BYTES"
  using assms
  by (auto simp: proto_parse_def Let_def list_all_iff to_upper_upper
      split: if_splits option.splits) blast+

lemma proto_parse_middle:
  assumes "proto_parse l = Some c" and "p \<in> set (butlast (cmd_params c))"
  shows "middle_ok p"
proof -
  obtain s where "cmd_params c = parse_params s" using proto_parse_wf(4) [OF assms(1)] by blast
  then show ?thesis using parse_params_shape [of p s] assms(2) by (simp add: middle_ok_def)
qed

end
