(* ===== verification/Netaddr.thy ===== *)
theory Netaddr
  imports Prelude
begin

text \<open>
  The address syntax of Rust's \<^verbatim>\<open>std::net\<close> that the daemon relies on: parsing of
  \<^verbatim>\<open>Ipv4Addr\<close> and \<^verbatim>\<open>Ipv6Addr\<close> (with \<^verbatim>\<open>::\<close> and an embedded IPv4
  tail), and the canonical rendering of both. Readers take the remaining input and give a value
  with what is left, as the parser of the standard library does.
\<close>

section \<open>Readers\<close>

definition hex_val :: "char \<Rightarrow> nat" where
  "hex_val c = (if is_digit c then byte_val c - 48
     else if 97 \<le> byte_val c then byte_val c - 87 else byte_val c - 55)"

text \<open>A decimal octet: greedy digits, at most three, no leading zero, below 256.\<close>

definition read_octet :: "string \<Rightarrow> (nat \<times> string) option" where
  "read_octet s =
     (let ds = takeWhile is_digit s; rest = dropWhile is_digit s
      in if ds = [] \<or> 3 < length ds \<or> (hd ds = CHR ''0'' \<and> 1 < length ds) \<or> 256 \<le> digits_val ds
         then None else Some (digits_val ds, rest))"

text \<open>A hexadecimal group: greedy digits, at most four.\<close>

definition read_hex_group :: "string \<Rightarrow> (nat \<times> string) option" where
  "read_hex_group s =
     (let ds = takeWhile is_hexdigit s; rest = dropWhile is_hexdigit s
      in if ds = [] \<or> 4 < length ds then None
         else Some (foldl (\<lambda>a c. a * 16 + hex_val c) 0 ds, rest))"

definition read_char :: "char \<Rightarrow> string \<Rightarrow> string option" where
  "read_char c s = (case s of x # xs \<Rightarrow> if x = c then Some xs else None | [] \<Rightarrow> None)"

text \<open>\<^verbatim>\<open>read_separator\<close>: the separator is expected before every item but the first.\<close>

definition read_sep :: "char \<Rightarrow> nat \<Rightarrow> (string \<Rightarrow> ('a \<times> string) option) \<Rightarrow> string \<Rightarrow> ('a \<times> string) option" where
  "read_sep c i rd s =
     (if i = 0 then rd s else case read_char c s of None \<Rightarrow> None | Some s' \<Rightarrow> rd s')"

fun read_octets :: "nat \<Rightarrow> nat \<Rightarrow> string \<Rightarrow> (nat list \<times> string) option" where
  "read_octets i 0 s = Some ([], s)"
| "read_octets i (Suc n) s =
     (case read_sep (CHR ''.'') i read_octet s of
        None \<Rightarrow> None
      | Some (v, s1) \<Rightarrow>
          (case read_octets (Suc i) n s1 of None \<Rightarrow> None | Some (vs, s2) \<Rightarrow> Some (v # vs, s2)))"

definition read_ipv4 :: "string \<Rightarrow> (nat list \<times> string) option" where
  "read_ipv4 s = read_octets 0 4 s"

text \<open>\<^verbatim>\<open>read_groups\<close>: up to \<open>n\<close> groups; the flag says that an IPv4 tail ended the list.\<close>

fun read_groups :: "nat \<Rightarrow> nat \<Rightarrow> string \<Rightarrow> nat list \<times> bool \<times> string" where
  "read_groups i 0 s = ([], False, s)"
| "read_groups i (Suc n) s =
     (case (if 1 \<le> n then read_sep (CHR '':'') i read_ipv4 s else None) of
        Some (os, s1) \<Rightarrow> ([os ! 0 * 256 + os ! 1, os ! 2 * 256 + os ! 3], True, s1)
      | None \<Rightarrow>
          (case read_sep (CHR '':'') i read_hex_group s of
             None \<Rightarrow> ([], False, s)
           | Some (g, s1) \<Rightarrow>
               (case read_groups (Suc i) n s1 of (gs, v4, s2) \<Rightarrow> (g # gs, v4, s2))))"

definition read_ipv6 :: "string \<Rightarrow> (nat list \<times> string) option" where
  "read_ipv6 s =
     (case read_groups 0 8 s of (gs, v4, s1) \<Rightarrow>
        (if length gs = 8 then Some (gs, s1)
         else if v4 then None
         else case read_char (CHR '':'') s1 of None \<Rightarrow> None | Some s2 \<Rightarrow>
           (case read_char (CHR '':'') s2 of None \<Rightarrow> None | Some s3 \<Rightarrow>
             (case read_groups 0 (8 - (length gs + 1)) s3 of (tl', _, s4) \<Rightarrow>
                Some (gs @ replicate (8 - length gs - length tl') 0 @ tl', s4)))))"

section \<open>Parsing whole strings\<close>

definition parse_ipv4 :: "string \<Rightarrow> nat list option" where
  "parse_ipv4 s = (if 15 < length s then None
     else case read_ipv4 s of Some (os, []) \<Rightarrow> Some os | _ \<Rightarrow> None)"

definition parse_ipv6 :: "string \<Rightarrow> nat list option" where
  "parse_ipv6 s = (case read_ipv6 s of Some (gs, []) \<Rightarrow> Some gs | _ \<Rightarrow> None)"

section \<open>Rendering\<close>

definition show_ipv4 :: "nat list \<Rightarrow> string" where
  "show_ipv4 os = join_with ''.'' (map show_nat os)"

definition hex_char :: "nat \<Rightarrow> char" where
  "hex_char d = char_of (if d < 10 then 48 + d else 87 + d)"

fun show_hex :: "nat \<Rightarrow> string" where
  "show_hex n = (if n < 16 then [hex_char n] else show_hex (n div 16) @ [hex_char (n mod 16)])"

declare show_hex.simps [simp del]

definition to_ipv4_mapped :: "nat list \<Rightarrow> nat list option" where
  "to_ipv4_mapped gs =
     (if take 6 gs = [0, 0, 0, 0, 0, 65535]
      then Some [gs ! 6 div 256, gs ! 6 mod 256, gs ! 7 div 256, gs ! 7 mod 256] else None)"

text \<open>The first longest run of zero groups, as start and length.\<close>

fun longest_zeros :: "nat list \<Rightarrow> nat \<Rightarrow> nat \<times> nat \<Rightarrow> nat \<times> nat \<Rightarrow> nat \<times> nat" where
  "longest_zeros [] i cur best = best"
| "longest_zeros (g # gs) i cur best =
     (if g = 0 then
        let cur' = (if snd cur = 0 then (i, 1) else (fst cur, Suc (snd cur)))
        in longest_zeros gs (Suc i) cur' (if snd best < snd cur' then cur' else best)
      else longest_zeros gs (Suc i) (0, 0) best)"

definition show_ipv6 :: "nat list \<Rightarrow> string" where
  "show_ipv6 gs =
     (case to_ipv4_mapped gs of
        Some v4 \<Rightarrow> ''::ffff:'' @ show_ipv4 v4
      | None \<Rightarrow>
          (case longest_zeros gs 0 (0, 0) (0, 0) of (start, n) \<Rightarrow>
             (if 1 < n then join_with '':'' (map show_hex (take start gs)) @ ''::''
                @ join_with '':'' (map show_hex (drop (start + n) gs))
              else join_with '':'' (map show_hex gs))))"

section \<open>Shape of parsed addresses\<close>

lemma read_octets_length: "read_octets i n s = Some (os, r) \<Longrightarrow> length os = n \<and> (\<forall>v\<in>set os. v < 256)"
proof (induction i n s arbitrary: os r rule: read_octets.induct)
  case (1 i s)
  then show ?case by simp
next
  case (2 i n s)
  then show ?case
    by (fastforce simp: read_sep_def read_octet_def Let_def split: option.splits if_splits prod.splits)
qed

lemma parse_ipv4_length: "parse_ipv4 s = Some os \<Longrightarrow> length os = 4 \<and> (\<forall>v\<in>set os. v < 256)"
  by (auto simp: parse_ipv4_def read_ipv4_def dest: read_octets_length
      split: if_splits option.splits list.splits)

lemma read_groups_length: "read_groups i n s = (gs, v4, r) \<Longrightarrow> length gs \<le> n"
proof (induction i n s arbitrary: gs v4 r rule: read_groups.induct)
  case (1 i s)
  then show ?case by simp
next
  case (2 i n s)
  then show ?case by (auto split: option.splits if_splits prod.splits)
qed

lemma parse_ipv6_length:
  assumes "parse_ipv6 s = Some gs"
  shows "length gs = 8"
proof -
  obtain hs v4 s1 where hs: "read_groups 0 8 s = (hs, v4, s1)" by (metis prod_cases3)
  have "length hs \<le> 8" using read_groups_length [OF hs] .
  moreover have "length ts \<le> 8 - (length hs + 1)"
    if "read_groups 0 (8 - (length hs + 1)) s3 = (ts, v, s4)" for s3 ts v s4
    using read_groups_length [OF that] .
  ultimately show ?thesis
    using assms by (fastforce simp: parse_ipv6_def read_ipv6_def hs
        split: if_splits option.splits list.splits prod.splits)
qed

end
