(* ===== verification/Transition.thy ===== *)
theory Transition
  imports Main
begin

text \<open>
  The interface between a step relation and a claim about all reachable states: what holds
  initially and is kept by every step holds whatever happens. Interpreted on the admission of
  connections (twice) and on the daemon as a whole.
\<close>

locale invariant_system =
  fixes init :: "'s \<Rightarrow> bool" and trans :: "'s \<Rightarrow> 's \<Rightarrow> bool" and good :: "'s \<Rightarrow> bool"
  assumes initially: "init s \<Longrightarrow> good s"
    and preserved: "good s \<Longrightarrow> trans s t \<Longrightarrow> good t"
begin

lemma kept: "trans\<^sup>*\<^sup>* s t \<Longrightarrow> good s \<Longrightarrow> good t"
  by (induction rule: rtranclp_induct) (auto dest: preserved)

lemma reachable: "init s \<Longrightarrow> trans\<^sup>*\<^sup>* s t \<Longrightarrow> good t"
  using kept initially by blast

end

text \<open>A measure that no step decreases, beside the invariant.\<close>

locale monotone_system = invariant_system +
  fixes level :: "'s \<Rightarrow> nat"
  assumes grows: "good s \<Longrightarrow> trans s t \<Longrightarrow> level s \<le> level t"
begin

lemma level_kept: "trans\<^sup>*\<^sup>* s t \<Longrightarrow> good s \<Longrightarrow> level s \<le> level t"
proof (induction rule: rtranclp_induct)
  case (step y z)
  from kept [OF step.hyps(1) step.prems] step grows show ?case by fastforce
qed simp

end

end
