(* ===== verification/Limits.thy ===== *)
theory Limits
  imports Glob Netaddr Transition "HOL-Library.Multiset" "HOL-Library.Product_Lexorder"
    "HOL-Library.List_Lexorder" "HOL-Library.Char_ord"
begin

text \<open>
  Admission control of \<^verbatim>\<open>src/limits.rs\<close>: the configured bounds, the per-source table and
  its operations, and a step relation in which connections are admitted, charged and released
  while the clock advances. Environment variables are a map from names to values. An
  \<^verbatim>\<open>Instant\<close> and a \<^verbatim>\<open>Duration\<close> count nanoseconds.
\<close>

section \<open>Configuration\<close>

type_synonym environ = "string \<Rightarrow> string option"

definition from_secs :: "nat \<Rightarrow> nat" where
  "from_secs n = n * 1000000000"

record limits =
  max_clones_per_ip :: nat
  max_clients :: nat
  max_connects_per_window :: nat
  connect_window :: nat
  max_messages_per_window :: nat
  message_window :: nat
  max_violations :: nat
  exempt :: "string list"

definition env_usize :: "environ \<Rightarrow> string \<Rightarrow> nat \<Rightarrow> nat" where
  "env_usize env key dflt =
     (case env key of None \<Rightarrow> dflt
      | Some v \<Rightarrow> (case parse_u64 v of None \<Rightarrow> dflt | Some n \<Rightarrow> n))"

definition addresses_are_trustworthy :: "environ \<Rightarrow> bool" where
  "addresses_are_trustworthy env \<longleftrightarrow>
     opt_default [] (env ''IRC_PROXY_PROTOCOL'') \<in> {''1'', ''true'', ''yes'', ''on''}"

definition limits_default :: "environ \<Rightarrow> limits" where
  "limits_default env =
     (let per_source_default = (\<lambda>d. if addresses_are_trustworthy env then d else 0)
      in \<lparr>max_clones_per_ip = env_usize env ''IRC_MAX_CLONES_PER_IP'' (per_source_default 5),
          max_clients = env_usize env ''IRC_MAX_CLIENTS'' 1024,
          max_connects_per_window = env_usize env ''IRC_MAX_CONNECTS_PER_MIN'' (per_source_default 30),
          connect_window = from_secs 60,
          max_messages_per_window = env_usize env ''IRC_MAX_MESSAGES_PER_10S'' (per_source_default 60),
          message_window = from_secs 10,
          max_violations = env_usize env ''IRC_MAX_FLOOD_VIOLATIONS'' 10,
          exempt = (case env ''IRC_LIMIT_EXEMPT'' of None \<Rightarrow> []
             | Some v \<Rightarrow> filter (\<lambda>s. s \<noteq> []) (map trim (split_on (CHR '','') v)))\<rparr>)"

definition source_key :: "string \<Rightarrow> string" where
  "source_key addr = (case parse_ipv6 addr of
     Some v6 \<Rightarrow>
       (case to_ipv4_mapped v6 of
          Some v4 \<Rightarrow> show_ipv4 v4
        | None \<Rightarrow> show_ipv6 (take 4 v6 @ [0, 0, 0, 0]) @ ''/64'')
   | None \<Rightarrow> addr)"

datatype refusal = TooManyClones | ConnectingTooFast | ServerFull

fun refusal_message :: "refusal \<Rightarrow> string" where
  "refusal_message TooManyClones = ''Too many connections from your address''"
| "refusal_message ConnectingTooFast = ''Reconnecting too fast, try again shortly''"
| "refusal_message ServerFull = ''Server is full, try again shortly''"

fun refusal_as_str :: "refusal \<Rightarrow> string" where
  "refusal_as_str TooManyClones = ''clones''"
| "refusal_as_str ConnectingTooFast = ''connect_rate''"
| "refusal_as_str ServerFull = ''server_full''"

section \<open>The source table\<close>

record source =
  src_active :: nat
  src_connects :: "instant list"
  src_messages :: "instant list"
  src_violations :: nat

record source_table =
  sources :: "(string, source) hmap"
  active_total :: nat

definition source_default :: source where
  "source_default = \<lparr>src_active = 0, src_connects = [], src_messages = [], src_violations = 0\<rparr>"

definition table_new :: source_table where
  "table_new = \<lparr>sources = [], active_total = 0\<rparr>"

text \<open>\<^verbatim>\<open>entry(key).or_default()\<close>\<close>

definition entry_of :: "source_table \<Rightarrow> string \<Rightarrow> source" where
  "entry_of t key = opt_default source_default (hm_get (sources t) key)"

definition put_entry :: "string \<Rightarrow> source \<Rightarrow> source_table \<Rightarrow> source_table" where
  "put_entry key e t = t\<lparr>sources := hm_insert key e (sources t)\<rparr>"

definition recent :: "instant \<Rightarrow> nat \<Rightarrow> instant list \<Rightarrow> instant list" where
  "recent now window ts = filter (\<lambda>t. now - t < window) ts"

definition is_exempt :: "limits \<Rightarrow> string \<Rightarrow> bool" where
  "is_exempt L key = list_ex (\<lambda>e. glob_match e key) (exempt L)"

definition try_admit ::
    "limits \<Rightarrow> string \<Rightarrow> bool \<Rightarrow> instant \<Rightarrow> source_table \<Rightarrow> (refusal + unit) \<times> source_table" where
  "try_admit L key ex now t =
     (if ex then
        (let e = entry_of t key
         in (Inr (), put_entry key (e\<lparr>src_active := src_active e + 1\<rparr>) t))
      else if 0 < max_clients L \<and> max_clients L \<le> active_total t then (Inl ServerFull, t)
      else
        let e0 = entry_of t key;
            e = e0\<lparr>src_connects := recent now (connect_window L) (src_connects e0)\<rparr>
        in if 0 < max_clones_per_ip L \<and> max_clones_per_ip L \<le> src_active e
           then (Inl TooManyClones, put_entry key e t)
           else if 0 < max_connects_per_window L \<and> max_connects_per_window L \<le> length (src_connects e)
           then (Inl ConnectingTooFast, put_entry key e t)
           else (Inr (), (put_entry key
                   (e\<lparr>src_connects := src_connects e @ [now], src_active := src_active e + 1\<rparr>) t)
                 \<lparr>active_total := active_total t + 1\<rparr>))"

definition release :: "limits \<Rightarrow> string \<Rightarrow> bool \<Rightarrow> instant \<Rightarrow> source_table \<Rightarrow> source_table" where
  "release L key ex now t =
     (case hm_get (sources t) key of
        None \<Rightarrow> t
      | Some e0 \<Rightarrow>
          let e = e0\<lparr>src_active := src_active e0 - 1,
                     src_connects := recent now (from_secs 60) (src_connects e0)\<rparr>;
              t1 = (if ex then t else t\<lparr>active_total := active_total t - 1\<rparr>)
          in if src_active e = 0 \<and> src_connects e = []
             then t1\<lparr>sources := hm_remove key (sources t1)\<rparr>
             else put_entry key e t1)"

definition charge_message ::
    "limits \<Rightarrow> string \<Rightarrow> bool \<Rightarrow> instant \<Rightarrow> source_table \<Rightarrow> (bool + unit) \<times> source_table" where
  "charge_message L key ex now t =
     (if ex \<or> max_messages_per_window L = 0 then (Inr (), t)
      else
        let e0 = entry_of t key;
            e = e0\<lparr>src_messages := recent now (message_window L) (src_messages e0)\<rparr>
        in if max_messages_per_window L \<le> length (src_messages e)
           then let e' = e\<lparr>src_violations := src_violations e + 1\<rparr>
                in (Inl (0 < max_violations L \<and> max_violations L \<le> src_violations e'), put_entry key e' t)
           else (Inr (), put_entry key (e\<lparr>src_messages := src_messages e @ [now]\<rparr>) t))"

definition active_for :: "source_table \<Rightarrow> string \<Rightarrow> nat" where
  "active_for t key = (case hm_get (sources t) key of None \<Rightarrow> 0 | Some e \<Rightarrow> src_active e)"

definition top_sources :: "source_table \<Rightarrow> nat \<Rightarrow> (string \<times> nat) list" where
  "top_sources t n = take n (sort_key (\<lambda>(k, a). (- int a, k))
     (map (\<lambda>(k, s). (k, src_active s)) (filter (\<lambda>(_, s). 0 < src_active s) (sources t))))"

definition tracked_sources :: "source_table \<Rightarrow> nat" where
  "tracked_sources t = length (sources t)"

section \<open>Source keys\<close>

text \<open>Two IPv6 addresses of the same /64 share every per-source bound.\<close>

lemma source_key_same_net:
  assumes "parse_ipv6 a = Some ga" "parse_ipv6 b = Some gb" "take 4 ga = take 4 gb"
    and "to_ipv4_mapped ga = None" "to_ipv4_mapped gb = None"
  shows "source_key a = source_key b"
  using assms by (simp add: source_key_def)

lemma source_key_not_v6: "parse_ipv6 a = None \<Longrightarrow> source_key a = a"
  by (simp add: source_key_def)

section \<open>Single operations\<close>

lemma recent_recent [simp]: "recent now w (recent now w ts) = recent now w ts"
  by (simp add: recent_def)

lemma recent_later:
  "now \<le> now' \<Longrightarrow> w' \<le> w \<Longrightarrow> recent now' w' (recent now w ts) = recent now' w' ts"
  by (induction ts) (auto simp: recent_def)

lemma recent_length: "now \<le> now' \<Longrightarrow> length (recent now' w ts) \<le> length (recent now w ts)"
  by (induction ts) (auto simp: recent_def)

lemma entry_of_put [simp]: "entry_of (put_entry k e t) k' = (if k' = k then e else entry_of t k')"
  by (simp add: entry_of_def put_entry_def hm_simps)

lemma put_entry_total [simp]: "active_total (put_entry k e t) = active_total t"
  by (simp add: put_entry_def)

lemma entry_of_total [simp]: "entry_of (t\<lparr>active_total := n\<rparr>) k = entry_of t k"
  by (simp add: entry_of_def)

lemma active_for_entry: "active_for t k = src_active (entry_of t k)"
  by (simp add: active_for_def entry_of_def source_default_def split: option.splits)

lemma entry_of_remove:
  "entry_of (t\<lparr>sources := hm_remove k (sources t)\<rparr>) k' = (if k' = k then source_default else entry_of t k')"
  by (simp add: entry_of_def hm_simps)

text \<open>What a release does to the counters of the table.\<close>

lemma release_entry:
  assumes "active_for t key > 0"
  shows "active_for (release L key ex now t) k = active_for t k - (if k = key then 1 else 0)"
    and "src_connects (entry_of (release L key ex now t) k) =
      (if k = key then recent now (from_secs 60) (src_connects (entry_of t k))
       else src_connects (entry_of t k))"
    and "active_total (release L key ex now t) = active_total t - (if ex then 0 else 1)"
proof -
  obtain e where e: "hm_get (sources t) key = Some e"
    using assms by (auto simp: active_for_def split: option.splits)
  show "active_for (release L key ex now t) k = active_for t k - (if k = key then 1 else 0)"
    and "src_connects (entry_of (release L key ex now t) k) =
      (if k = key then recent now (from_secs 60) (src_connects (entry_of t k))
       else src_connects (entry_of t k))"
    and "active_total (release L key ex now t) = active_total t - (if ex then 0 else 1)"
    by (auto simp: release_def e Let_def active_for_def entry_of_def put_entry_def hm_simps
        source_default_def)
qed

section \<open>Connections coming and going\<close>

text \<open>
  The table beside what it is meant to account for: the connections that hold a slot (source and
  exemption of each), the times at which non-exempt connections were admitted, and the clock.
\<close>

record admission =
  adm_table :: source_table
  adm_held :: "(string \<times> bool) multiset"
  adm_log :: "(string \<times> instant) list"
  adm_clock :: instant

inductive adm_step :: "limits \<Rightarrow> admission \<Rightarrow> admission \<Rightarrow> bool" for L where
  adm_tick: "adm_clock a \<le> now \<Longrightarrow> adm_step L a (a\<lparr>adm_clock := now\<rparr>)"
| adm_admitted: "try_admit L key ex (adm_clock a) (adm_table a) = (Inr (), t) \<Longrightarrow>
    adm_step L a (a\<lparr>adm_table := t, adm_held := add_mset (key, ex) (adm_held a),
      adm_log := adm_log a @ (if ex then [] else [(key, adm_clock a)])\<rparr>)"
| adm_refused: "try_admit L key ex (adm_clock a) (adm_table a) = (Inl r, t) \<Longrightarrow>
    adm_step L a (a\<lparr>adm_table := t\<rparr>)"
| adm_charged: "charge_message L key ex (adm_clock a) (adm_table a) = (r, t) \<Longrightarrow>
    adm_step L a (a\<lparr>adm_table := t\<rparr>)"
| adm_released: "(key, ex) \<in># adm_held a \<Longrightarrow>
    adm_step L a (a\<lparr>adm_table := release L key ex (adm_clock a) (adm_table a),
      adm_held := adm_held a - {#(key, ex)#}\<rparr>)"

definition adm_init :: "admission \<Rightarrow> bool" where
  "adm_init a \<longleftrightarrow> adm_table a = table_new \<and> adm_held a = {#} \<and> adm_log a = []"

definition adm_reach :: "limits \<Rightarrow> admission \<Rightarrow> bool" where
  "adm_reach L a \<longleftrightarrow> (\<exists>s. adm_init s \<and> (adm_step L)\<^sup>*\<^sup>* s a)"

definition held_by :: "(string \<times> bool) multiset \<Rightarrow> string \<Rightarrow> nat" where
  "held_by h k = size (filter_mset (\<lambda>p. fst p = k) h)"

definition held_counted :: "(string \<times> bool) multiset \<Rightarrow> nat" where
  "held_counted h = size (filter_mset (\<lambda>p. \<not> snd p) h)"

lemma held_by_add [simp]: "held_by (add_mset p h) k = held_by h k + (if fst p = k then 1 else 0)"
  by (simp add: held_by_def)

lemma held_counted_add [simp]: "held_counted (add_mset p h) = held_counted h + (if snd p then 0 else 1)"
  by (simp add: held_counted_def)

lemma held_remove:
  assumes "p \<in># h"
  shows "held_by (h - {#p#}) k = held_by h k - (if fst p = k then 1 else 0)"
    and "held_counted (h - {#p#}) = held_counted h - (if snd p then 0 else 1)"
    and "0 < held_by h (fst p)"
  using insert_DiffM [OF assms] held_by_add [of p "h - {#p#}" k] held_counted_add [of p "h - {#p#}"]
    held_by_add [of p "h - {#p#}" "fst p"] by auto

text \<open>The counters of the table are exact, and the two caps on concurrent connections hold.\<close>

definition adm_counts :: "limits \<Rightarrow> admission \<Rightarrow> bool" where
  "adm_counts L a \<longleftrightarrow>
     (\<forall>k. active_for (adm_table a) k = held_by (adm_held a) k)
     \<and> active_total (adm_table a) = held_counted (adm_held a)
     \<and> (0 < max_clients L \<longrightarrow> held_counted (adm_held a) \<le> max_clients L)
     \<and> (0 < max_clones_per_ip L \<longrightarrow> (\<forall>k. count (adm_held a) (k, False) \<le> max_clones_per_ip L))"

lemma count_le_held_by: "count h (k, b) \<le> held_by h k"
proof -
  have "count h (k, b) = count (filter_mset (\<lambda>p. fst p = k) h) (k, b)" by simp
  also have "\<dots> \<le> size (filter_mset (\<lambda>p. fst p = k) h)" by (rule count_le_size)
  finally show ?thesis by (simp add: held_by_def)
qed

lemma adm_counts_admitted:
  assumes inv: "adm_counts L a"
    and adm: "try_admit L key ex (adm_clock a) (adm_table a) = (Inr (), t)"
  shows "adm_counts L (a\<lparr>adm_table := t, adm_held := add_mset (key, ex) (adm_held a),
      adm_log := lg\<rparr>)"
proof (cases ex)
  case True
  with inv adm show ?thesis
    by (auto simp: adm_counts_def try_admit_def Let_def active_for_entry)
next
  case False
  with adm have room: "0 < max_clients L \<longrightarrow> active_total (adm_table a) < max_clients L"
    and clones: "0 < max_clones_per_ip L \<longrightarrow> active_for (adm_table a) key < max_clones_per_ip L"
    and tot: "active_total t = active_total (adm_table a) + 1"
    and act: "\<And>k. active_for t k = active_for (adm_table a) k + (if k = key then 1 else 0)"
    by (auto simp: try_admit_def Let_def active_for_entry split: if_splits)
  have "count (adm_held a) (key, False) < max_clones_per_ip L" if "0 < max_clones_per_ip L"
    using inv clones that count_le_held_by [of "adm_held a" key False]
    by (simp add: adm_counts_def)
  with inv room tot act False show ?thesis
    by (auto simp: adm_counts_def)
qed

lemma adm_counts_refused:
  "adm_counts L a \<Longrightarrow> try_admit L key ex (adm_clock a) (adm_table a) = (Inl r, t) \<Longrightarrow>
     adm_counts L (a\<lparr>adm_table := t\<rparr>)"
  by (auto simp: adm_counts_def try_admit_def Let_def active_for_entry split: if_splits)

lemma charge_same_counts:
  "charge_message L key ex now t = (r, t') \<Longrightarrow>
     active_for t' k = active_for t k \<and> active_total t' = active_total t
     \<and> src_connects (entry_of t' k) = src_connects (entry_of t k)"
  by (auto simp: charge_message_def Let_def active_for_entry split: if_splits)

lemma adm_counts_released:
  assumes inv: "adm_counts L a" and held: "(key, ex) \<in># adm_held a"
  shows "adm_counts L (a\<lparr>adm_table := release L key ex (adm_clock a) (adm_table a),
      adm_held := adm_held a - {#(key, ex)#}\<rparr>)"
proof -
  have "0 < active_for (adm_table a) key"
    using inv held_remove(3) [OF held] by (simp add: adm_counts_def)
  then show ?thesis
    using inv held_remove(1,2) [OF held]
    by (auto simp: adm_counts_def release_entry intro: le_trans [OF diff_le_self]
        le_trans [OF _ spec [of "\<lambda>k. count (adm_held a) (k, False) \<le> max_clones_per_ip L"]])
qed

lemma adm_counts_init: "adm_init a \<Longrightarrow> adm_counts L a"
  by (simp add: adm_init_def adm_counts_def table_new_def active_for_def held_by_def held_counted_def)

lemma adm_counts_step:
  assumes "adm_counts L a" "adm_step L a b"
  shows "adm_counts L b"
  using assms(2)
proof (cases rule: adm_step.cases)
  case (adm_tick now)
  with assms(1) show ?thesis by (simp add: adm_counts_def)
next
  case (adm_admitted key ex t)
  with adm_counts_admitted [OF assms(1) adm_admitted(2)] show ?thesis by simp
next
  case (adm_refused key ex r t)
  with adm_counts_refused [OF assms(1) adm_refused(2)] show ?thesis by simp
next
  case (adm_charged key ex r t)
  with assms(1) show ?thesis by (auto simp: adm_counts_def dest: charge_same_counts)
next
  case (adm_released key ex)
  with adm_counts_released [OF assms(1) adm_released(2)] show ?thesis by simp
qed

interpretation adm: invariant_system adm_init "adm_step L" "adm_counts L" for L
  by unfold_locales (auto intro: adm_counts_init adm_counts_step)

lemma adm_counts_reach: "adm_reach L a \<Longrightarrow> adm_counts L a"
  using adm.reachable by (auto simp: adm_reach_def)

section \<open>The connection rate\<close>

definition log_of :: "(string \<times> instant) list \<Rightarrow> string \<Rightarrow> instant list" where
  "log_of lg k = map snd (filter (\<lambda>p. fst p = k) lg)"

text \<open>Within the window, the table remembers every admission of a source.\<close>

definition adm_rate :: "limits \<Rightarrow> admission \<Rightarrow> bool" where
  "adm_rate L a \<longleftrightarrow> (\<forall>k.
     recent (adm_clock a) (from_secs 60) (src_connects (entry_of (adm_table a) k))
       = recent (adm_clock a) (from_secs 60) (log_of (adm_log a) k)
     \<and> (0 < max_connects_per_window L \<longrightarrow>
         length (recent (adm_clock a) (from_secs 60) (log_of (adm_log a) k)) \<le> max_connects_per_window L))"

lemma log_of_snoc [simp]: "log_of (lg @ [(k', t)]) k = log_of lg k @ (if k' = k then [t] else [])"
  by (simp add: log_of_def)

lemma recent_snoc [simp]: "0 < w \<Longrightarrow> recent now w (ts @ [now]) = recent now w ts @ [now]"
  by (simp add: recent_def)

lemma adm_rate_step:
  assumes "connect_window L = from_secs 60" "adm_counts L a" "adm_rate L a" "adm_step L a b"
  shows "adm_rate L b"
  using assms(4)
proof (cases rule: adm_step.cases)
  case (adm_tick now)
  have "recent now w xs = recent now w (recent (adm_clock a) w xs)" for w xs
    using adm_tick by (simp add: recent_later)
  then show ?thesis
    using adm_tick assms(3) recent_length [OF adm_tick(2), of "from_secs 60"]
    by (simp add: adm_rate_def) (metis le_trans)
next
  case (adm_admitted key ex t)
  then show ?thesis
    using assms(1,3)
    by (auto simp: adm_rate_def try_admit_def Let_def from_secs_def not_le Suc_le_eq
        split: if_splits)
next
  case (adm_refused key ex r t)
  then show ?thesis
    using assms(1,3) by (auto simp: adm_rate_def try_admit_def Let_def split: if_splits)
next
  case (adm_charged key ex r t)
  then show ?thesis
    using assms(3) charge_same_counts [OF adm_charged(2)] by (simp add: adm_rate_def)
next
  case (adm_released key ex)
  have "0 < active_for (adm_table a) key"
    using assms(2) held_remove(3) [OF adm_released(2)] by (simp add: adm_counts_def)
  then show ?thesis
    using adm_released assms(3) by (auto simp: adm_rate_def release_entry)
qed

text \<open>The rate rests on the counts, so the two are an invariant together.\<close>

definition adm_counts_rate :: "limits \<Rightarrow> admission \<Rightarrow> bool" where
  "adm_counts_rate L a \<longleftrightarrow> adm_counts L a \<and> (connect_window L = from_secs 60 \<longrightarrow> adm_rate L a)"

lemma adm_rate_init: "adm_init a \<Longrightarrow> adm_rate L a"
  by (simp add: adm_init_def adm_rate_def table_new_def log_of_def recent_def entry_of_def source_default_def)

interpretation adm_rates: invariant_system adm_init "adm_step L" "adm_counts_rate L" for L
  by unfold_locales (auto simp: adm_counts_rate_def intro: adm_counts_init adm_rate_init adm_counts_step adm_rate_step)

lemma adm_rate_reach: "connect_window L = from_secs 60 \<Longrightarrow> adm_reach L a \<Longrightarrow> adm_rate L a"
  using adm_rates.reachable by (auto simp: adm_reach_def adm_counts_rate_def)

end
