(* ===== verification/Chan.thy ===== *)
theory Chan
  imports Casemap Proto Limits
begin

text \<open>
  Connections and channels: \<^verbatim>\<open>Caps\<close>, \<^verbatim>\<open>Cx\<close> and \<^verbatim>\<open>Chn\<close> of
  \<^verbatim>\<open>src/state.rs\<close> with their methods. A bounded \<^verbatim>\<open>mpsc\<close> sender is the list of
  the lines queued and not yet taken by the writer. A \<^verbatim>\<open>BTreeSet\<close> is a set, iterated in
  ascending order. The keys of \<^verbatim>\<open>foreign_modes\<close> are code points, so byte strings.
\<close>

section \<open>Bounded queues\<close>

abbreviation REPLY_QUEUE :: nat where "REPLY_QUEUE \<equiv> 512"

record sender =
  tx_queue :: "string list"
  tx_capacity :: nat
  tx_closed :: bool

definition channel_new :: "nat \<Rightarrow> sender" where
  "channel_new n = \<lparr>tx_queue = [], tx_capacity = n, tx_closed = False\<rparr>"

text \<open>\<^verbatim>\<open>try_send\<close>: refused when the queue is full or its receiver is gone.\<close>

definition try_send :: "string \<Rightarrow> sender \<Rightarrow> bool \<times> sender" where
  "try_send l q = (if tx_closed q \<or> tx_capacity q \<le> length (tx_queue q) then (False, q)
     else (True, q\<lparr>tx_queue := tx_queue q @ [l]\<rparr>))"

section \<open>Capabilities\<close>

record caps =
  server_time :: bool
  away_notify :: bool
  extended_join :: bool
  account_notify :: bool
  multi_prefix :: bool
  userhost_in_names :: bool
  chghost :: bool
  cap_notify :: bool
  sasl :: bool
  message_tags :: bool
  account_tag :: bool
  batch :: bool
  labeled_response :: bool

definition caps_default :: caps where
  "caps_default = \<lparr>server_time = False, away_notify = False, extended_join = False,
     account_notify = False, multi_prefix = False, userhost_in_names = False, chghost = False,
     cap_notify = False, sasl = False, message_tags = False, account_tag = False, batch = False,
     labeled_response = False\<rparr>"

definition flag_list :: "(bool \<times> 'a) list \<Rightarrow> 'a list" where
  "flag_list fs = map snd (filter fst fs)"

definition enabled_list :: "caps \<Rightarrow> string" where
  "enabled_list c = join_with '' '' (flag_list
     [(server_time c, ''server-time''), (away_notify c, ''away-notify''),
      (extended_join c, ''extended-join''), (account_notify c, ''account-notify''),
      (multi_prefix c, ''multi-prefix''), (userhost_in_names c, ''userhost-in-names''),
      (chghost c, ''chghost''), (cap_notify c, ''cap-notify''), (sasl c, ''sasl''),
      (message_tags c, ''message-tags''), (account_tag c, ''account-tag''), (batch c, ''batch''),
      (labeled_response c, ''labeled-response'')])"

section \<open>Connections\<close>

record cx =
  cx_id :: nat
  cx_tx :: sender
  cx_nick :: string
  cx_nick_key :: string
  cx_user :: string
  cx_host :: string
  cx_real_host :: string
  cx_realname :: string
  cx_registered :: bool
  cx_account :: "string option"
  cx_caps :: caps
  cx_sasl_mech :: "string option"
  cx_cert_fp :: "string option"
  cx_pending_nick :: "string option"
  cx_pending_user :: "string option"
  cx_cap_negotiating :: bool
  cx_cap_gated_welcome :: bool
  cx_batch_seq :: u64
  cx_reg_challenged :: bool
  cx_reg_verified :: bool
  cx_away :: "string option"
  cx_invis :: bool
  cx_wallop :: bool
  cx_srvnotice :: bool
  cx_oper :: bool
  cx_bot :: bool
  cx_chans :: "string set"
  cx_connected_at :: instant
  cx_last_rx :: instant
  cx_close_notify :: bool

definition cx_prefix :: "cx \<Rightarrow> string" where
  "cx_prefix u = '':'' @ cx_nick u @ ''!'' @ cx_user u @ ''@'' @ cx_host u"

text \<open>\<^verbatim>\<open>signal_close\<close>: the notifier is used once; a waiting reader ends.\<close>

definition signal_close :: "cx \<Rightarrow> cx" where
  "signal_close u = u\<lparr>cx_close_notify := False\<rparr>"

definition user_mode_string :: "cx \<Rightarrow> string" where
  "user_mode_string u = CHR ''+'' # flag_list
     [(cx_invis u, CHR ''i''), (cx_srvnotice u, CHR ''s''), (cx_wallop u, CHR ''w''),
      (cx_oper u, CHR ''o''), (cx_bot u, CHR ''B'')]"

definition user_mode_text :: "cx \<Rightarrow> string" where
  "user_mode_text u =
     (let parts = flag_list
        [(cx_invis u, ''invisible''), (cx_wallop u, ''wallops''), (cx_srvnotice u, ''server notices''),
         (cx_oper u, ''IRC operator''), (cx_bot u, ''bot'')]
      in if parts = [] then ''normal user'' else join_with '', '' parts)"

definition composite_key :: "cx \<Rightarrow> string" where
  "composite_key u = cx_nick_key u @ ''!'' @ norm_nick (cx_user u) @ ''@'' @ norm_nick (cx_host u)"

definition matches_ban :: "cx \<Rightarrow> string \<Rightarrow> bool" where
  "matches_ban u msk =
     (let m = norm_nick msk
      in if CHR ''!'' \<in> set m \<or> CHR ''@'' \<in> set m then wildcard_match m (composite_key u)
         else wildcard_match m (cx_nick_key u))"

section \<open>Channels\<close>

record chn =
  ch_display :: string
  ch_topic :: string
  ch_topic_setter :: string
  ch_topic_time :: u64
  ch_created_at :: u64
  ch_invite_only :: bool
  ch_nomsg :: bool
  ch_private :: bool
  ch_secret :: bool
  ch_op_topic :: bool
  ch_moderated :: bool
  ch_regonly :: bool
  ch_key_limit :: int
  ch_chan_key :: "string option"
  ch_bans :: "string list"
  ch_excepts :: "string list"
  ch_invex :: "string list"
  ch_invites :: "nat set"
  ch_foreign_modes :: "(string, string option) hmap"
  ch_ops :: "nat set"
  ch_voices :: "nat set"
  ch_members :: "nat set"

definition chn_new :: "u64 \<Rightarrow> string \<Rightarrow> chn" where
  "chn_new unix_now display = \<lparr>ch_display = display, ch_topic = [], ch_topic_setter = [],
     ch_topic_time = 0, ch_created_at = unix_now, ch_invite_only = False, ch_nomsg = False,
     ch_private = False, ch_secret = False, ch_op_topic = False, ch_moderated = False,
     ch_regonly = False, ch_key_limit = 0, ch_chan_key = None, ch_bans = [], ch_excepts = [],
     ch_invex = [], ch_invites = {}, ch_foreign_modes = [], ch_ops = {}, ch_voices = {},
     ch_members = {}\<rparr>"

definition is_member :: "chn \<Rightarrow> nat \<Rightarrow> bool" where "is_member c i \<longleftrightarrow> i \<in> ch_members c"
definition is_op :: "chn \<Rightarrow> nat \<Rightarrow> bool" where "is_op c i \<longleftrightarrow> i \<in> ch_ops c"
definition is_voiced :: "chn \<Rightarrow> nat \<Rightarrow> bool" where "is_voiced c i \<longleftrightarrow> i \<in> ch_voices c"

definition marker :: "chn \<Rightarrow> nat \<Rightarrow> string" where
  "marker c i = (if i \<in> ch_ops c then ''@'' else if i \<in> ch_voices c then ''+'' else [])"

definition all_markers :: "chn \<Rightarrow> nat \<Rightarrow> string" where
  "all_markers c i = flag_list [(i \<in> ch_ops c, CHR ''@''), (i \<in> ch_voices c, CHR ''+'')]"

definition ban_match :: "chn \<Rightarrow> cx \<Rightarrow> string option" where
  "ban_match c target = List.find (matches_ban target) (ch_bans c)"

text \<open>\<^verbatim>\<open>foreign_mode_parts\<close>: a \<^verbatim>\<open>BTreeMap\<close> is iterated by ascending key.\<close>

definition foreign_sorted :: "chn \<Rightarrow> (string \<times> string option) list" where
  "foreign_sorted c = sort_key fst (ch_foreign_modes c)"

definition foreign_mode_parts :: "chn \<Rightarrow> string \<times> string list" where
  "foreign_mode_parts c =
     (concat (map fst (foreign_sorted c)), List.map_filter snd (foreign_sorted c))"

text \<open>\<^verbatim>\<open>to_string\<close> of an \<^verbatim>\<open>i32\<close>.\<close>

definition show_int :: "int \<Rightarrow> string" where
  "show_int i = (if i < 0 then ''-'' @ show_nat (nat (- i)) else show_nat (nat i))"

definition simple_flags :: "chn \<Rightarrow> string" where
  "simple_flags c = flag_list
     [(ch_invite_only c, CHR ''i''), (ch_nomsg c, CHR ''n''), (ch_private c, CHR ''p''),
      (ch_secret c, CHR ''s''), (ch_op_topic c, CHR ''t''), (ch_moderated c, CHR ''m''),
      (ch_regonly c, CHR ''R'')]"

definition burst_mode_parts :: "chn \<Rightarrow> string \<times> string list" where
  "burst_mode_parts c =
     (case foreign_mode_parts c of (fflags, fparams) \<Rightarrow>
        (''+'' @ simple_flags c @ (if ch_chan_key c \<noteq> None then ''k'' else [])
           @ (if 0 < ch_key_limit c then ''l'' else []) @ fflags,
         (case ch_chan_key c of Some k \<Rightarrow> [k] | None \<Rightarrow> [])
           @ (if 0 < ch_key_limit c then [show_int (ch_key_limit c)] else []) @ fparams))"

definition set_key_opt :: "string option \<Rightarrow> chn \<Rightarrow> chn" where
  "set_key_opt k c = c\<lparr>ch_chan_key := (case k of Some v \<Rightarrow> if v \<noteq> [] then Some v else None | None \<Rightarrow> None)\<rparr>"

definition set_limit_value :: "int \<Rightarrow> chn \<Rightarrow> chn" where
  "set_limit_value n c = c\<lparr>ch_key_limit := max n 0\<rparr>"

definition set_member_prefix :: "char \<Rightarrow> nat \<Rightarrow> bool \<Rightarrow> chn \<Rightarrow> chn" where
  "set_member_prefix ch i on c =
     (if ch = CHR ''o'' then c\<lparr>ch_ops := (if on then insert i (ch_ops c) else ch_ops c - {i})\<rparr>
      else c\<lparr>ch_voices := (if on then insert i (ch_voices c) else ch_voices c - {i})\<rparr>)"

definition set_foreign_mode :: "string \<Rightarrow> string option \<Rightarrow> bool \<Rightarrow> chn \<Rightarrow> chn" where
  "set_foreign_mode ch param on c = c\<lparr>ch_foreign_modes :=
     (if on then hm_insert ch param (ch_foreign_modes c) else hm_remove ch (ch_foreign_modes c))\<rparr>"

definition clear_all_modes :: "chn \<Rightarrow> chn" where
  "clear_all_modes c = c\<lparr>ch_invite_only := False, ch_nomsg := False, ch_private := False,
     ch_secret := False, ch_op_topic := False, ch_moderated := False, ch_regonly := False,
     ch_key_limit := 0, ch_chan_key := None, ch_bans := [], ch_excepts := [], ch_invex := [],
     ch_ops := {}, ch_voices := {}, ch_foreign_modes := []\<rparr>"

definition set_flag :: "char \<Rightarrow> bool \<Rightarrow> chn \<Rightarrow> chn" where
  "set_flag ch on c =
     (if ch = CHR ''i'' then c\<lparr>ch_invite_only := on\<rparr>
      else if ch = CHR ''n'' then c\<lparr>ch_nomsg := on\<rparr>
      else if ch = CHR ''p'' then c\<lparr>ch_private := on\<rparr>
      else if ch = CHR ''s'' then c\<lparr>ch_secret := on\<rparr>
      else if ch = CHR ''t'' then c\<lparr>ch_op_topic := on\<rparr>
      else if ch = CHR ''R'' then c\<lparr>ch_regonly := on\<rparr>
      else if ch = CHR ''m'' then c\<lparr>ch_moderated := on\<rparr>
      else c)"

definition flag_is_set :: "char \<Rightarrow> chn \<Rightarrow> bool" where
  "flag_is_set ch c =
     (if ch = CHR ''i'' then ch_invite_only c
      else if ch = CHR ''n'' then ch_nomsg c
      else if ch = CHR ''p'' then ch_private c
      else if ch = CHR ''s'' then ch_secret c
      else if ch = CHR ''t'' then ch_op_topic c
      else if ch = CHR ''m'' then ch_moderated c
      else False)"

definition set_channel_key :: "string \<Rightarrow> chn \<Rightarrow> chn" where
  "set_channel_key key c = c\<lparr>ch_chan_key := (let k = norm_nick key in if k = [] then None else Some k)\<rparr>"

definition push_mask :: "string \<Rightarrow> string list \<Rightarrow> string list" where
  "push_mask msk ms = (let m = norm_nick msk in if m \<in> set ms then ms else ms @ [m])"

definition retain_not :: "string \<Rightarrow> string list \<Rightarrow> bool \<times> string list" where
  "retain_not msk ms =
     (let ms' = filter (\<lambda>b. b \<noteq> norm_nick msk) ms in (length ms' < length ms, ms'))"

definition add_ban :: "string \<Rightarrow> chn \<Rightarrow> chn" where
  "add_ban msk c = c\<lparr>ch_bans := push_mask msk (ch_bans c)\<rparr>"

definition remove_ban :: "string \<Rightarrow> chn \<Rightarrow> bool \<times> chn" where
  "remove_ban msk c = (case retain_not msk (ch_bans c) of (r, ms) \<Rightarrow> (r, c\<lparr>ch_bans := ms\<rparr>))"

definition add_except :: "string \<Rightarrow> chn \<Rightarrow> chn" where
  "add_except msk c = c\<lparr>ch_excepts := push_mask msk (ch_excepts c)\<rparr>"

definition remove_except :: "string \<Rightarrow> chn \<Rightarrow> bool \<times> chn" where
  "remove_except msk c = (case retain_not msk (ch_excepts c) of (r, ms) \<Rightarrow> (r, c\<lparr>ch_excepts := ms\<rparr>))"

definition except_match :: "chn \<Rightarrow> cx \<Rightarrow> bool" where
  "except_match c target = list_ex (matches_ban target) (ch_excepts c)"

definition add_invex :: "string \<Rightarrow> chn \<Rightarrow> chn" where
  "add_invex msk c = c\<lparr>ch_invex := push_mask msk (ch_invex c)\<rparr>"

definition remove_invex :: "string \<Rightarrow> chn \<Rightarrow> bool \<times> chn" where
  "remove_invex msk c = (case retain_not msk (ch_invex c) of (r, ms) \<Rightarrow> (r, c\<lparr>ch_invex := ms\<rparr>))"

definition invex_match :: "chn \<Rightarrow> cx \<Rightarrow> bool" where
  "invex_match c target = list_ex (matches_ban target) (ch_invex c)"

definition chn_invite :: "nat \<Rightarrow> chn \<Rightarrow> chn" where
  "chn_invite i c = c\<lparr>ch_invites := insert i (ch_invites c)\<rparr>"

definition invited :: "chn \<Rightarrow> nat \<Rightarrow> bool" where
  "invited c i \<longleftrightarrow> i \<in> ch_invites c"

definition consume_invite :: "nat \<Rightarrow> chn \<Rightarrow> chn" where
  "consume_invite i c = c\<lparr>ch_invites := ch_invites c - {i}\<rparr>"

definition mode_string :: "chn \<Rightarrow> string" where
  "mode_string c = ''+'' @ simple_flags c @ (if ch_chan_key c \<noteq> None then ''k'' else [])
     @ (if 0 < ch_key_limit c then ''l'' else []) @ concat (map fst (foreign_sorted c))"

definition grant :: "nat \<Rightarrow> bool \<Rightarrow> chn \<Rightarrow> chn" where
  "grant i op c = (if op then c\<lparr>ch_ops := insert i (ch_ops c)\<rparr> else c\<lparr>ch_voices := insert i (ch_voices c)\<rparr>)"

definition revoke_op :: "nat \<Rightarrow> chn \<Rightarrow> bool \<times> chn" where
  "revoke_op i c = (i \<in> ch_ops c, c\<lparr>ch_ops := ch_ops c - {i}\<rparr>)"

definition revoke_voice :: "nat \<Rightarrow> chn \<Rightarrow> bool \<times> chn" where
  "revoke_voice i c = (i \<in> ch_voices c, c\<lparr>ch_voices := ch_voices c - {i}\<rparr>)"

definition eject :: "nat \<Rightarrow> chn \<Rightarrow> bool option \<times> chn" where
  "eject i c = (if i \<notin> ch_members c then (None, c)
     else (Some (ch_ops c - {i} \<noteq> {}),
           c\<lparr>ch_members := ch_members c - {i}, ch_ops := ch_ops c - {i}, ch_voices := ch_voices c - {i}\<rparr>))"

definition admit_as_op :: "nat \<Rightarrow> chn \<Rightarrow> chn" where
  "admit_as_op i c = c\<lparr>ch_members := insert i (ch_members c), ch_ops := insert i (ch_ops c)\<rparr>"

definition admit_plain :: "nat \<Rightarrow> chn \<Rightarrow> chn" where
  "admit_plain i c = c\<lparr>ch_members := insert i (ch_members c)\<rparr>"

definition member_count :: "chn \<Rightarrow> nat" where
  "member_count c = card (ch_members c)"

end
