(* ===== verification/Bans.thy ===== *)
theory Bans
  imports Glob
begin

text \<open>
  The K-line store \<^verbatim>\<open>BanStore\<close> of \<^verbatim>\<open>src/bans.rs\<close>: address bans with an
  optional expiry, kept in insertion order, rewritten to a tab-separated file after every
  change. The clock is an argument; \<^verbatim>\<open>expiry\<close> keeps its 64 bits, and
  \<^verbatim>\<open>now + duration\<close> wraps as it does in a release build.
\<close>

section \<open>State\<close>

record ban =
  ban_mask :: string
  expiry :: u64
  setter :: string
  reason :: string

text \<open>The in-memory list, the configured path, and the contents of the file at that path.\<close>

record ban_store =
  ban_path :: "string option"
  bans :: "ban list"
  ban_file :: "string option"

text \<open>How the best-effort rewrite of the file ended: it could not be created, writing stopped
  after some bytes, or the whole text was written.\<close>

datatype write_outcome = Create_Failed | Write_Stopped nat | Written

section \<open>Operations\<close>

definition render_ban :: "ban \<Rightarrow> string" where
  "render_ban b = join_with [CHR 0x09]
     [ban_mask b, show_nat (unat (expiry b)), setter b, reason b]"

definition render_bans :: "ban list \<Rightarrow> string" where
  "render_bans bs = concat (map (\<lambda>b. render_ban b @ [CHR 0x0A]) bs)"

definition ban_persist :: "write_outcome \<Rightarrow> ban_store \<Rightarrow> ban_store" where
  "ban_persist w s = (case ban_path s of
     None \<Rightarrow> s
   | Some p \<Rightarrow> (case w of
       Create_Failed \<Rightarrow> s
     | Write_Stopped n \<Rightarrow> s\<lparr>ban_file := Some (take n (render_bans (bans s)))\<rparr>
     | Written \<Rightarrow> s\<lparr>ban_file := Some (render_bans (bans s))\<rparr>))"

definition parse_ban :: "string \<Rightarrow> ban option" where
  "parse_ban l = (case split_on (CHR 0x09) l of
     m # e # s # r # _ \<Rightarrow>
       (if m \<noteq> [] then Some \<lparr>ban_mask = m, expiry = word_of_nat (opt_default 0 (parse_u64 e)),
                               setter = s, reason = r\<rparr>
        else None)
   | _ \<Rightarrow> None)"

definition ban_load :: "string option \<Rightarrow> string option \<Rightarrow> ban_store" where
  "ban_load path contents =
     \<lparr>ban_path = path,
      bans = (case (path, contents) of
                (Some _, Some c) \<Rightarrow> List.map_filter parse_ban (rust_lines c)
              | _ \<Rightarrow> []),
      ban_file = contents\<rparr>"

definition ban_live :: "u64 \<Rightarrow> ban \<Rightarrow> bool" where
  "ban_live now b \<longleftrightarrow> expiry b = 0 \<or> expiry b > now"

definition ban_expire :: "u64 \<Rightarrow> ban_store \<Rightarrow> ban_store" where
  "ban_expire now s = s\<lparr>bans := filter (ban_live now) (bans s)\<rparr>"

definition ban_matching :: "u64 \<Rightarrow> string \<Rightarrow> ban_store \<Rightarrow> ban option \<times> ban_store" where
  "ban_matching now addr s =
     (let s' = ban_expire now s
      in (List.find (\<lambda>b. glob_match (ban_mask b) addr) (bans s'), s'))"

definition ban_add ::
    "u64 \<Rightarrow> write_outcome \<Rightarrow> string \<Rightarrow> u64 \<Rightarrow> string \<Rightarrow> string \<Rightarrow> ban_store \<Rightarrow> ban_store" where
  "ban_add now w msk duration_secs who why s =
     (if msk = [] then s
      else
        let kept = filter (\<lambda>b. ban_mask b \<noteq> msk) (bans s);
            fresh = \<lparr>ban_mask = msk,
                     expiry = (if duration_secs = 0 then 0 else now + duration_secs),
                     setter = who, reason = why\<rparr>
        in ban_persist w (s\<lparr>bans := kept @ [fresh]\<rparr>))"

definition ban_remove :: "write_outcome \<Rightarrow> string \<Rightarrow> ban_store \<Rightarrow> bool \<times> ban_store" where
  "ban_remove w msk s =
     (let before = length (bans s);
          s' = s\<lparr>bans := filter (\<lambda>b. ban_mask b \<noteq> msk) (bans s)\<rparr>;
          removed = (length (bans s') \<noteq> before)
      in (removed, if removed then ban_persist w s' else s'))"

definition ban_count :: "ban_store \<Rightarrow> nat" where
  "ban_count s = length (bans s)"

section \<open>What the operations keep\<close>

definition ban_inv :: "ban_store \<Rightarrow> bool" where
  "ban_inv s \<longleftrightarrow> distinct (map ban_mask (bans s)) \<and> [] \<notin> ban_mask ` set (bans s)"

lemma bans_persist [simp]: "bans (ban_persist w s) = bans s" "ban_path (ban_persist w s) = ban_path s"
  by (simp_all add: ban_persist_def split: option.splits write_outcome.splits)

lemma ban_inv_filter: "ban_inv s \<Longrightarrow> ban_inv (s\<lparr>bans := filter P (bans s)\<rparr>)"
  by (auto simp: ban_inv_def distinct_map inj_on_def)

lemma ban_inv_persist [simp]: "ban_inv (ban_persist w s) = ban_inv s"
  by (simp add: ban_inv_def)

lemma ban_inv_add: "ban_inv s \<Longrightarrow> ban_inv (ban_add now w msk d who why s)"
  by (auto simp: ban_add_def Let_def ban_inv_def distinct_map inj_on_def)

lemma ban_inv_remove: "ban_inv s \<Longrightarrow> ban_inv (snd (ban_remove w msk s))"
  using ban_inv_filter [of s "\<lambda>b. ban_mask b \<noteq> msk"] by (simp add: ban_remove_def Let_def)

lemma ban_inv_matching: "ban_inv s \<Longrightarrow> ban_inv (snd (ban_matching now addr s))"
  using ban_inv_filter [of s "ban_live now"] by (simp add: ban_matching_def ban_expire_def)

text \<open>A hit is a live ban of the store whose mask matches; there is a hit whenever there is such a ban.\<close>

lemma ban_matching_Some:
  "fst (ban_matching now addr s) = Some b \<Longrightarrow>
     b \<in> set (bans s) \<and> ban_live now b \<and> glob_match (ban_mask b) addr"
  by (auto simp: ban_matching_def ban_expire_def Let_def dest!: find_SomeD)

lemma ban_matching_None:
  "fst (ban_matching now addr s) = None \<longleftrightarrow>
     (\<forall>b \<in> set (bans s). ban_live now b \<longrightarrow> \<not> glob_match (ban_mask b) addr)"
  by (auto simp: ban_matching_def ban_expire_def Let_def find_None_iff)

lemma bans_add:
  "msk \<noteq> [] \<Longrightarrow> bans (ban_add now w msk d who why s) =
     filter (\<lambda>b. ban_mask b \<noteq> msk) (bans s) @
       [\<lparr>ban_mask = msk, expiry = (if d = 0 then 0 else now + d), setter = who, reason = why\<rparr>]"
  by (simp add: ban_add_def Let_def)

lemma filter_length_eq: "length (filter P xs) = length xs \<longleftrightarrow> list_all P xs"
  by (metis filter_True length_filter_less list_all_iff nat_neq_iff)

lemma ban_remove_result: "fst (ban_remove w msk s) \<longleftrightarrow> msk \<in> ban_mask ` set (bans s)"
  by (auto simp: ban_remove_def Let_def filter_length_eq list_all_iff)

lemma ban_remove_gone: "msk \<notin> ban_mask ` set (bans (snd (ban_remove w msk s)))"
  by (auto simp: ban_remove_def Let_def)

section \<open>The file format\<close>

definition field_ok :: "string \<Rightarrow> bool" where
  "field_ok f \<longleftrightarrow> CHR 0x09 \<notin> set f \<and> CHR 0x0A \<notin> set f"

definition ban_ok :: "ban \<Rightarrow> bool" where
  "ban_ok b \<longleftrightarrow> ban_mask b \<noteq> [] \<and> field_ok (ban_mask b) \<and> field_ok (setter b)
     \<and> field_ok (reason b) \<and> (reason b = [] \<or> last (reason b) \<noteq> CHR 0x0D)"

lemma field_ok_show_nat: "field_ok (show_nat n)"
  by (simp add: field_ok_def show_nat_no is_digit_def)

lemma parse_render_ban:
  assumes "ban_ok b"
  shows "parse_ban (render_ban b) = Some b"
proof -
  have "split_on (CHR 0x09) (render_ban b) = [ban_mask b, show_nat (unat (expiry b)), setter b, reason b]"
    unfolding render_ban_def using assms field_ok_show_nat
    by (intro split_join) (auto simp: ban_ok_def field_ok_def)
  moreover have "parse_u64 (show_nat (unat (expiry b))) = Some (unat (expiry b))"
    using unsigned_less [of "expiry b", where ?'a = nat] by (intro parse_show_nat) simp
  ultimately show ?thesis using assms by (simp add: parse_ban_def ban_ok_def)
qed

lemma render_ban_line:
  assumes "ban_ok b"
  shows "CHR 0x0A \<notin> set (render_ban b)" and "strip_cr (render_ban b) = render_ban b"
proof -
  show "CHR 0x0A \<notin> set (render_ban b)"
    using assms field_ok_show_nat [of "unat (expiry b)"] by (auto simp: render_ban_def ban_ok_def field_ok_def)
  have "last (render_ban b) = (if reason b = [] then CHR 0x09 else last (reason b))"
    by (simp add: render_ban_def)
  then show "strip_cr (render_ban b) = render_ban b"
    using assms by (auto simp: strip_cr_def ban_ok_def)
qed

lemma load_render_bans:
  assumes "list_all ban_ok bs"
  shows "bans (ban_load (Some p) (Some (render_bans bs))) = bs"
proof -
  have "rust_lines (concat (map (\<lambda>l. l @ [CHR 0x0A]) (map render_ban bs))) = map render_ban bs"
    by (rule rust_lines_terminated) (use assms render_ban_line in \<open>auto simp: list_all_iff\<close>)
  then have lines: "rust_lines (render_bans bs) = map render_ban bs"
    by (simp add: render_bans_def comp_def)
  have "List.map_filter parse_ban (map render_ban bs) = bs"
    using assms by (induction bs) (simp_all add: List.map_filter_def parse_render_ban)
  then show ?thesis by (simp add: ban_load_def lines)
qed

end
