(* ===== verification/Crypto.thy ===== *)
theory Crypto
  imports Prelude
begin

text \<open>
  \<^verbatim>\<open>src/crypto.rs\<close>: SHA-256, HMAC-SHA256, PBKDF2, the constant-time comparison, Base64
  and hexadecimal. Bytes and words keep their width (\<^typ>\<open>8 word\<close>, \<^typ>\<open>32 word\<close>,
  \<^typ>\<open>64 word\<close>), so \<^verbatim>\<open>wrapping_add\<close> is \<open>+\<close>.
\<close>

unbundle bit_operations_syntax

section \<open>Bytes and strings\<close>

definition as_bytes :: "string \<Rightarrow> u8 list" where
  "as_bytes s = map (\<lambda>c. word_of_nat (byte_val c)) s"

definition of_bytes :: "u8 list \<Rightarrow> string" where
  "of_bytes bs = map (\<lambda>b. char_of (unat b)) bs"

lemma of_bytes_as_bytes [simp]: "of_bytes (as_bytes s) = s"
proof -
  have "char_of (unat (word_of_nat (byte_val c) :: u8)) = c" for c :: char
    using byte_val_bound [of c] by (simp add: unat_of_nat)
  then show ?thesis by (simp add: as_bytes_def of_bytes_def map_idI)
qed

lemma as_bytes_inj: "as_bytes a = as_bytes b \<longleftrightarrow> a = b"
  by (metis of_bytes_as_bytes)

lemma length_as_bytes [simp]: "length (as_bytes s) = length s"
  by (simp add: as_bytes_def)

definition be_bytes32 :: "u32 \<Rightarrow> u8 list" where
  "be_bytes32 w = [ucast (drop_bit 24 w), ucast (drop_bit 16 w), ucast (drop_bit 8 w), ucast w]"

definition be_bytes64 :: "u64 \<Rightarrow> u8 list" where
  "be_bytes64 w = map (\<lambda>k. ucast (drop_bit k w)) [56, 48, 40, 32, 24, 16, 8, 0]"

definition from_be_bytes :: "u8 \<Rightarrow> u8 \<Rightarrow> u8 \<Rightarrow> u8 \<Rightarrow> u32" where
  "from_be_bytes a b c d =
     push_bit 24 (ucast a) OR push_bit 16 (ucast b) OR push_bit 8 (ucast c) OR ucast d"

section \<open>SHA-256\<close>

text \<open>The constants of the source, in decimal.\<close>

definition H0 :: "u32 list" where
  "H0 = [
    1779033703, 3144134277, 1013904242, 2773480762, 1359893119, 2600822924, 528734635, 1541459225]"

definition K_const :: "u32 list" where
  "K_const = [
    1116352408, 1899447441, 3049323471, 3921009573, 961987163, 1508970993, 2453635748, 2870763221,
    3624381080, 310598401, 607225278, 1426881987, 1925078388, 2162078206, 2614888103, 3248222580,
    3835390401, 4022224774, 264347078, 604807628, 770255983, 1249150122, 1555081692, 1996064986,
    2554220882, 2821834349, 2952996808, 3210313671, 3336571891, 3584528711, 113926993, 338241895,
    666307205, 773529912, 1294757372, 1396182291, 1695183700, 1986661051, 2177026350, 2456956037,
    2730485921, 2820302411, 3259730800, 3345764771, 3516065817, 3600352804, 4094571909, 275423344,
    430227734, 506948616, 659060556, 883997877, 958139571, 1322822218, 1537002063, 1747873779,
    1955562222, 2024104815, 2227730452, 2361852424, 2428436474, 2756734187, 3204031479, 3329325298]"

abbreviation SHA256_BLOCK :: nat where "SHA256_BLOCK \<equiv> 64"
abbreviation SHA256_OUT :: nat where "SHA256_OUT \<equiv> 32"

text \<open>\<^verbatim>\<open>while data.len() % SHA256_BLOCK != 56 { data.push(0) }\<close>\<close>

function pad_zeros :: "u8 list \<Rightarrow> u8 list" where
  "pad_zeros data = (if length data mod SHA256_BLOCK \<noteq> 56 then pad_zeros (data @ [0]) else data)"
  by pat_completeness auto
termination
  by (relation "measure (\<lambda>d. let r = length d mod 64 in if r \<le> 56 then 56 - r else 120 - r)")
    (auto simp: Let_def mod_Suc)

declare pad_zeros.simps [simp del]

definition sha_pad :: "u8 list \<Rightarrow> u8 list" where
  "sha_pad msg = pad_zeros (msg @ [0x80]) @ be_bytes64 (word_of_nat (length msg) * 8)"

fun chunks_exact :: "nat \<Rightarrow> 'a list \<Rightarrow> 'a list list" where
  "chunks_exact n xs =
     (if n = 0 \<or> length xs < n then [] else take n xs # chunks_exact n (drop n xs))"

declare chunks_exact.simps [simp del]

definition sha_block_words :: "u8 list \<Rightarrow> u32 list" where
  "sha_block_words block = map (\<lambda>i. from_be_bytes (block ! (i * 4)) (block ! (i * 4 + 1))
     (block ! (i * 4 + 2)) (block ! (i * 4 + 3))) [0..<16]"

definition sha_extend :: "u32 list \<Rightarrow> nat \<Rightarrow> u32 list" where
  "sha_extend w i =
     (let a = w ! (i - 15);
          s0 = word_rotr 7 a XOR word_rotr 18 a XOR drop_bit 3 a;
          b = w ! (i - 2);
          s1 = word_rotr 17 b XOR word_rotr 19 b XOR drop_bit 10 b
      in w @ [w ! (i - 16) + s0 + w ! (i - 7) + s1])"

definition sha_schedule :: "u8 list \<Rightarrow> u32 list" where
  "sha_schedule block = foldl sha_extend (sha_block_words block) [16..<64]"

type_synonym sha_state = "u32 \<times> u32 \<times> u32 \<times> u32 \<times> u32 \<times> u32 \<times> u32 \<times> u32"

fun sha_round :: "u32 list \<Rightarrow> sha_state \<Rightarrow> nat \<Rightarrow> sha_state" where
  "sha_round w (a, b, c, d, e, f, g, hh) i =
     (let s1 = word_rotr 6 e XOR word_rotr 11 e XOR word_rotr 25 e;
          ch = (e AND f) XOR (NOT e AND g);
          t1 = hh + s1 + ch + K_const ! i + w ! i;
          s0 = word_rotr 2 a XOR word_rotr 13 a XOR word_rotr 22 a;
          maj = (a AND b) XOR (a AND c) XOR (b AND c);
          t2 = s0 + maj
      in (t1 + t2, a, b, c, d + t1, e, f, g))"

fun sha_compress :: "sha_state \<Rightarrow> u8 list \<Rightarrow> sha_state" where
  "sha_compress (h0, h1, h2, h3, h4, h5, h6, h7) block =
     (case foldl (sha_round (sha_schedule block)) (h0, h1, h2, h3, h4, h5, h6, h7) [0..<64] of
        (a, b, c, d, e, f, g, hh) \<Rightarrow>
          (h0 + a, h1 + b, h2 + c, h3 + d, h4 + e, h5 + f, h6 + g, h7 + hh))"

definition sha_init :: sha_state where
  "sha_init = (H0 ! 0, H0 ! 1, H0 ! 2, H0 ! 3, H0 ! 4, H0 ! 5, H0 ! 6, H0 ! 7)"

fun sha_state_bytes :: "sha_state \<Rightarrow> u8 list" where
  "sha_state_bytes (a, b, c, d, e, f, g, hh) = concat (map be_bytes32 [a, b, c, d, e, f, g, hh])"

definition sha256 :: "u8 list \<Rightarrow> u8 list" where
  "sha256 msg = sha_state_bytes (foldl sha_compress sha_init (chunks_exact SHA256_BLOCK (sha_pad msg)))"

lemma length_pad_zeros: "length (pad_zeros data) mod 64 = 56"
  by (induction data rule: pad_zeros.induct) (subst pad_zeros.simps, simp)

text \<open>The padded message is a whole number of blocks, so \<^verbatim>\<open>chunks_exact\<close> drops nothing.\<close>

lemma sha_pad_blocks: "length (sha_pad msg) mod SHA256_BLOCK = 0"
  using length_pad_zeros [of "msg @ [0x80]"]
  by (simp add: sha_pad_def be_bytes64_def) presburger

lemma length_sha_state_bytes [simp]: "length (sha_state_bytes h) = SHA256_OUT"
  by (cases h rule: sha_state_bytes.cases) (simp add: be_bytes32_def)

lemma length_sha256 [simp]: "length (sha256 msg) = SHA256_OUT"
  by (simp add: sha256_def)

section \<open>HMAC and PBKDF2\<close>

definition xor_bytes :: "u8 list \<Rightarrow> u8 list \<Rightarrow> u8 list" where
  "xor_bytes xs ys = map2 (XOR) xs ys"

definition hmac_key :: "u8 list \<Rightarrow> u8 list" where
  "hmac_key key =
     (if length key > SHA256_BLOCK
      then sha256 key @ replicate (SHA256_BLOCK - SHA256_OUT) 0
      else key @ replicate (SHA256_BLOCK - length key) 0)"

definition hmac_sha256 :: "u8 list \<Rightarrow> u8 list \<Rightarrow> u8 list" where
  "hmac_sha256 key msg =
     (let k = hmac_key key;
          ipad = xor_bytes (replicate SHA256_BLOCK 0x36) k;
          opad = xor_bytes (replicate SHA256_BLOCK 0x5c) k;
          inner_hash = sha256 (ipad @ msg)
      in sha256 (opad @ inner_hash))"

text \<open>The inner loop \<^verbatim>\<open>for _ in 1..iters\<close> over the pair \<open>(u, t)\<close>.\<close>

fun pbkdf2_iterate :: "u8 list \<Rightarrow> nat \<Rightarrow> u8 list \<Rightarrow> u8 list \<Rightarrow> u8 list" where
  "pbkdf2_iterate pass 0 u t = t"
| "pbkdf2_iterate pass (Suc n) u t =
     (let u' = hmac_sha256 pass u in pbkdf2_iterate pass n u' (xor_bytes t u'))"

definition pbkdf2_block :: "u8 list \<Rightarrow> u8 list \<Rightarrow> u32 \<Rightarrow> u32 \<Rightarrow> u8 list" where
  "pbkdf2_block pass salt iters block_index =
     (let u = hmac_sha256 pass (salt @ be_bytes32 block_index)
      in pbkdf2_iterate pass (unat iters - 1) u u)"

lemma length_hmac_sha256 [simp]: "length (hmac_sha256 key msg) = SHA256_OUT"
  by (simp add: hmac_sha256_def Let_def)

lemma length_xor_bytes [simp]: "length (xor_bytes xs ys) = min (length xs) (length ys)"
  by (simp add: xor_bytes_def)

lemma length_pbkdf2_iterate:
  "length t = SHA256_OUT \<Longrightarrow> length (pbkdf2_iterate pass n u t) = SHA256_OUT"
  by (induction n arbitrary: u t) (simp_all add: Let_def)

lemma length_pbkdf2_block [simp]: "length (pbkdf2_block pass salt iters i) = SHA256_OUT"
  by (simp add: pbkdf2_block_def Let_def length_pbkdf2_iterate)

function pbkdf2_loop ::
    "u8 list \<Rightarrow> u8 list \<Rightarrow> u32 \<Rightarrow> nat \<Rightarrow> u8 list \<Rightarrow> u32 \<Rightarrow> u8 list" where
  "pbkdf2_loop pass salt iters dk_len out block_index =
     (if length out < dk_len
      then pbkdf2_loop pass salt iters dk_len
             (out @ pbkdf2_block pass salt iters block_index) (block_index + 1)
      else take dk_len out)"
  by pat_completeness auto
termination
  by (relation "measure (\<lambda>(pass, salt, iters, dk_len, out, i). dk_len - length out)") auto

declare pbkdf2_loop.simps [simp del]

definition pbkdf2_sha256 :: "u8 list \<Rightarrow> u8 list \<Rightarrow> u32 \<Rightarrow> nat \<Rightarrow> u8 list" where
  "pbkdf2_sha256 pass salt iters dk_len = pbkdf2_loop pass salt iters dk_len [] 1"

lemma length_pbkdf2_loop: "length (pbkdf2_loop pass salt iters dk_len out i) = dk_len"
  by (induction pass salt iters dk_len out i rule: pbkdf2_loop.induct)
    (subst pbkdf2_loop.simps, auto)

lemma length_pbkdf2_sha256 [simp]: "length (pbkdf2_sha256 pass salt iters dk_len) = dk_len"
  by (simp add: pbkdf2_sha256_def length_pbkdf2_loop)

section \<open>Constant-time comparison\<close>

definition constant_time_eq :: "u8 list \<Rightarrow> u8 list \<Rightarrow> bool" where
  "constant_time_eq a b =
     (if length a \<noteq> length b then False
      else foldl (\<lambda>diff i. diff OR (a ! i XOR b ! i)) 0 [0..<length a] = 0)"

lemma or_eq_zero: "(x :: u8) OR y = 0 \<longleftrightarrow> x = 0 \<and> y = 0"
  by (rule or_eq_0_iff)

lemma xor_eq_zero: "(x :: u8) XOR y = 0 \<longleftrightarrow> x = y"
  by (auto simp: bit_eq_iff bit_xor_iff)

lemma fold_diff_zero:
  "foldl (\<lambda>diff i. diff OR (a ! i XOR b ! i)) d is = (0 :: u8) \<longleftrightarrow>
     d = 0 \<and> (\<forall>i \<in> set is. a ! i = b ! i)"
  by (induction "is" arbitrary: d) (auto simp: or_eq_zero xor_eq_zero)

lemma constant_time_eq_iff: "constant_time_eq a b \<longleftrightarrow> a = b"
proof (cases "length a = length b")
  case True
  have "(\<forall>i \<in> set [0..<length a]. a ! i = b ! i) \<longleftrightarrow> a = b"
    using True by (auto intro: nth_equalityI)
  with True show ?thesis by (simp only: constant_time_eq_def fold_diff_zero) simp
next
  case False
  then show ?thesis by (auto simp: constant_time_eq_def)
qed

section \<open>Hexadecimal\<close>

definition HEXCHARS :: string where
  "HEXCHARS = ''0123456789abcdef''"

definition hex_byte :: "u8 \<Rightarrow> string" where
  "hex_byte b = [HEXCHARS ! unat (drop_bit 4 b), HEXCHARS ! unat (b AND 0xf)]"

definition hex :: "u8 list \<Rightarrow> string" where
  "hex data = concat (map hex_byte data)"

lemma length_hex [simp]: "length (hex data) = 2 * length data"
  by (induction data) (simp_all add: hex_def hex_byte_def)

end
