(* ===== verification/Base64.thy ===== *)
theory Base64
  imports Crypto
begin

text \<open>
  Base64 with the standard alphabet and padding (\<^verbatim>\<open>base64_encode\<close>, \<^verbatim>\<open>b64_val\<close>
  and \<^verbatim>\<open>base64_decode\<close> of \<^verbatim>\<open>src/crypto.rs\<close>), the codec contract, and
  that decoding inverts encoding on every byte string.
\<close>

unbundle bit_operations_syntax

section \<open>Encoding\<close>

definition B64 :: string where
  "B64 = ''ABCDEFGHIJKLMNOPQRSTUVWXYZabcdefghijklmnopqrstuvwxyz0123456789+/''"

definition b64_group :: "u8 \<Rightarrow> u8 \<Rightarrow> u8 \<Rightarrow> u32" where
  "b64_group b0 b1 b2 = push_bit 16 (ucast b0) OR push_bit 8 (ucast b1) OR ucast b2"

definition b64_digit :: "u32 \<Rightarrow> nat \<Rightarrow> char" where
  "b64_digit n k = B64 ! unat (drop_bit k n AND 63)"

fun base64_encode :: "u8 list \<Rightarrow> string" where
  "base64_encode [] = []"
| "base64_encode [b0] =
     (let n = b64_group b0 0 0 in [b64_digit n 18, b64_digit n 12, CHR ''='', CHR ''=''])"
| "base64_encode [b0, b1] =
     (let n = b64_group b0 b1 0
      in [b64_digit n 18, b64_digit n 12, b64_digit n 6, CHR ''=''])"
| "base64_encode (b0 # b1 # b2 # rest) =
     (let n = b64_group b0 b1 b2
      in b64_digit n 18 # b64_digit n 12 # b64_digit n 6 # b64_digit n 0 # base64_encode rest)"

section \<open>Decoding\<close>

definition b64_val :: "char \<Rightarrow> u8 option" where
  "b64_val c = (let v = byte_val c in
     if is_upper c then Some (word_of_nat (v - 65))
     else if is_lower c then Some (word_of_nat (v - 97 + 26))
     else if is_digit c then Some (word_of_nat (v - 48 + 52))
     else if c = CHR ''+'' then Some 62
     else if c = CHR ''/'' then Some 63
     else None)"

definition b64_shift :: "u32 \<Rightarrow> u8 \<Rightarrow> u32" where
  "b64_shift acc v = push_bit 6 acc OR ucast v"

definition b64_out :: "u32 \<Rightarrow> nat \<Rightarrow> u8" where
  "b64_out acc nbits = ucast (drop_bit nbits acc)"

fun b64_decode_loop :: "string \<Rightarrow> u32 \<Rightarrow> nat \<Rightarrow> u8 list \<Rightarrow> u8 list option" where
  "b64_decode_loop [] acc nbits out = Some out"
| "b64_decode_loop (c # cs) acc nbits out =
     (case b64_val c of
        None \<Rightarrow> None
      | Some v \<Rightarrow>
          (let acc' = b64_shift acc v; nbits' = nbits + 6
           in if nbits' \<ge> 8
              then b64_decode_loop cs acc' (nbits' - 8) (out @ [b64_out acc' (nbits' - 8)])
              else b64_decode_loop cs acc' nbits' out))"

definition b64_kept :: "char \<Rightarrow> bool" where
  "b64_kept b \<longleftrightarrow> b \<noteq> CHR ''='' \<and> \<not> is_ws b"

definition base64_decode :: "string \<Rightarrow> u8 list option" where
  "base64_decode s = b64_decode_loop (filter b64_kept s) 0 0 []"

section \<open>The alphabet\<close>

lemma B64_ranges:
  "B64 = map (\<lambda>i. char_of (65 + i)) [0..<26] @ map (\<lambda>i. char_of (97 + i)) [0..<26]
     @ map (\<lambda>i. char_of (48 + i)) [0..<10] @ ''+/''"
  by code_simp

lemma b64_kept_byte: "b64_kept c \<longleftrightarrow> byte_val c \<notin> {61, 32, 9, 10, 12, 13 :: nat}"
proof -
  have "c = CHR ''='' \<longleftrightarrow> byte_val c = (61 :: nat)"
    using of_char_eq_iff [where ?'a = nat, of c "CHR ''=''"] by simp
  then show ?thesis by (simp add: b64_kept_def is_ws_def)
qed

lemma b64_val_ranges:
  "i < 26 \<Longrightarrow> b64_val (char_of (65 + i)) = Some (word_of_nat i)"
  "i < 26 \<Longrightarrow> b64_val (char_of (97 + i)) = Some (word_of_nat (26 + i))"
  "i < 10 \<Longrightarrow> b64_val (char_of (48 + i)) = Some (word_of_nat (52 + i))"
  by (simp_all add: b64_val_def is_upper_def is_lower_def is_digit_def add.commute)

lemma b64_alphabet:
  assumes "i < 64"
  shows "b64_val (B64 ! i) = Some (word_of_nat i)" and "b64_kept (B64 ! i)"
proof -
  consider (up) "i < 26" | (low) "26 \<le> i" "i < 52" | (dig) "52 \<le> i" "i < 62" | (sp) "i = 62 \<or> i = 63"
    using assms by linarith
  then have "b64_val (B64 ! i) = Some (word_of_nat i) \<and> b64_kept (B64 ! i)"
  proof cases
    case up
    then have "B64 ! i = char_of (65 + i)" by (simp add: B64_ranges nth_append)
    with up show ?thesis by (simp add: b64_val_ranges b64_kept_byte)
  next
    case low
    then obtain j where j: "i = 26 + j" "j < 26" using le_Suc_ex by force
    then have "B64 ! i = char_of (97 + j)" by (simp add: B64_ranges nth_append)
    with j show ?thesis by (simp add: b64_val_ranges b64_kept_byte)
  next
    case dig
    then obtain j where j: "i = 52 + j" "j < 10" using le_Suc_ex by force
    then have "B64 ! i = char_of (48 + j)" by (simp add: B64_ranges nth_append)
    with j show ?thesis by (simp add: b64_val_ranges b64_kept_byte)
  next
    case sp
    then show ?thesis by (auto simp: B64_def b64_val_def b64_kept_byte char_class_defs)
  qed
  then show "b64_val (B64 ! i) = Some (word_of_nat i)" and "b64_kept (B64 ! i)" by simp_all
qed

lemma b64_digit_bound: "unat (x AND 63 :: u32) < 64"
proof -
  have "x AND 63 = take_bit 6 x" by (simp add: take_bit_eq_mask mask_eq_exp_minus_1)
  then have "unat (x AND 63) = take_bit 6 (unat x)" by (simp add: unsigned_take_bit_eq)
  then show ?thesis using take_bit_nat_less_exp [of 6 "unat x"] by simp
qed

lemma b64_digit_val: "b64_val (b64_digit n k) = Some (ucast (drop_bit k n AND 63))"
proof -
  have "b64_val (B64 ! unat (drop_bit k n AND 63)) = Some (word_of_nat (unat (drop_bit k n AND 63)))"
    using b64_alphabet(1) [OF b64_digit_bound] by blast
  then show ?thesis by (simp add: b64_digit_def)
qed

lemma b64_digit_kept [simp]: "b64_kept (b64_digit n k)"
  using b64_alphabet(2) [OF b64_digit_bound] by (simp add: b64_digit_def)

lemma b64_pad_dropped [simp]: "\<not> b64_kept (CHR ''='')"
  by (simp add: b64_kept_def)

lemma mask63: "(63 :: u32) = mask 6"
  by (simp add: mask_eq_exp_minus_1)

abbreviation sextet :: "u32 \<Rightarrow> nat \<Rightarrow> u8" where
  "sextet n k \<equiv> ucast (drop_bit k n AND 63)"

lemma bit_sextet: "bit (ucast (sextet n k) :: u32) i \<longleftrightarrow> i < 6 \<and> bit n (k + i)"
  by (auto simp: mask63 bit_simps dest: bit_imp_le_length)

section \<open>One group\<close>

text \<open>Each output byte depends on the last two digits only, whatever the accumulator held.\<close>

lemma b64_byte:
  assumes "d \<le> 4"
  shows "b64_out (b64_shift (b64_shift acc (sextet n (k + 6))) (sextet n k)) d =
     ucast (drop_bit (k + d) n)"
proof (rule bit_word_eqI)
  fix i :: nat
  assume "i < LENGTH(8)"
  then have i: "i < 8" by simp
  have "bit (b64_out (b64_shift (b64_shift acc (sextet n (k + 6))) (sextet n k)) d) i \<longleftrightarrow>
    (6 \<le> d + i \<and> bit (ucast (sextet n (k + 6)) :: u32) (d + i - 6)) \<or>
    bit (ucast (sextet n k) :: u32) (d + i)"
    using i assms unfolding b64_out_def b64_shift_def
    by (simp add: bit_unsigned_iff bit_drop_bit_eq bit_or_iff bit_push_bit_iff)
  also have "\<dots> \<longleftrightarrow> bit n (k + d + i)"
  proof (cases "d + i < 6")
    case True
    then show ?thesis by (simp add: bit_sextet add.assoc)
  next
    case False
    with i assms have "d + i - 6 < 6" "k + 6 + (d + i - 6) = k + d + i" by simp_all
    with False show ?thesis by (simp only: bit_sextet) simp
  qed
  also have "\<dots> \<longleftrightarrow> bit (ucast (drop_bit (k + d) n) :: u8) i"
    using i by (simp add: bit_unsigned_iff bit_drop_bit_eq)
  finally show "bit (b64_out (b64_shift (b64_shift acc (sextet n (k + 6))) (sextet n k)) d) i
    \<longleftrightarrow> bit (ucast (drop_bit (k + d) n) :: u8) i" .
qed

lemma b64_group_bytes:
  "ucast (drop_bit 16 (b64_group b0 b1 b2)) = b0"
  "ucast (drop_bit 8 (b64_group b0 b1 b2)) = b1"
  "ucast (b64_group b0 b1 b2) = b2"
  by (rule bit_word_eqI, auto simp: b64_group_def bit_simps dest: bit_imp_le_length)+

lemma b64_bytes:
  "b64_out (b64_shift (b64_shift acc (sextet n 18)) (sextet n 12)) 4 = ucast (drop_bit 16 n)"
  "b64_out (b64_shift (b64_shift acc (sextet n 12)) (sextet n 6)) 2 = ucast (drop_bit 8 n)"
  "b64_out (b64_shift (b64_shift acc (sextet n 6)) (ucast (n AND 63))) 0 = ucast n"
  using b64_byte [where d = 4 and k = 12 and n = n and acc = acc]
    b64_byte [where d = 2 and k = 6 and n = n and acc = acc]
    b64_byte [where d = 0 and k = 0 and n = n and acc = acc] by simp_all

lemma b64_decode_encode:
  "b64_decode_loop (filter b64_kept (base64_encode d)) acc 0 out = Some (out @ d)"
proof (induction d arbitrary: acc out rule: base64_encode.induct)
  case 1
  then show ?case by simp
next
  case (2 b0)
  then show ?case
    by (simp add: Let_def b64_digit_val b64_bytes b64_group_bytes)
next
  case (3 b0 b1)
  then show ?case
    by (simp add: Let_def b64_digit_val b64_bytes b64_group_bytes)
next
  case (4 b0 b1 b2 rest)
  then show ?case
    by (simp add: Let_def b64_digit_val b64_bytes b64_group_bytes)
qed

lemma base64_roundtrip: "base64_decode (base64_encode d) = Some d"
  by (simp add: base64_decode_def b64_decode_encode)

lemma base64_encode_chars: "c \<in> set (base64_encode d) \<Longrightarrow> c = CHR ''='' \<or> b64_kept c"
  by (induction d rule: base64_encode.induct) (auto simp: Let_def)

lemma base64_encode_no_ws: "c \<in> set (base64_encode d) \<Longrightarrow> \<not> is_ws c"
  using base64_encode_chars [of c d] by (auto simp: b64_kept_def is_ws_def)

section \<open>The contract of a field codec\<close>

text \<open>
  What the stores need of the codec of a field: decoding inverts encoding, and the encoded
  form holds no white space, so that it can stand in a tab-separated line.
\<close>

locale field_codec =
  fixes enc :: "'a \<Rightarrow> string" and dec :: "string \<Rightarrow> 'a option"
  assumes dec_enc: "dec (enc x) = Some x"
    and enc_no_ws: "c \<in> set (enc x) \<Longrightarrow> \<not> is_ws c"
begin

lemma enc_inj: "enc x = enc y \<longleftrightarrow> x = y"
  by (metis dec_enc option.inject)

lemma enc_no_tab: "CHR 0x09 \<notin> set (enc x)"
  using enc_no_ws by (force simp: is_ws_def)

lemma enc_no_newline: "CHR 0x0A \<notin> set (enc x)"
  using enc_no_ws by (force simp: is_ws_def)

text \<open>Encoded fields in a tab-separated line come back as they were written.\<close>

lemma split_fields:
  assumes "fs \<noteq> []"
  shows "map dec (split_on (CHR 0x09) (join_with [CHR 0x09] (map enc fs))) = map Some fs"
proof -
  have "split_on (CHR 0x09) (join_with [CHR 0x09] (map enc fs)) = map enc fs"
    by (rule split_join) (use assms enc_no_tab in auto)
  then show ?thesis by (simp add: dec_enc)
qed

end

interpretation b64: field_codec base64_encode base64_decode
  by unfold_locales (simp_all add: base64_roundtrip base64_encode_no_ws)

end
