(* ===== verification/Chanreg.thy ===== *)
theory Chanreg
  imports Casemap Base64 Bans
begin

text \<open>
  The ChanServ store \<^verbatim>\<open>ChannelRegistry\<close> of \<^verbatim>\<open>src/channels.rs\<close>: founder and
  topic of every registered channel, keyed by the folded channel name and rewritten atomically
  (temporary file, then rename) after every change. \<open>folded_registry\<close> is the contract that
  this store and the account store share.
\<close>

section \<open>The contract of a case-folded registry\<close>

text \<open>
  \<open>find\<close> looks a name up, \<open>enroll\<close> registers a name (and fails with \<^const>\<open>None\<close>),
  \<open>val\<close> is the record a successful registration stores.
\<close>

locale folded_registry =
  fixes find :: "'s \<Rightarrow> string \<Rightarrow> 'v option"
    and enroll :: "string \<Rightarrow> 'a \<Rightarrow> 's \<Rightarrow> 's option"
    and val :: "string \<Rightarrow> 'a \<Rightarrow> 'v"
  assumes find_fold: "norm_nick m = norm_nick n \<Longrightarrow> find s m = find s n"
    and enroll_taken: "find s n \<noteq> None \<Longrightarrow> enroll n a s = None"
    and enroll_find: "enroll n a s = Some s' \<Longrightarrow>
       find s' m = (if norm_nick m = norm_nick n then Some (val n a) else find s m)"
begin

lemma enroll_once:
  assumes "enroll n a s = Some s'" and "norm_nick m = norm_nick n"
  shows "enroll m b s' = None"
  using enroll_find [OF assms(1), of m] assms(2) by (auto intro: enroll_taken)

lemma enroll_keeps:
  assumes "find s m = Some v" and "enroll n a s = Some s'"
  shows "find s' m = Some v"
proof (cases "norm_nick m = norm_nick n")
  case True
  then have "find s n = Some v" using assms(1) find_fold [of m n s] by simp
  then have "enroll n a s = None" by (intro enroll_taken) simp
  then show ?thesis using assms(2) by simp
next
  case False
  then show ?thesis using assms enroll_find by simp
qed

text \<open>Attempts to register, in order; a refused attempt changes nothing.\<close>

fun enroll_all :: "(string \<times> 'a) list \<Rightarrow> 's \<Rightarrow> 's" where
  "enroll_all [] s = s"
| "enroll_all ((n, a) # xs) s =
     enroll_all xs (case enroll n a s of Some s' \<Rightarrow> s' | None \<Rightarrow> s)"

text \<open>First come, first served: no later attempt changes what a name is registered as.\<close>

lemma enroll_all_keeps: "find s m = Some v \<Longrightarrow> find (enroll_all xs s) m = Some v"
proof (induction xs s rule: enroll_all.induct)
  case (1 s)
  then show ?case by simp
next
  case (2 n a xs s)
  show ?case
  proof (cases "enroll n a s")
    case None
    with 2 show ?thesis by simp
  next
    case (Some s')
    with enroll_keeps [OF "2.prems" Some] "2.IH" show ?thesis by simp
  qed
qed

end

section \<open>State\<close>

record chan_reg =
  reg_display :: string
  founder_display :: string
  reg_topic :: string

record chan_registry =
  reg_path :: "string option"
  reg_map :: "(string, chan_reg) hmap"
  reg_file :: "string option"

section \<open>Operations\<close>

definition encode_topic :: "string \<Rightarrow> string" where
  "encode_topic t = base64_encode (as_bytes t)"

definition decode_topic :: "string \<Rightarrow> string option" where
  "decode_topic f = (case base64_decode f of
     None \<Rightarrow> None
   | Some bs \<Rightarrow> (if is_utf8 (of_bytes bs) then Some (of_bytes bs) else None))"

definition parse_reg_line :: "string \<Rightarrow> (string \<times> chan_reg) option" where
  "parse_reg_line l = (case split_on (CHR 0x09) l of
     stored # display # founder # t # _ \<Rightarrow>
       (case decode_topic t of
          None \<Rightarrow> None
        | Some topic \<Rightarrow>
            if stored = [] \<or> display = [] \<or> founder = [] then None
            else Some (norm_nick display,
                   \<lparr>reg_display = display, founder_display = founder, reg_topic = topic\<rparr>))
   | _ \<Rightarrow> None)"

definition reg_load :: "string option \<Rightarrow> string option \<Rightarrow> chan_registry" where
  "reg_load path contents =
     \<lparr>reg_path = path,
      reg_map = (case (path, contents) of
          (Some _, Some c) \<Rightarrow>
            foldl (\<lambda>m l. case parse_reg_line l of Some (k, r) \<Rightarrow> hm_insert k r m | None \<Rightarrow> m)
              [] (rust_lines c)
        | _ \<Rightarrow> []),
      reg_file = contents\<rparr>"

definition render_reg :: "string \<times> chan_reg \<Rightarrow> string" where
  "render_reg e = (case e of (k, r) \<Rightarrow>
     join_with [CHR 0x09] [k, reg_display r, founder_display r, encode_topic (reg_topic r)])"

definition reg_save :: "bool \<Rightarrow> chan_registry \<Rightarrow> chan_registry" where
  "reg_save ok s = (case reg_path s of
     None \<Rightarrow> s
   | Some _ \<Rightarrow>
      (if ok then s\<lparr>reg_file := Some (concat (map (\<lambda>e. render_reg e @ [CHR 0x0A]) (reg_map s)))\<rparr>
       else s))"

definition is_registered :: "chan_registry \<Rightarrow> string \<Rightarrow> bool" where
  "is_registered s chan_key = hm_contains (reg_map s) (norm_nick chan_key)"

definition reg_get :: "chan_registry \<Rightarrow> string \<Rightarrow> chan_reg option" where
  "reg_get s chan_key = hm_get (reg_map s) (norm_nick chan_key)"

definition reg_count :: "chan_registry \<Rightarrow> nat" where
  "reg_count s = length (reg_map s)"

definition is_founder :: "chan_registry \<Rightarrow> string \<Rightarrow> string \<Rightarrow> bool" where
  "is_founder s chan_key account = (case hm_get (reg_map s) (norm_nick chan_key) of
     Some r \<Rightarrow> norm_nick (founder_display r) = norm_nick account
   | None \<Rightarrow> False)"

definition reg_register ::
    "bool \<Rightarrow> string \<Rightarrow> string \<Rightarrow> string \<Rightarrow> chan_registry \<Rightarrow> string + chan_registry" where
  "reg_register ok chan_key display founder s =
     (let key = norm_nick chan_key
      in if hm_contains (reg_map s) key then Inl ''channel already registered''
         else Inr (reg_save ok (s\<lparr>reg_map := hm_insert key
                \<lparr>reg_display = display, founder_display = founder, reg_topic = []\<rparr> (reg_map s)\<rparr>)))"

definition drop_channel :: "bool \<Rightarrow> string \<Rightarrow> chan_registry \<Rightarrow> bool \<times> chan_registry" where
  "drop_channel ok chan_key s =
     (let removed = hm_contains (reg_map s) (norm_nick chan_key);
          s' = s\<lparr>reg_map := hm_remove (norm_nick chan_key) (reg_map s)\<rparr>
      in (removed, if removed then reg_save ok s' else s'))"

definition reg_set_topic :: "bool \<Rightarrow> string \<Rightarrow> string \<Rightarrow> chan_registry \<Rightarrow> chan_registry" where
  "reg_set_topic ok chan_key topic s =
     (case hm_get (reg_map s) (norm_nick chan_key) of
        Some r \<Rightarrow> reg_save ok (s\<lparr>reg_map := hm_insert (norm_nick chan_key)
                     (r\<lparr>reg_topic := topic\<rparr>) (reg_map s)\<rparr>)
      | None \<Rightarrow> s)"

section \<open>Lookups after each operation\<close>

lemma reg_map_save [simp]: "reg_map (reg_save ok s) = reg_map s" "reg_path (reg_save ok s) = reg_path s"
  by (simp_all add: reg_save_def split: option.splits)

lemma reg_get_save [simp]: "reg_get (reg_save ok s) c = reg_get s c"
  by (simp add: reg_get_def)

lemma is_registered_get: "is_registered s c \<longleftrightarrow> reg_get s c \<noteq> None"
  by (simp add: is_registered_def reg_get_def hm_contains_get)

lemma reg_get_register:
  assumes "reg_register ok chan display founder s = Inr s'"
  shows "reg_get s' c = (if norm_nick c = norm_nick chan
     then Some \<lparr>reg_display = display, founder_display = founder, reg_topic = []\<rparr> else reg_get s c)"
  using assms by (auto simp: reg_register_def Let_def reg_get_def hm_simps split: if_splits)

lemma reg_get_drop:
  "reg_get (snd (drop_channel ok chan s)) c =
     (if norm_nick c = norm_nick chan then None else reg_get s c)"
  by (auto simp: drop_channel_def Let_def reg_get_def hm_simps)

lemma reg_get_set_topic:
  "reg_get (reg_set_topic ok chan topic s) c =
     (if norm_nick c = norm_nick chan
      then map_option (\<lambda>r. r\<lparr>reg_topic := topic\<rparr>) (reg_get s c) else reg_get s c)"
  by (auto simp: reg_set_topic_def reg_get_def hm_simps split: option.splits)

interpretation chanreg: folded_registry reg_get
  "\<lambda>chan (ok, display, founder) s. case reg_register ok chan display founder s of
     Inl _ \<Rightarrow> None | Inr s' \<Rightarrow> Some s'"
  "\<lambda>chan (ok, display, founder).
     \<lparr>reg_display = display, founder_display = founder, reg_topic = []\<rparr>"
proof unfold_locales
  show "norm_nick m = norm_nick n \<Longrightarrow> reg_get s m = reg_get s n" for m n s
    by (simp add: reg_get_def)
next
  fix s n and a :: "bool \<times> string \<times> string"
  assume "reg_get s n \<noteq> None"
  then show "(case a of (ok, display, founder) \<Rightarrow> \<lambda>s. case reg_register ok n display founder s of
     Inl _ \<Rightarrow> None | Inr s' \<Rightarrow> Some s') s = None"
    by (cases a) (simp add: reg_register_def Let_def reg_get_def hm_contains_get)
next
  fix s n m s' and a :: "bool \<times> string \<times> string"
  assume "(case a of (ok, display, founder) \<Rightarrow> \<lambda>s. case reg_register ok n display founder s of
     Inl _ \<Rightarrow> None | Inr s' \<Rightarrow> Some s') s = Some s'"
  then show "reg_get s' m = (if norm_nick m = norm_nick n then
      Some (case a of (ok, display, founder) \<Rightarrow>
        \<lparr>reg_display = display, founder_display = founder, reg_topic = []\<rparr>) else reg_get s m)"
    by (cases a) (auto split: sum.splits simp: reg_get_register)
qed

section \<open>The file\<close>

text \<open>What the callers keep of an entry: the key is the fold of the display name, the names are
  separator-free and the topic is text.\<close>

definition reg_entry_ok :: "string \<times> chan_reg \<Rightarrow> bool" where
  "reg_entry_ok e \<longleftrightarrow> (case e of (k, r) \<Rightarrow> k = norm_nick (reg_display r) \<and> reg_display r \<noteq> []
     \<and> founder_display r \<noteq> [] \<and> field_ok (reg_display r) \<and> field_ok (founder_display r)
     \<and> is_utf8 (reg_topic r))"

definition reg_inv :: "chan_registry \<Rightarrow> bool" where
  "reg_inv s \<longleftrightarrow> hm_wf (reg_map s) \<and> list_all reg_entry_ok (reg_map s)"

text \<open>Text topics are a field codec, by the Base64 one.\<close>

lemma decode_encode_topic: "is_utf8 t \<Longrightarrow> decode_topic (encode_topic t) = Some t"
  by (simp add: encode_topic_def decode_topic_def b64.dec_enc)

lemma field_ok_norm_nick: "field_ok f \<Longrightarrow> field_ok (norm_nick f)"
  by (simp add: field_ok_def norm_nick_control)

lemma encode_topic_field: "field_ok (encode_topic t)"
  using b64.enc_no_tab b64.enc_no_newline by (simp add: field_ok_def encode_topic_def)

lemma parse_render_reg:
  assumes "reg_entry_ok e"
  shows "parse_reg_line (render_reg e) = Some e"
proof -
  obtain k r where e: "e = (k, r)" by (cases e)
  have "split_on (CHR 0x09) (render_reg e) =
      [k, reg_display r, founder_display r, encode_topic (reg_topic r)]"
    unfolding render_reg_def e prod.case
    by (rule split_join) (use assms encode_topic_field field_ok_norm_nick in
        \<open>auto simp: e reg_entry_ok_def field_ok_def norm_nick_control\<close>)
  then show ?thesis
    using assms by (simp add: parse_reg_line_def e reg_entry_ok_def decode_encode_topic)
qed

lemma render_reg_line:
  assumes "reg_entry_ok e"
  shows "CHR 0x0A \<notin> set (render_reg e)" and "strip_cr (render_reg e) = render_reg e"
proof -
  obtain k r where e: "e = (k, r)" by (cases e)
  have topic: "c \<in> set (encode_topic (reg_topic r)) \<Longrightarrow> \<not> is_ws c" for c
    by (simp add: encode_topic_def b64.enc_no_ws)
  show "CHR 0x0A \<notin> set (render_reg e)"
    using assms encode_topic_field [of "reg_topic r"]
    by (auto simp: e render_reg_def reg_entry_ok_def field_ok_def norm_nick_control)
  have "last (render_reg e) = (if encode_topic (reg_topic r) = [] then CHR 0x09
      else last (encode_topic (reg_topic r)))"
    by (simp add: e render_reg_def)
  moreover have "encode_topic (reg_topic r) \<noteq> [] \<Longrightarrow> last (encode_topic (reg_topic r)) \<noteq> CHR 0x0D"
    using topic [OF last_in_set] by (force simp: is_ws_def)
  ultimately show "strip_cr (render_reg e) = render_reg e" by (auto simp: strip_cr_def)
qed

lemma insert_all_get:
  "distinct (map fst es) \<Longrightarrow> hm_get (foldl (\<lambda>m (k, r). hm_insert k r m) m0 es) k =
     (case map_of es k of Some r \<Rightarrow> Some r | None \<Rightarrow> hm_get m0 k)"
proof (induction es arbitrary: m0)
  case Nil
  then show ?case by simp
next
  case (Cons e es)
  obtain k' r' where e: "e = (k', r')" by (cases e)
  with Cons.prems have "map_of es k' = None" and "distinct (map fst es)"
    by (simp_all add: map_of_eq_None_iff)
  with Cons.IH [of "hm_insert k' r' m0"] e show ?case
    by (auto simp: hm_simps split: option.splits)
qed

lemma foldl_parse_lines:
  "list_all (\<lambda>e. parse_reg_line (f e) = Some e) es \<Longrightarrow>
     foldl (\<lambda>m l. case parse_reg_line l of Some (k, r) \<Rightarrow> hm_insert k r m | None \<Rightarrow> m) m0 (map f es)
       = foldl (\<lambda>m (k, r). hm_insert k r m) m0 es"
  by (induction es arbitrary: m0) (auto split: prod.splits)

text \<open>A restart after a successful save finds every channel, founder and topic again.\<close>

lemma reg_load_save:
  assumes "reg_inv s" and "reg_path s = Some p" and "reg_file (reg_save True s) = Some c"
  shows "reg_get (reg_load (Some p) (Some c)) n = reg_get s n"
proof -
  have ok: "list_all reg_entry_ok (reg_map s)" and wf: "distinct (map fst (reg_map s))"
    using assms(1) by (simp_all add: reg_inv_def hm_wf_def)
  have c: "c = concat (map (\<lambda>l. l @ [CHR 0x0A]) (map render_reg (reg_map s)))"
    using assms(2,3) by (simp add: reg_save_def comp_def)
  have "rust_lines c = map render_reg (reg_map s)"
    unfolding c by (rule rust_lines_terminated) (use ok render_reg_line in \<open>auto simp: list_all_iff\<close>)
  moreover have "list_all (\<lambda>e. parse_reg_line (render_reg e) = Some e) (reg_map s)"
    using ok parse_render_reg by (auto simp: list_all_iff)
  ultimately have "reg_map (reg_load (Some p) (Some c)) =
      foldl (\<lambda>m (k, r). hm_insert k r m) [] (reg_map s)"
    by (simp add: reg_load_def foldl_parse_lines)
  then show ?thesis
    using insert_all_get [OF wf, of "[]"] by (simp add: reg_get_def split: option.splits)
qed

section \<open>Preservation\<close>

lemma reg_inv_save [simp]: "reg_inv (reg_save ok s) = reg_inv s"
  by (simp add: reg_inv_def)

lemma list_all_insert:
  "list_all P m \<Longrightarrow> P (k, v) \<Longrightarrow> list_all P (hm_insert k v m)"
  by (induction m) (auto split: if_splits)

lemma list_all_remove: "list_all P m \<Longrightarrow> list_all P (hm_remove k m)"
  by (induction m) auto

lemma reg_inv_register:
  assumes "reg_inv s" and "reg_register ok chan display founder s = Inr s'"
    and "norm_nick chan = norm_nick display" "display \<noteq> []" "founder \<noteq> []"
    "field_ok display" "field_ok founder"
  shows "reg_inv s'"
  using assms by (auto simp: reg_register_def Let_def reg_inv_def reg_entry_ok_def is_utf8_def
      intro!: list_all_insert split: if_splits)

lemma reg_inv_drop: "reg_inv s \<Longrightarrow> reg_inv (snd (drop_channel ok chan s))"
  by (auto simp: drop_channel_def Let_def reg_inv_def intro: list_all_remove)

lemma reg_inv_set_topic:
  assumes "reg_inv s" and "is_utf8 topic"
  shows "reg_inv (reg_set_topic ok chan topic s)"
proof (cases "hm_get (reg_map s) (norm_nick chan)")
  case None
  then show ?thesis using assms by (simp add: reg_set_topic_def)
next
  case (Some r)
  then have "reg_entry_ok (norm_nick chan, r)"
    using assms(1) by (auto simp: reg_inv_def list_all_iff dest: map_of_SomeD)
  with Some assms show ?thesis
    by (auto simp: reg_set_topic_def reg_inv_def reg_entry_ok_def intro!: list_all_insert)
qed

end
