(* ===== verification/Accounts.thy ===== *)
theory Accounts
  imports Chanreg
begin

text \<open>
  The services account store \<^verbatim>\<open>AccountStore\<close> of \<^verbatim>\<open>src/accounts.rs\<close>: accounts
  with a PBKDF2 password hash and up to eight certificate fingerprints, and the index from a
  fingerprint to its account. The salt drawn from the operating system and the outcome of a
  file write are arguments.
\<close>

section \<open>State\<close>

abbreviation ITERS :: u32 where "ITERS \<equiv> 100000"
abbreviation HASH_LEN :: nat where "HASH_LEN \<equiv> 32"
abbreviation MAX_CERTS_PER_ACCOUNT :: nat where "MAX_CERTS_PER_ACCOUNT \<equiv> 8"

record account =
  acct_name :: string
  acct_salt :: "u8 list"
  acct_hash :: "u8 list"
  acct_iters :: u32
  acct_certs :: "string list"

datatype cert_add = Enrolled | Already

record account_store =
  acct_path :: "string option"
  acct_map :: "(string, account) hmap"
  by_cert :: "(string, string) hmap"
  acct_file :: "string option"

section \<open>Salts\<close>

abbreviation SALT_LEN :: nat where "SALT_LEN \<equiv> 16"

text \<open>\<open>entropy\<close> is what reading the random device for a salt gives, if it can be read; \<open>nanos\<close>, \<open>pid\<close>
  and \<open>addr\<close> (the printed address of the buffer) seed the digest that stands in for it.\<close>

definition random_salt :: "u8 list option \<Rightarrow> nat \<Rightarrow> nat \<Rightarrow> string \<Rightarrow> u8 list" where
  "random_salt entropy nanos pid addr = (case entropy of
     Some salt \<Rightarrow> salt
   | None \<Rightarrow> take SALT_LEN (sha256 (as_bytes (show_nat nanos @ ''-'' @ show_nat pid @ ''-'' @ addr))))"

lemma length_random_salt: "(\<And>s. entropy = Some s \<Longrightarrow> length s = SALT_LEN) \<Longrightarrow> length (random_salt entropy n p a) = SALT_LEN"
  by (simp add: random_salt_def split: option.split)

section \<open>Fingerprints\<close>

definition normalize_cert_fingerprint :: "string \<Rightarrow> string option" where
  "normalize_cert_fingerprint raw =
     (let hx = concat (filter (\<lambda>ch. ch \<noteq> '':'' \<and> \<not> is_uni_ws ch) (utf8_chars raw))
      in if length hx \<noteq> 64 \<or> \<not> list_all is_hexdigit hx then None else Some (lower hx))"

definition fp_ok :: "string \<Rightarrow> bool" where
  "fp_ok fp \<longleftrightarrow> length fp = 64 \<and> list_all (\<lambda>c. is_hexdigit c \<and> to_lower c = c) fp"

lemma is_hexdigit_lower: "is_hexdigit c \<Longrightarrow> is_hexdigit (to_lower c)"
  by (auto simp: is_hexdigit_def is_digit_def to_lower_def is_upper_def)

lemma normalize_ok: "normalize_cert_fingerprint raw = Some fp \<Longrightarrow> fp_ok fp"
proof -
  assume eq: "normalize_cert_fingerprint raw = Some fp"
  define hx where "hx = concat (filter (\<lambda>ch. ch \<noteq> '':'' \<and> \<not> is_uni_ws ch) (utf8_chars raw))"
  have "length hx = 64" "list_all is_hexdigit hx" "fp = lower hx"
    using eq by (auto simp: normalize_cert_fingerprint_def Let_def hx_def [symmetric] split: if_splits)
  then show ?thesis by (auto simp: fp_ok_def list_all_iff is_hexdigit_lower)
qed

lemma hexdigit_ascii: "is_hexdigit c \<Longrightarrow> is_ascii c \<and> c \<noteq> CHR '':'' \<and> \<not> is_uni_ws [c]"
  by (auto simp: is_hexdigit_def is_digit_def is_ascii_def is_uni_ws_def)

lemma normalize_fixed:
  assumes "fp_ok fp"
  shows "normalize_cert_fingerprint fp = Some fp"
proof -
  have hexd: "\<And>c. c \<in> set fp \<Longrightarrow> is_hexdigit c" and low: "lower fp = fp"
    using assms by (auto simp: fp_ok_def list_all_iff intro: map_idI)
  have chars: "utf8_chars fp = map (\<lambda>c. [c]) fp"
    using hexd hexdigit_ascii by (intro utf8_chars_ascii) (auto simp: list_all_iff)
  have "filter (\<lambda>ch. ch \<noteq> '':'' \<and> \<not> is_uni_ws ch) (map (\<lambda>c. [c]) fp) = map (\<lambda>c. [c]) fp"
    using hexd hexdigit_ascii by (intro filter_True) auto
  moreover have "concat (map (\<lambda>c. [c]) fp) = fp" by (induction fp) simp_all
  ultimately show ?thesis
    using assms low hexd
    by (simp add: normalize_cert_fingerprint_def chars fp_ok_def list_all_iff)
qed

section \<open>Operations\<close>

definition acct_render :: "account \<Rightarrow> string" where
  "acct_render a = join_with [CHR 0x09]
     ([acct_name a, show_nat (unat (acct_iters a)), base64_encode (acct_salt a),
       base64_encode (acct_hash a)]
      @ (if acct_certs a \<noteq> [] then [join_with '','' (acct_certs a)] else []))"

text \<open>\<^verbatim>\<open>save\<close>: the new store and whether the write succeeded (\<open>Inl\<close> of it is an error).\<close>

definition acct_save :: "bool \<Rightarrow> account_store \<Rightarrow> bool \<times> account_store" where
  "acct_save ok s = (case acct_path s of
     None \<Rightarrow> (True, s)
   | Some _ \<Rightarrow>
      (if ok then (True, s\<lparr>acct_file :=
          Some (concat (map (\<lambda>a. acct_render a @ [CHR 0x0A]) (hm_values (acct_map s))))\<rparr>)
       else (False, s)))"

fun dedup_certs :: "string list \<Rightarrow> string list \<Rightarrow> string list" where
  "dedup_certs certs [] = certs"
| "dedup_certs certs (part # parts) =
     dedup_certs (case normalize_cert_fingerprint part of
         Some fp \<Rightarrow> if fp \<in> set certs then certs else certs @ [fp]
       | None \<Rightarrow> certs) parts"

definition acct_parse_line :: "string \<Rightarrow> account option" where
  "acct_parse_line l = (case split_on (CHR 0x09) l of
     nm # it # sl # hs # extra \<Rightarrow>
       (case (parse_u32 it, base64_decode sl, base64_decode hs) of
          (Some i, Some salt, Some hash) \<Rightarrow>
            (if nm = [] \<or> salt = [] \<or> hash = [] then None
             else Some \<lparr>acct_name = nm, acct_salt = salt, acct_hash = hash,
                        acct_iters = word_of_nat i,
                        acct_certs = (case extra of [] \<Rightarrow> []
                          | field # _ \<Rightarrow> dedup_certs [] (split_on (CHR '','') field))\<rparr>)
        | _ \<Rightarrow> None)
   | _ \<Rightarrow> None)"

text \<open>\<^verbatim>\<open>acct.certs.retain\<close> with the index built on the way: first binding wins.\<close>

fun bind_certs :: "string \<Rightarrow> string list \<Rightarrow> (string, string) hmap \<Rightarrow> string list \<times> (string, string) hmap" where
  "bind_certs key [] idx = ([], idx)"
| "bind_certs key (fp # fps) idx =
     (if hm_contains idx fp then bind_certs key fps idx
      else case bind_certs key fps (hm_insert fp key idx) of (kept, idx') \<Rightarrow> (fp # kept, idx'))"

definition acct_load_step ::
    "(string, account) hmap \<times> (string, string) hmap \<Rightarrow> string
       \<Rightarrow> (string, account) hmap \<times> (string, string) hmap" where
  "acct_load_step st l = (case st of (m, idx) \<Rightarrow>
     (case acct_parse_line l of
        None \<Rightarrow> (m, idx)
      | Some a \<Rightarrow>
          (let key = norm_nick (acct_name a)
           in case bind_certs key (acct_certs a) idx of (kept, idx') \<Rightarrow>
                (hm_insert key (a\<lparr>acct_certs := kept\<rparr>) m, idx'))))"

definition acct_load :: "string option \<Rightarrow> string option \<Rightarrow> account_store" where
  "acct_load path contents =
     (case (case (path, contents) of
              (Some _, Some c) \<Rightarrow> foldl acct_load_step ([], []) (rust_lines c)
            | _ \<Rightarrow> ([], [])) of
        (m, idx) \<Rightarrow> \<lparr>acct_path = path, acct_map = m, by_cert = idx, acct_file = contents\<rparr>)"

definition acct_exists :: "account_store \<Rightarrow> string \<Rightarrow> bool" where
  "acct_exists s nm = hm_contains (acct_map s) (norm_nick nm)"

definition acct_register ::
    "bool \<Rightarrow> u8 list \<Rightarrow> string \<Rightarrow> string \<Rightarrow> account_store \<Rightarrow> string + account_store" where
  "acct_register ok salt nm pass s =
     (let key = norm_nick nm
      in if key = [] then Inl ''invalid account name''
         else if is_service_name key then Inl ''that name is reserved''
         else if hm_contains (acct_map s) key then Inl ''account already registered''
         else if pass = [] then Inl ''password required''
         else
           let hash = pbkdf2_sha256 (as_bytes pass) salt ITERS HASH_LEN
           in Inr (snd (acct_save ok (s\<lparr>acct_map := hm_insert key
                \<lparr>acct_name = nm, acct_salt = salt, acct_hash = hash, acct_iters = ITERS,
                 acct_certs = []\<rparr> (acct_map s)\<rparr>))))"

definition set_password ::
    "bool \<Rightarrow> u8 list \<Rightarrow> string \<Rightarrow> string \<Rightarrow> account_store \<Rightarrow> string + account_store" where
  "set_password ok salt nm new_pass s =
     (let key = norm_nick nm
      in if new_pass = [] then Inl ''password required''
         else case hm_get (acct_map s) key of
           None \<Rightarrow> Inl ''account not registered''
         | Some a \<Rightarrow>
             let hash = pbkdf2_sha256 (as_bytes new_pass) salt ITERS HASH_LEN
             in Inr (snd (acct_save ok (s\<lparr>acct_map := hm_insert key
                  (a\<lparr>acct_salt := salt, acct_hash := hash, acct_iters := ITERS\<rparr>) (acct_map s)\<rparr>))))"

definition certs_of :: "account_store \<Rightarrow> string \<Rightarrow> string list option" where
  "certs_of s nm = map_option acct_certs (hm_get (acct_map s) (norm_nick nm))"

definition account_for_cert :: "account_store \<Rightarrow> string \<Rightarrow> string option" where
  "account_for_cert s raw =
     (case normalize_cert_fingerprint raw of
        None \<Rightarrow> None
      | Some fp \<Rightarrow> (case hm_get (by_cert s) fp of
          None \<Rightarrow> None
        | Some key \<Rightarrow> map_option acct_name (hm_get (acct_map s) key)))"

definition add_cert ::
    "bool \<Rightarrow> string \<Rightarrow> string \<Rightarrow> account_store \<Rightarrow> (string + cert_add) \<times> account_store" where
  "add_cert ok nm raw s =
     (let key = norm_nick nm
      in case normalize_cert_fingerprint raw of
        None \<Rightarrow> (Inl ''invalid fingerprint'', s)
      | Some fp \<Rightarrow>
        (case hm_get (acct_map s) key of
          None \<Rightarrow> (Inl ''account not registered'', s)
        | Some a \<Rightarrow>
          (case hm_get (by_cert s) fp of
            Some owner \<Rightarrow>
              (if owner = key then (Inr Already, s)
               else (Inl ''certificate belongs to another account'', s))
          | None \<Rightarrow>
              (if length (acct_certs a) \<ge> MAX_CERTS_PER_ACCOUNT
               then (Inl ''certificate limit reached'', s)
               else
                 let s1 = s\<lparr>acct_map := hm_insert key (a\<lparr>acct_certs := acct_certs a @ [fp]\<rparr>) (acct_map s),
                            by_cert := hm_insert fp key (by_cert s)\<rparr>
                 in case acct_save ok s1 of
                      (True, s2) \<Rightarrow> (Inr Enrolled, s2)
                    | (False, s2) \<Rightarrow>
                        (Inl ''could not save account store'',
                         s2\<lparr>acct_map := (case hm_get (acct_map s2) key of
                                Some a2 \<Rightarrow> hm_insert key
                                  (a2\<lparr>acct_certs := filter (\<lambda>c. c \<noteq> fp) (acct_certs a2)\<rparr>) (acct_map s2)
                              | None \<Rightarrow> acct_map s2),
                            by_cert := hm_remove fp (by_cert s2)\<rparr>)))))"

fun position :: "'a \<Rightarrow> 'a list \<Rightarrow> nat option" where
  "position x [] = None"
| "position x (y # ys) = (if y = x then Some 0 else map_option Suc (position x ys))"

definition remove_cert ::
    "bool \<Rightarrow> string \<Rightarrow> string \<Rightarrow> account_store \<Rightarrow> (string + unit) \<times> account_store" where
  "remove_cert ok nm raw s =
     (let key = norm_nick nm
      in case normalize_cert_fingerprint raw of
        None \<Rightarrow> (Inl ''invalid fingerprint'', s)
      | Some fp \<Rightarrow>
        (case hm_get (acct_map s) key of
          None \<Rightarrow> (Inl ''account not registered'', s)
        | Some a \<Rightarrow>
          (case position fp (acct_certs a) of
            None \<Rightarrow> (Inl ''no such certificate'', s)
          | Some pos \<Rightarrow>
              (let cs = take pos (acct_certs a) @ drop (Suc pos) (acct_certs a);
                   s1 = s\<lparr>acct_map := hm_insert key (a\<lparr>acct_certs := cs\<rparr>) (acct_map s),
                          by_cert := hm_remove fp (by_cert s)\<rparr>
               in case acct_save ok s1 of
                    (True, s2) \<Rightarrow> (Inr (), s2)
                  | (False, s2) \<Rightarrow>
                      (Inl ''could not save account store'',
                       s2\<lparr>acct_map := (case hm_get (acct_map s2) key of
                              Some a2 \<Rightarrow> hm_insert key
                                (a2\<lparr>acct_certs := take pos (acct_certs a2) @ fp # drop pos (acct_certs a2)\<rparr>)
                                (acct_map s2)
                            | None \<Rightarrow> acct_map s2),
                          by_cert := hm_insert fp key (by_cert s2)\<rparr>)))))"

definition acct_verify :: "account_store \<Rightarrow> string \<Rightarrow> string \<Rightarrow> bool" where
  "acct_verify s nm pass = (case hm_get (acct_map s) (norm_nick nm) of
     None \<Rightarrow> False
   | Some a \<Rightarrow> constant_time_eq
       (pbkdf2_sha256 (as_bytes pass) (acct_salt a) (acct_iters a) (length (acct_hash a)))
       (acct_hash a))"

definition acct_display_name :: "account_store \<Rightarrow> string \<Rightarrow> string option" where
  "acct_display_name s nm = map_option acct_name (hm_get (acct_map s) (norm_nick nm))"

section \<open>Saving changes only the file\<close>

lemma acct_save_same [simp]:
  "acct_map (snd (acct_save ok s)) = acct_map s" "by_cert (snd (acct_save ok s)) = by_cert s"
  "acct_path (snd (acct_save ok s)) = acct_path s"
  by (simp_all add: acct_save_def split: option.splits)

lemma acct_save_failed: "acct_save ok s = (False, s') \<Longrightarrow> s' = s"
  by (simp add: acct_save_def split: option.splits if_splits)

section \<open>Registration and passwords\<close>

definition acct_find :: "account_store \<Rightarrow> string \<Rightarrow> account option" where
  "acct_find s nm = hm_get (acct_map s) (norm_nick nm)"

lemma acct_find_register:
  assumes "acct_register ok salt nm pass s = Inr s'"
  shows "acct_find s' m = (if norm_nick m = norm_nick nm
     then Some \<lparr>acct_name = nm, acct_salt = salt,
                acct_hash = pbkdf2_sha256 (as_bytes pass) salt ITERS HASH_LEN,
                acct_iters = ITERS, acct_certs = []\<rparr>
     else acct_find s m)"
  using assms by (auto simp: acct_register_def Let_def acct_find_def hm_simps split: if_splits)

interpretation accts: folded_registry acct_find
  "\<lambda>nm (ok, salt, pass) s. case acct_register ok salt nm pass s of Inl _ \<Rightarrow> None | Inr s' \<Rightarrow> Some s'"
  "\<lambda>nm (ok, salt, pass). \<lparr>acct_name = nm, acct_salt = salt,
     acct_hash = pbkdf2_sha256 (as_bytes pass) salt ITERS HASH_LEN,
     acct_iters = ITERS, acct_certs = []\<rparr>"
proof unfold_locales
  show "norm_nick m = norm_nick n \<Longrightarrow> acct_find s m = acct_find s n" for m n s
    by (simp add: acct_find_def)
next
  fix s n and a :: "bool \<times> u8 list \<times> string"
  assume "acct_find s n \<noteq> None"
  then show "(case a of (ok, salt, pass) \<Rightarrow> \<lambda>s. case acct_register ok salt n pass s of
      Inl _ \<Rightarrow> None | Inr s' \<Rightarrow> Some s') s = None"
    by (cases a) (auto simp: acct_register_def Let_def acct_find_def hm_contains_get)
next
  fix s n m s' and a :: "bool \<times> u8 list \<times> string"
  assume "(case a of (ok, salt, pass) \<Rightarrow> \<lambda>s. case acct_register ok salt n pass s of
      Inl _ \<Rightarrow> None | Inr s' \<Rightarrow> Some s') s = Some s'"
  then show "acct_find s' m = (if norm_nick m = norm_nick n then
      Some (case a of (ok, salt, pass) \<Rightarrow> \<lparr>acct_name = n, acct_salt = salt,
        acct_hash = pbkdf2_sha256 (as_bytes pass) salt ITERS HASH_LEN,
        acct_iters = ITERS, acct_certs = []\<rparr>) else acct_find s m)"
    by (cases a) (auto split: sum.splits simp: acct_find_register)
qed

lemma acct_verify_iff:
  "acct_verify s nm pass \<longleftrightarrow> (\<exists>a. acct_find s nm = Some a \<and>
     pbkdf2_sha256 (as_bytes pass) (acct_salt a) (acct_iters a) (length (acct_hash a)) = acct_hash a)"
  by (simp add: acct_verify_def acct_find_def constant_time_eq_iff split: option.splits)

lemma acct_find_set_password:
  assumes "set_password ok salt nm new_pass s = Inr s'"
  shows "acct_find s' m = (if norm_nick m = norm_nick nm
     then map_option (\<lambda>a. a\<lparr>acct_salt := salt,
            acct_hash := pbkdf2_sha256 (as_bytes new_pass) salt ITERS HASH_LEN,
            acct_iters := ITERS\<rparr>) (acct_find s m)
     else acct_find s m)"
  using assms by (auto simp: set_password_def Let_def acct_find_def hm_simps
      split: if_splits option.splits)

section \<open>The certificate index\<close>

text \<open>
  The index and the accounts agree: a fingerprint is indexed to exactly the account that lists
  it, lists have no repetition and at most eight entries, and entries are normalised.
\<close>

definition cert_inv :: "account_store \<Rightarrow> bool" where
  "cert_inv s \<longleftrightarrow> hm_wf (acct_map s) \<and> hm_wf (by_cert s)
     \<and> (\<forall>fp k. hm_get (by_cert s) fp = Some k \<longleftrightarrow>
          (\<exists>a. hm_get (acct_map s) k = Some a \<and> fp \<in> set (acct_certs a)))
     \<and> (\<forall>k a. hm_get (acct_map s) k = Some a \<longrightarrow>
          distinct (acct_certs a) \<and> length (acct_certs a) \<le> MAX_CERTS_PER_ACCOUNT
          \<and> list_all fp_ok (acct_certs a))"

lemma cert_inv_save [simp]: "cert_inv (snd (acct_save ok s)) = cert_inv s"
  by (simp add: cert_inv_def)

lemma cert_inv_empty: "cert_inv (acct_load None contents)"
  by (simp add: cert_inv_def acct_load_def)

text \<open>Replacing an account by one with the same certificate list, or adding one with none.\<close>

lemma cert_inv_insert_same:
  assumes "cert_inv s"
    and "acct_certs a' = (case hm_get (acct_map s) key of Some a \<Rightarrow> acct_certs a | None \<Rightarrow> [])"
  shows "cert_inv (s\<lparr>acct_map := hm_insert key a' (acct_map s)\<rparr>)"
  using assms unfolding cert_inv_def
  by (auto simp: hm_simps split: option.splits)

lemma cert_inv_register:
  "cert_inv s \<Longrightarrow> acct_register ok salt nm pass s = Inr s' \<Longrightarrow> cert_inv s'"
  by (auto simp: acct_register_def Let_def hm_contains_get split: if_splits
      intro!: cert_inv_insert_same)

lemma cert_inv_set_password:
  "cert_inv s \<Longrightarrow> set_password ok salt nm pass s = Inr s' \<Longrightarrow> cert_inv s'"
  by (auto simp: set_password_def Let_def split: if_splits option.splits intro!: cert_inv_insert_same)

lemma position_Some: "position x xs = Some i \<Longrightarrow> i < length xs \<and> xs ! i = x"
  by (induction xs arbitrary: i) (auto split: if_splits)

lemma position_None: "position x xs = None \<longleftrightarrow> x \<notin> set xs"
  by (induction xs) auto

text \<open>The two single-certificate updates of the store, without the file.\<close>

lemma cert_inv_add:
  assumes inv: "cert_inv s" and a: "hm_get (acct_map s) key = Some a"
    and free: "hm_get (by_cert s) fp = None" and room: "length (acct_certs a) < MAX_CERTS_PER_ACCOUNT"
    and fp: "fp_ok fp"
  shows "cert_inv (s\<lparr>acct_map := hm_insert key (a\<lparr>acct_certs := acct_certs a @ [fp]\<rparr>) (acct_map s),
                     by_cert := hm_insert fp key (by_cert s)\<rparr>)"
proof -
  have nowhere: "fp \<notin> set (acct_certs b)" if "hm_get (acct_map s) k = Some b" for k b
    using inv free that unfolding cert_inv_def by (metis option.distinct(1))
  have old: "hm_get (by_cert s) f = Some k \<longleftrightarrow>
      (\<exists>b. hm_get (acct_map s) k = Some b \<and> f \<in> set (acct_certs b))" for f k
    using inv by (simp add: cert_inv_def)
  have lists: "distinct (acct_certs b) \<and> length (acct_certs b) \<le> MAX_CERTS_PER_ACCOUNT
      \<and> list_all fp_ok (acct_certs b)" if "hm_get (acct_map s) k = Some b" for k b
    using inv that by (simp add: cert_inv_def)
  show ?thesis
    using inv a room fp nowhere lists [OF a] lists
    unfolding cert_inv_def by (auto simp: hm_simps old)
qed

lemma cert_inv_remove:
  assumes inv: "cert_inv s" and a: "hm_get (acct_map s) key = Some a"
    and pos: "position fp (acct_certs a) = Some pos"
  shows "cert_inv (s\<lparr>acct_map := hm_insert key
           (a\<lparr>acct_certs := take pos (acct_certs a) @ drop (Suc pos) (acct_certs a)\<rparr>) (acct_map s),
           by_cert := hm_remove fp (by_cert s)\<rparr>)"
proof -
  let ?cs = "take pos (acct_certs a) @ drop (Suc pos) (acct_certs a)"
  have old: "hm_get (by_cert s) f = Some k \<longleftrightarrow>
      (\<exists>b. hm_get (acct_map s) k = Some b \<and> f \<in> set (acct_certs b))" for f k
    using inv by (simp add: cert_inv_def)
  have lists: "distinct (acct_certs b)" "length (acct_certs b) \<le> MAX_CERTS_PER_ACCOUNT"
      "list_all fp_ok (acct_certs b)" if "hm_get (acct_map s) k = Some b" for k b
    using inv that by (simp_all add: cert_inv_def)
  have split: "acct_certs a = take pos (acct_certs a) @ fp # drop (Suc pos) (acct_certs a)"
    using position_Some [OF pos] by (metis id_take_nth_drop)
  then have set_cs: "set ?cs = set (acct_certs a) - {fp}" and "distinct ?cs"
    and len: "length ?cs \<le> MAX_CERTS_PER_ACCOUNT"
    using lists(1,2) [OF a]
    by (metis (no_types, lifting) Diff_insert_absorb Un_insert_right distinct_append distinct.simps(2)
        list.set(2) not_distinct_conv_prefix set_append Un_iff insert_iff,
        metis distinct_append distinct.simps(2) disjoint_insert(1) list.set(2),
        metis Suc_leD add_Suc_right length_append length_Cons)
  have only: "k = key" if "hm_get (acct_map s) k = Some b" "fp \<in> set (acct_certs b)" for k b
  proof -
    have "fp \<in> set (acct_certs a)" using position_None [of fp "acct_certs a"] pos by auto
    then have "hm_get (by_cert s) fp = Some key" using a old by auto
    moreover have "hm_get (by_cert s) fp = Some k" using that old by auto
    ultimately show ?thesis by simp
  qed
  have okcs: "list_all fp_ok ?cs" using lists(3) [OF a] set_cs by (auto simp: list_all_iff)
  show ?thesis
    using inv a set_cs \<open>distinct ?cs\<close> len okcs only lists
    unfolding cert_inv_def by (auto simp: hm_simps old simp del: set_append)
qed

section \<open>The certificate operations\<close>

text \<open>Two stores are interchangeable when every lookup agrees.\<close>

definition same_lookups :: "account_store \<Rightarrow> account_store \<Rightarrow> bool" where
  "same_lookups s s' \<longleftrightarrow> (\<forall>k. hm_get (acct_map s) k = hm_get (acct_map s') k)
     \<and> (\<forall>f. hm_get (by_cert s) f = hm_get (by_cert s') f)"

lemma cert_inv_cong:
  assumes "cert_inv s" "same_lookups s' s" "hm_wf (acct_map s')" "hm_wf (by_cert s')"
  shows "cert_inv s'"
  using assms by (simp add: cert_inv_def same_lookups_def)

lemma cert_inv_wf: "cert_inv s \<Longrightarrow> hm_wf (acct_map s) \<and> hm_wf (by_cert s)"
  by (simp add: cert_inv_def)

lemma unindexed_unlisted:
  "cert_inv s \<Longrightarrow> hm_get (acct_map s) key = Some a \<Longrightarrow> hm_get (by_cert s) fp = None \<Longrightarrow>
     fp \<notin> set (acct_certs a)"
  unfolding cert_inv_def by (metis option.distinct(1))

lemma filter_snoc_absent: "x \<notin> set xs \<Longrightarrow> filter (\<lambda>c. c \<noteq> x) (xs @ [x]) = xs"
  by (auto simp: filter_id_conv)

text \<open>An enrolment that is refused, for whatever reason, leaves every lookup as it was.\<close>

lemma add_cert_refused:
  assumes inv: "cert_inv s" and r: "add_cert ok nm raw s = (Inl e, s')"
  shows "same_lookups s' s \<and> hm_wf (acct_map s') \<and> hm_wf (by_cert s')"
proof (cases "s' = s")
  case True
  then show ?thesis using cert_inv_wf [OF inv] by (simp add: same_lookups_def)
next
  case False
  let ?key = "norm_nick nm"
  from r False obtain fp a where fp: "normalize_cert_fingerprint raw = Some fp"
    and a: "hm_get (acct_map s) ?key = Some a" and free: "hm_get (by_cert s) fp = None"
    by (auto simp: add_cert_def Let_def split: option.splits if_splits)
  define s1 where "s1 = s\<lparr>acct_map := hm_insert ?key (a\<lparr>acct_certs := acct_certs a @ [fp]\<rparr>) (acct_map s),
    by_cert := hm_insert fp ?key (by_cert s)\<rparr>"
  have get1: "hm_get (acct_map s1) ?key = Some (a\<lparr>acct_certs := acct_certs a @ [fp]\<rparr>)"
    by (simp add: s1_def hm_simps)
  obtain b s2 where save: "acct_save ok s1 = (b, s2)" by (cases "acct_save ok s1")
  have "\<not> b" and s'2: "s' = s2\<lparr>acct_map := (case hm_get (acct_map s2) ?key of
        Some a2 \<Rightarrow> hm_insert ?key (a2\<lparr>acct_certs := filter (\<lambda>c. c \<noteq> fp) (acct_certs a2)\<rparr>) (acct_map s2)
      | None \<Rightarrow> acct_map s2), by_cert := hm_remove fp (by_cert s2)\<rparr>"
    using r False by (auto simp: add_cert_def Let_def fp a free s1_def [symmetric] save
        split: if_splits bool.splits)
  with save have "s2 = s1" using acct_save_failed by simp
  with s'2 have s': "s' = s1\<lparr>acct_map := hm_insert ?key
      (a\<lparr>acct_certs := filter (\<lambda>c. c \<noteq> fp) (acct_certs a @ [fp])\<rparr>) (acct_map s1),
      by_cert := hm_remove fp (by_cert s1)\<rparr>"
    by (simp add: get1)
  have "filter (\<lambda>c. c \<noteq> fp) (acct_certs a @ [fp]) = acct_certs a"
    using unindexed_unlisted [OF inv a free] by (rule filter_snoc_absent)
  then show ?thesis
    using a free cert_inv_wf [OF inv] by (auto simp: s' s1_def same_lookups_def hm_simps)
qed

lemma add_cert_enrolled:
  assumes "add_cert ok nm raw s = (Inr Enrolled, s')"
  obtains fp a where "normalize_cert_fingerprint raw = Some fp"
    and "hm_get (acct_map s) (norm_nick nm) = Some a" and "hm_get (by_cert s) fp = None"
    and "length (acct_certs a) < MAX_CERTS_PER_ACCOUNT"
    and "s' = snd (acct_save ok (s\<lparr>acct_map := hm_insert (norm_nick nm)
          (a\<lparr>acct_certs := acct_certs a @ [fp]\<rparr>) (acct_map s),
          by_cert := hm_insert fp (norm_nick nm) (by_cert s)\<rparr>))"
  using assms
  by (auto simp: add_cert_def Let_def split: option.splits if_splits prod.splits bool.splits)

lemma cert_inv_add_cert:
  assumes inv: "cert_inv s"
  shows "cert_inv (snd (add_cert ok nm raw s))"
proof -
  obtain res s' where r: "add_cert ok nm raw s = (res, s')" by (cases "add_cert ok nm raw s")
  show ?thesis
  proof (cases res)
    case (Inl e)
    with r add_cert_refused [OF inv] cert_inv_cong [OF inv] show ?thesis by simp
  next
    case (Inr v)
    show ?thesis
    proof (cases v)
      case Enrolled
      with r Inr have "add_cert ok nm raw s = (Inr Enrolled, s')" by simp
      then show ?thesis
        by (rule add_cert_enrolled) (use inv r in \<open>simp add: cert_inv_add normalize_ok\<close>)
    next
      case Already
      with r Inr have "s' = s"
        by (auto simp: add_cert_def Let_def split: option.splits if_splits prod.splits bool.splits)
      with r inv show ?thesis by simp
    qed
  qed
qed

lemma remove_insert_back:
  "position x xs = Some i \<Longrightarrow>
     take i (take i xs @ drop (Suc i) xs) @ x # drop i (take i xs @ drop (Suc i) xs) = xs"
  using position_Some [of x xs i] id_take_nth_drop [of i xs] by (auto simp: min_def)

lemma remove_cert_refused:
  assumes inv: "cert_inv s" and r: "remove_cert ok nm raw s = (Inl e, s')"
  shows "same_lookups s' s \<and> hm_wf (acct_map s') \<and> hm_wf (by_cert s')"
proof (cases "s' = s")
  case True
  then show ?thesis using cert_inv_wf [OF inv] by (simp add: same_lookups_def)
next
  case False
  let ?key = "norm_nick nm"
  from r False obtain fp a pos where fp: "normalize_cert_fingerprint raw = Some fp"
    and a: "hm_get (acct_map s) ?key = Some a" and pos: "position fp (acct_certs a) = Some pos"
    by (auto simp: remove_cert_def Let_def split: option.splits if_splits)
  define cs where "cs = take pos (acct_certs a) @ drop (Suc pos) (acct_certs a)"
  define s1 where "s1 = s\<lparr>acct_map := hm_insert ?key (a\<lparr>acct_certs := cs\<rparr>) (acct_map s),
    by_cert := hm_remove fp (by_cert s)\<rparr>"
  have get1: "hm_get (acct_map s1) ?key = Some (a\<lparr>acct_certs := cs\<rparr>)"
    by (simp add: s1_def hm_simps)
  obtain b s2 where save: "acct_save ok s1 = (b, s2)" by (cases "acct_save ok s1")
  have "\<not> b" and s'2: "s' = s2\<lparr>acct_map := (case hm_get (acct_map s2) ?key of
        Some a2 \<Rightarrow> hm_insert ?key
          (a2\<lparr>acct_certs := take pos (acct_certs a2) @ fp # drop pos (acct_certs a2)\<rparr>) (acct_map s2)
      | None \<Rightarrow> acct_map s2), by_cert := hm_insert fp ?key (by_cert s2)\<rparr>"
    using r False by (auto simp: remove_cert_def Let_def fp a pos cs_def [symmetric]
        s1_def [symmetric] save split: if_splits bool.splits)
  with save have "s2 = s1" using acct_save_failed by simp
  with s'2 have s': "s' = s1\<lparr>acct_map := hm_insert ?key
      (a\<lparr>acct_certs := take pos cs @ fp # drop pos cs\<rparr>) (acct_map s1),
      by_cert := hm_insert fp ?key (by_cert s1)\<rparr>"
    by (simp add: get1)
  have "take pos cs @ fp # drop pos cs = acct_certs a"
    unfolding cs_def using pos by (rule remove_insert_back)
  moreover have "hm_get (by_cert s) fp = Some ?key"
    using inv a position_None [of fp "acct_certs a"] pos unfolding cert_inv_def by auto
  ultimately show ?thesis
    using a cert_inv_wf [OF inv] by (auto simp: s' s1_def same_lookups_def hm_simps)
qed

lemma remove_cert_done:
  assumes "remove_cert ok nm raw s = (Inr (), s')"
  obtains fp a pos where "normalize_cert_fingerprint raw = Some fp"
    and "hm_get (acct_map s) (norm_nick nm) = Some a" and "position fp (acct_certs a) = Some pos"
    and "s' = snd (acct_save ok (s\<lparr>acct_map := hm_insert (norm_nick nm)
          (a\<lparr>acct_certs := take pos (acct_certs a) @ drop (Suc pos) (acct_certs a)\<rparr>) (acct_map s),
          by_cert := hm_remove fp (by_cert s)\<rparr>))"
  using assms
  by (auto simp: remove_cert_def Let_def split: option.splits if_splits prod.splits bool.splits)

lemma cert_inv_remove_cert:
  assumes inv: "cert_inv s"
  shows "cert_inv (snd (remove_cert ok nm raw s))"
proof -
  obtain res s' where r: "remove_cert ok nm raw s = (res, s')" by (cases "remove_cert ok nm raw s")
  show ?thesis
  proof (cases res)
    case (Inl e)
    with r remove_cert_refused [OF inv] cert_inv_cong [OF inv] show ?thesis by simp
  next
    case (Inr u)
    with r have "remove_cert ok nm raw s = (Inr (), s')" by simp
    then show ?thesis
      by (rule remove_cert_done) (use inv r in \<open>simp add: cert_inv_remove\<close>)
  qed
qed

lemma account_for_cert_iff:
  assumes inv: "cert_inv s"
  shows "account_for_cert s raw = Some nm \<longleftrightarrow>
    (\<exists>fp k a. normalize_cert_fingerprint raw = Some fp \<and> hm_get (acct_map s) k = Some a
       \<and> fp \<in> set (acct_certs a) \<and> acct_name a = nm)"
proof -
  have idx: "hm_get (by_cert s) f = Some k \<longleftrightarrow>
      (\<exists>b. hm_get (acct_map s) k = Some b \<and> f \<in> set (acct_certs b))" for f k
    using inv by (simp add: cert_inv_def)
  have "account_for_cert s raw = Some nm \<longleftrightarrow> (\<exists>fp k a. normalize_cert_fingerprint raw = Some fp
      \<and> hm_get (by_cert s) fp = Some k \<and> hm_get (acct_map s) k = Some a \<and> acct_name a = nm)"
    by (auto simp: account_for_cert_def split: option.splits)
  also have "\<dots> \<longleftrightarrow> (\<exists>fp k a. normalize_cert_fingerprint raw = Some fp \<and> hm_get (acct_map s) k = Some a
       \<and> fp \<in> set (acct_certs a) \<and> acct_name a = nm)"
    unfolding idx by (metis option.inject)
  finally show ?thesis .
qed

end
