(* ===== verification/Network.thy ===== *)
theory Network
  imports Prelude
begin

text \<open>
  The network view of \<^verbatim>\<open>src/network.rs\<close>: the other servers of the spanning tree, the
  users they own and the identifiers minted for local connections.
\<close>

section \<open>Identifiers\<close>

definition is_idchar :: "char \<Rightarrow> bool" where
  "is_idchar c \<longleftrightarrow> is_upper c \<or> is_digit c"

definition valid_sid :: "string \<Rightarrow> bool" where
  "valid_sid s \<longleftrightarrow> length s = 3 \<and> is_digit (s ! 0) \<and> list_all is_idchar (drop 1 s)"

definition valid_uid :: "string \<Rightarrow> bool" where
  "valid_uid s \<longleftrightarrow> length s = 6 \<and> list_all is_idchar s"

text \<open>Slicing at byte 3 panics inside a multi-byte character: the result \<open>None\<close>.\<close>

definition valid_uuid :: "string \<Rightarrow> bool option" where
  "valid_uuid s =
     (if length s \<noteq> 9 then Some False
      else if \<not> is_char_boundary s 3 then None
      else Some (valid_sid (take 3 s) \<and> valid_uid (drop 3 s)))"

section \<open>State\<close>

record remote_server =
  rs_sid :: string
  rs_name :: string
  rs_desc :: string
  rs_hop :: u32
  rs_via :: string
  rs_bursting :: bool

record remote_user =
  ru_uuid :: string
  ru_sid :: string
  ru_nick :: string
  ru_nick_key :: string
  ru_user :: string
  ru_host :: string
  ru_real_host :: string
  ru_realname :: string
  ru_ts :: u64
  ru_modes :: string
  ru_chans :: "string set"
  ru_away :: "string option"
  ru_oper :: bool

record network =
  net_sid :: string
  net_servers :: "(string, remote_server) hmap"
  net_users :: "(string, remote_user) hmap"
  nick_index :: "(string, string) hmap"
  local_uuids :: "(nat, string) hmap"
  net_next_uid :: u64
  net_next_membid :: u64

abbreviation UID_ALPHABET :: string where
  "UID_ALPHABET \<equiv> ''ABCDEFGHIJKLMNOPQRSTUVWXYZ0123456789''"

definition network_new :: "string \<Rightarrow> network" where
  "network_new sid = \<lparr>net_sid = sid, net_servers = [], net_users = [], nick_index = [],
     local_uuids = [], net_next_uid = 0, net_next_membid = 1\<rparr>"

section \<open>Local identifiers\<close>

text \<open>The loop over the six slots, from the last to the first.\<close>

fun uid_digits :: "nat \<Rightarrow> nat \<Rightarrow> string" where
  "uid_digits 0 n = []"
| "uid_digits (Suc k) n = uid_digits k (n div 36) @ [UID_ALPHABET ! (n mod 36)]"

definition next_uid :: "network \<Rightarrow> string \<times> network" where
  "next_uid n = (uid_digits 6 (unat (net_next_uid n)), n\<lparr>net_next_uid := net_next_uid n + 1\<rparr>)"

definition uuid_for_local :: "nat \<Rightarrow> network \<Rightarrow> string \<times> network" where
  "uuid_for_local i n = (case hm_get (local_uuids n) i of
     Some existing \<Rightarrow> (existing, n)
   | None \<Rightarrow>
       (case next_uid n of (uid, n1) \<Rightarrow>
          let uuid = net_sid n1 @ uid
          in (uuid, n1\<lparr>local_uuids := hm_insert i uuid (local_uuids n1)\<rparr>)))"

definition local_uuid :: "network \<Rightarrow> nat \<Rightarrow> string option" where
  "local_uuid n i = hm_get (local_uuids n) i"

definition next_membid :: "network \<Rightarrow> u64 \<times> network" where
  "next_membid n = (net_next_membid n, n\<lparr>net_next_membid := max (net_next_membid n + 1) 1\<rparr>)"

definition local_uuid_owner :: "network \<Rightarrow> string \<Rightarrow> nat option" where
  "local_uuid_owner n uuid = map_option fst (List.find (\<lambda>(_, v). v = uuid) (local_uuids n))"

definition forget_local :: "nat \<Rightarrow> network \<Rightarrow> network" where
  "forget_local i n = n\<lparr>local_uuids := hm_remove i (local_uuids n)\<rparr>"

section \<open>Users\<close>

definition add_user :: "remote_user \<Rightarrow> network \<Rightarrow> network" where
  "add_user u n = n\<lparr>nick_index := hm_insert (ru_nick_key u) (ru_uuid u) (nick_index n),
     net_users := hm_insert (ru_uuid u) u (net_users n)\<rparr>"

definition net_user :: "network \<Rightarrow> string \<Rightarrow> remote_user option" where
  "net_user n uuid = hm_get (net_users n) uuid"

definition upd_user :: "string \<Rightarrow> (remote_user \<Rightarrow> remote_user) \<Rightarrow> network \<Rightarrow> network" where
  "upd_user uuid f n = (case hm_get (net_users n) uuid of
     None \<Rightarrow> n | Some u \<Rightarrow> n\<lparr>net_users := hm_insert uuid (f u) (net_users n)\<rparr>)"

definition by_nick :: "network \<Rightarrow> string \<Rightarrow> remote_user option" where
  "by_nick n key = (case hm_get (nick_index n) key of
     None \<Rightarrow> None | Some uuid \<Rightarrow> hm_get (net_users n) uuid)"

definition net_remove_user :: "string \<Rightarrow> network \<Rightarrow> remote_user option \<times> network" where
  "net_remove_user uuid n = (case hm_get (net_users n) uuid of
     None \<Rightarrow> (None, n)
   | Some u \<Rightarrow>
       let n1 = n\<lparr>net_users := hm_remove uuid (net_users n)\<rparr>
       in (Some u,
           if hm_get (nick_index n1) (ru_nick_key u) = Some (ru_uuid u)
           then n1\<lparr>nick_index := hm_remove (ru_nick_key u) (nick_index n1)\<rparr> else n1))"

definition rename_user :: "string \<Rightarrow> string \<Rightarrow> string \<Rightarrow> network \<Rightarrow> bool \<times> network" where
  "rename_user uuid new_nick new_key n = (case hm_get (net_users n) uuid of
     None \<Rightarrow> (False, n)
   | Some u \<Rightarrow>
       let n1 = (if hm_get (nick_index n) (ru_nick_key u) = Some uuid
                 then n\<lparr>nick_index := hm_remove (ru_nick_key u) (nick_index n)\<rparr> else n);
           n2 = upd_user uuid (\<lambda>u. u\<lparr>ru_nick := new_nick, ru_nick_key := new_key\<rparr>) n1
       in (True, n2\<lparr>nick_index := hm_insert new_key uuid (nick_index n2)\<rparr>))"

definition members_of :: "network \<Rightarrow> string \<Rightarrow> string list" where
  "members_of n ck = map ru_uuid (filter (\<lambda>u. ck \<in> ru_chans u) (hm_values (net_users n)))"

definition sids_in_channel :: "network \<Rightarrow> string \<Rightarrow> string set" where
  "sids_in_channel n ck = set (map ru_sid (filter (\<lambda>u. ck \<in> ru_chans u) (hm_values (net_users n))))"

section \<open>Servers\<close>

definition add_server :: "remote_server \<Rightarrow> network \<Rightarrow> network" where
  "add_server s n = n\<lparr>net_servers := hm_insert (rs_sid s) s (net_servers n)\<rparr>"

definition net_server :: "network \<Rightarrow> string \<Rightarrow> remote_server option" where
  "net_server n sid = hm_get (net_servers n) sid"

definition upd_server :: "string \<Rightarrow> (remote_server \<Rightarrow> remote_server) \<Rightarrow> network \<Rightarrow> network" where
  "upd_server sid f n = (case hm_get (net_servers n) sid of
     None \<Rightarrow> n | Some s \<Rightarrow> n\<lparr>net_servers := hm_insert sid (f s) (net_servers n)\<rparr>)"

definition behind :: "remote_server list \<Rightarrow> string list \<Rightarrow> string list" where
  "behind srvs gone = map rs_sid (filter (\<lambda>s. rs_via s \<in> set gone \<and> rs_sid s \<notin> set gone) srvs)"

text \<open>The loop that grows the set of lost servers until nothing more is behind it.\<close>

function subtree_loop :: "remote_server list \<Rightarrow> string list \<Rightarrow> string list" where
  "subtree_loop srvs gone =
     (let nxt = behind srvs gone in if nxt = [] then gone else subtree_loop srvs (gone @ nxt))"
  by pat_completeness auto
termination
proof (relation "measure (\<lambda>(srvs, gone). card (rs_sid ` set srvs - set gone))")
  fix srvs :: "remote_server list" and gone nxt
  assume nxt: "nxt = behind srvs gone" "nxt \<noteq> []"
  from nxt(2) obtain x where "x \<in> set nxt" by (cases nxt) auto
  with nxt have x: "x \<in> rs_sid ` set srvs - set gone" by (auto simp: behind_def)
  have "rs_sid ` set srvs - set (gone @ nxt) \<subset> rs_sid ` set srvs - set gone"
    using x \<open>x \<in> set nxt\<close> by auto
  then show "((srvs, gone @ nxt), srvs, gone) \<in> measure (\<lambda>(srvs, gone). card (rs_sid ` set srvs - set gone))"
    by (simp add: psubset_card_mono)
qed simp

declare subtree_loop.simps [simp del]

text \<open>\<^verbatim>\<open>collect_subtree_users\<close> and the two forms of a split.\<close>

definition collect_subtree_users :: "string \<Rightarrow> network \<Rightarrow> string list \<times> network" where
  "collect_subtree_users sid n =
     (let gone = subtree_loop (hm_values (net_servers n)) [sid];
          n1 = n\<lparr>net_servers := fold hm_remove gone (net_servers n)\<rparr>
      in (map ru_uuid (filter (\<lambda>u. ru_sid u \<in> set gone) (hm_values (net_users n1))), n1))"

definition split_server_detailed :: "string \<Rightarrow> network \<Rightarrow> remote_user list \<times> network" where
  "split_server_detailed sid n =
     (case collect_subtree_users sid n of (uuids, n1) \<Rightarrow>
        foldl (\<lambda>(us, m) uuid. case net_remove_user uuid m of
            (Some u, m') \<Rightarrow> (us @ [u], m') | (None, m') \<Rightarrow> (us, m')) ([], n1) uuids)"

definition split_server :: "string \<Rightarrow> network \<Rightarrow> string list \<times> network" where
  "split_server sid n =
     (let gone = subtree_loop (hm_values (net_servers n)) [sid];
          n1 = n\<lparr>net_servers := fold hm_remove gone (net_servers n)\<rparr>;
          lost = map ru_uuid (filter (\<lambda>u. ru_sid u \<in> set gone) (hm_values (net_users n1)))
      in (lost, fold (\<lambda>uuid m. snd (net_remove_user uuid m)) lost n1))"

section \<open>Minted identifiers\<close>

lemma uid_alphabet: "d < 36 \<Longrightarrow> is_idchar (UID_ALPHABET ! d)"
proof -
  have "list_all is_idchar UID_ALPHABET" by code_simp
  moreover assume "d < 36"
  ultimately show ?thesis by (simp add: list_all_length)
qed

lemma uid_alphabet_inj: "d < 36 \<Longrightarrow> e < 36 \<Longrightarrow> UID_ALPHABET ! d = UID_ALPHABET ! e \<Longrightarrow> d = e"
proof -
  have "distinct UID_ALPHABET" by code_simp
  moreover assume "d < 36" "e < 36" "UID_ALPHABET ! d = UID_ALPHABET ! e"
  ultimately show ?thesis by (simp add: nth_eq_iff_index_eq)
qed

lemma uid_digits_shape: "length (uid_digits k n) = k \<and> list_all is_idchar (uid_digits k n)"
  by (induction k arbitrary: n) (auto simp: uid_alphabet simp del: nth_Cons_numeral)

lemma uid_digits_inj:
  "m < 36 ^ k \<Longrightarrow> n < 36 ^ k \<Longrightarrow> uid_digits k m = uid_digits k n \<Longrightarrow> m = n"
proof (induction k arbitrary: m n)
  case 0
  then show ?case by simp
next
  case (Suc k)
  then have "uid_digits k (m div 36) = uid_digits k (n div 36)"
    and last: "UID_ALPHABET ! (m mod 36) = UID_ALPHABET ! (n mod 36)" by simp_all
  moreover have "m div 36 < 36 ^ k" "n div 36 < 36 ^ k" using Suc.prems by auto
  ultimately have "m div 36 = n div 36" using Suc.IH by blast
  moreover have "m mod 36 = n mod 36" using last by (intro uid_alphabet_inj) simp_all
  ultimately show ?case by (metis div_mult_mod_eq)
qed

lemma next_uid_valid: "valid_uid (fst (next_uid n))"
  using uid_digits_shape [of 6] by (simp add: next_uid_def valid_uid_def)

lemma idchar_boundary: "is_idchar c \<Longrightarrow> \<not> is_cont c"
  by (auto simp: is_idchar_def is_cont_def is_upper_def is_digit_def)

lemma valid_uuid_compose:
  assumes "valid_sid sid" "valid_uid uid"
  shows "valid_uuid (sid @ uid) = Some True"
proof -
  have len: "length sid = 3" "length uid = 6" using assms by (simp_all add: valid_sid_def valid_uid_def)
  moreover have "\<not> is_cont (uid ! 0)"
    using assms(2) by (intro idchar_boundary) (simp add: valid_uid_def list_all_length)
  ultimately show ?thesis
    using assms by (simp add: valid_uuid_def is_char_boundary_def nth_append)
qed

text \<open>Every local identifier in the table was minted from an earlier value of the counter.\<close>

definition uuids_inv :: "network \<Rightarrow> bool" where
  "uuids_inv n \<longleftrightarrow> hm_wf (local_uuids n) \<and> unat (net_next_uid n) \<le> 36 ^ 6
     \<and> (\<exists>f. (\<forall>i u. hm_get (local_uuids n) i = Some u \<longrightarrow>
              u = net_sid n @ uid_digits 6 (f i) \<and> f i < unat (net_next_uid n))
          \<and> inj_on f (dom (map_of (local_uuids n))))"

lemma uuids_inv_inj:
  assumes "uuids_inv n" "hm_get (local_uuids n) i = Some u" "hm_get (local_uuids n) j = Some u"
  shows "i = j"
proof -
  from assms(1) obtain f where f: "\<And>i u. hm_get (local_uuids n) i = Some u \<Longrightarrow>
      u = net_sid n @ uid_digits 6 (f i) \<and> f i < unat (net_next_uid n)"
    and inj: "inj_on f (dom (map_of (local_uuids n)))" and le: "unat (net_next_uid n) \<le> 36 ^ 6"
    by (auto simp: uuids_inv_def)
  have "f i < 36 ^ 6" "f j < 36 ^ 6" "uid_digits 6 (f i) = uid_digits 6 (f j)"
    using f [OF assms(2)] f [OF assms(3)] le by auto
  then have "f i = f j" by (intro uid_digits_inj)
  then show ?thesis using inj assms by (auto simp: inj_on_def)
qed

lemma uuids_inv_mint:
  assumes inv: "uuids_inv n" and room: "unat (net_next_uid n) < 36 ^ 6"
  shows "uuids_inv (snd (uuid_for_local i n))"
proof (cases "hm_get (local_uuids n) i")
  case None
  from inv obtain f where f: "\<And>i u. hm_get (local_uuids n) i = Some u \<Longrightarrow>
      u = net_sid n @ uid_digits 6 (f i) \<and> f i < unat (net_next_uid n)"
    and inj: "inj_on f (dom (map_of (local_uuids n)))" and wf: "hm_wf (local_uuids n)"
    by (auto simp: uuids_inv_def)
  have suc: "unat (net_next_uid n + 1) = Suc (unat (net_next_uid n))"
    using room by (simp add: unat_word_ariths)
  let ?g = "f (i := unat (net_next_uid n))"
  have "\<forall>j u. hm_get (hm_insert i (net_sid n @ uid_digits 6 (unat (net_next_uid n))) (local_uuids n)) j = Some u
      \<longrightarrow> u = net_sid n @ uid_digits 6 (?g j) \<and> ?g j < Suc (unat (net_next_uid n))"
    using f by (auto simp: hm_simps less_Suc_eq)
  moreover have "inj_on ?g (dom (map_of (hm_insert i (net_sid n @ uid_digits 6 (unat (net_next_uid n))) (local_uuids n))))"
    using inj f None by (fastforce simp: inj_on_def hm_simps dom_def split: if_splits)
  ultimately show ?thesis
    using None wf room unfolding uuids_inv_def
    by (intro conjI exI [of _ ?g]) (simp_all add: uuid_for_local_def next_uid_def Let_def suc)
qed (use inv in \<open>simp add: uuid_for_local_def\<close>)

section \<open>A split takes the whole subtree\<close>

definition via_rel :: "remote_server list \<Rightarrow> (string \<times> string) set" where
  "via_rel srvs = {(rs_via s, rs_sid s) | s. s \<in> set srvs}"

lemma subtree_loop_reach: "set (subtree_loop srvs gone) = (via_rel srvs)\<^sup>* `` set gone"
proof (induction srvs gone rule: subtree_loop.induct)
  case (1 srvs gone)
  have hops: "set (behind srvs gone) \<subseteq> (via_rel srvs)\<^sup>* `` set gone"
    by (auto simp: behind_def via_rel_def intro!: r_into_rtrancl)
  show ?case
  proof (cases "behind srvs gone = []")
    case True
    then have closed: "\<And>x y. x \<in> set gone \<Longrightarrow> (x, y) \<in> via_rel srvs \<Longrightarrow> y \<in> set gone"
      by (auto simp: behind_def via_rel_def filter_empty_conv)
    have "y \<in> set gone" if "(x, y) \<in> (via_rel srvs)\<^sup>*" "x \<in> set gone" for x y
      using that by (induction rule: rtrancl_induct) (auto intro: closed)
    with True show ?thesis by (subst subtree_loop.simps) auto
  next
    case False
    then have "set (subtree_loop srvs gone) = (via_rel srvs)\<^sup>* `` set (gone @ behind srvs gone)"
      using 1 by (subst subtree_loop.simps) (simp add: Let_def)
    also have "\<dots> = (via_rel srvs)\<^sup>* `` set gone"
      using hops by (auto intro: rtrancl_trans)
    finally show ?thesis .
  qed
qed

lemma fold_remove_get: "hm_get (fold hm_remove ks m) k = (if k \<in> set ks then None else hm_get m k)"
  by (induction ks arbitrary: m) (auto simp: hm_simps)

lemma net_remove_user_users:
  "hm_get (net_users (snd (net_remove_user u n))) k = (if k = u then None else hm_get (net_users n) k)"
  by (auto simp: net_remove_user_def Let_def hm_simps split: option.splits)

lemma net_remove_user_servers [simp]: "net_servers (snd (net_remove_user u n)) = net_servers n"
  by (auto simp: net_remove_user_def Let_def split: option.splits)

lemma fold_remove_users:
  "hm_get (net_users (fold (\<lambda>u m. snd (net_remove_user u m)) us n)) k
     = (if k \<in> set us then None else hm_get (net_users n) k)"
  "net_servers (fold (\<lambda>u m. snd (net_remove_user u m)) us n) = net_servers n"
  by (induction us arbitrary: n) (auto simp: net_remove_user_users)

section \<open>The nickname index\<close>

text \<open>
  Tables are keyed by the identifier their entries carry, and every entry of the nickname index
  leads to a user that bears this nickname.
\<close>

definition net_inv :: "network \<Rightarrow> bool" where
  "net_inv n \<longleftrightarrow> hm_wf (net_users n) \<and> hm_wf (net_servers n) \<and> hm_wf (nick_index n)
     \<and> (\<forall>k u. hm_get (net_users n) k = Some u \<longrightarrow> ru_uuid u = k)
     \<and> (\<forall>k s. hm_get (net_servers n) k = Some s \<longrightarrow> rs_sid s = k)
     \<and> (\<forall>k v. hm_get (nick_index n) k = Some v \<longrightarrow>
          (\<exists>u. hm_get (net_users n) v = Some u \<and> ru_nick_key u = k))"

lemma net_inv_new: "net_inv (network_new sid)"
  by (simp add: net_inv_def network_new_def)

lemma net_inv_add_user:
  assumes "net_inv n" and "\<And>v. hm_get (net_users n) (ru_uuid u) = Some v \<Longrightarrow> ru_nick_key v = ru_nick_key u"
  shows "net_inv (add_user u n)"
  using assms by (fastforce simp: net_inv_def add_user_def hm_simps)

lemma net_inv_remove_user: "net_inv n \<Longrightarrow> net_inv (snd (net_remove_user uuid n))"
  by (fastforce simp: net_inv_def net_remove_user_def Let_def hm_simps split: option.splits)

lemma net_inv_rename: "net_inv n \<Longrightarrow> net_inv (snd (rename_user uuid nick key n))"
  by (fastforce simp: net_inv_def rename_user_def upd_user_def Let_def hm_simps split: option.splits)

lemma net_inv_add_server: "net_inv n \<Longrightarrow> net_inv (add_server s n)"
  by (auto simp: net_inv_def add_server_def hm_simps)

lemma hm_wf_fold_remove: "hm_wf m \<Longrightarrow> hm_wf (fold hm_remove ks m)"
  by (induction ks arbitrary: m) auto

lemma net_inv_fold_remove: "net_inv n \<Longrightarrow> net_inv (fold (\<lambda>u m. snd (net_remove_user u m)) us n)"
  by (induction us arbitrary: n) (auto simp: net_inv_remove_user)

lemma net_inv_split: "net_inv n \<Longrightarrow> net_inv (snd (split_server sid n))"
  unfolding split_server_def Let_def snd_conv
  by (rule net_inv_fold_remove) (auto simp: net_inv_def fold_remove_get hm_wf_fold_remove)

lemma by_nick_key: "net_inv n \<Longrightarrow> by_nick n k = Some u \<Longrightarrow> ru_nick_key u = k"
  by (fastforce simp: net_inv_def by_nick_def split: option.splits)

end
