(* ===== verification/Link.thy ===== *)
theory Link
  imports Proto Network Casemap
begin

text \<open>
  The server link session of \<^verbatim>\<open>src/link.rs\<close>: one inbound line is turned into events
  for the server and lines for the peer. A panic (slicing inside a character, see
  \<^const>\<open>valid_uuid\<close>) is the result \<open>None\<close>.
\<close>

section \<open>State and events\<close>

datatype phase = Capab | Bursting | Linked | Dead

record link_config =
  lc_sid :: string
  lc_name :: string
  lc_desc :: string
  send_password :: string
  recv_password :: string

datatype event =
    PeerRegistered string string string
  | ServerIntroduced string string string string
  | UserIntroduced remote_user
  | UserQuit string string
  | NickChanged string string
  | ChannelJoin string u64 string "(string \<times> string) list"
  | RemoteJoin string string
  | RemotePart string string string
  | Message string string string bool
  | ModeChange string u64 "string list"
  | TopicChanged string u64 string string
  | Away string "string option"
  | BurstComplete
  | ServerSplit string string
  | LinkFailed string

record link_session =
  ls_cfg :: link_config
  ls_phase :: phase
  peer_sid :: "string option"
  peer_name :: "string option"
  outbound_link :: bool
  sent_server :: bool
  sent_burst :: bool
  ls_out :: "string list"

abbreviation PROTO_VERSION :: string where "PROTO_VERSION \<equiv> ''1205''"

definition link_new :: "link_config \<Rightarrow> bool \<Rightarrow> link_session" where
  "link_new cfg outb = \<lparr>ls_cfg = cfg, ls_phase = Capab, peer_sid = None, peer_name = None,
     outbound_link = outb, sent_server = False, sent_burst = False, ls_out = []\<rparr>"

section \<open>Sending\<close>

definition link_send :: "string \<Rightarrow> link_session \<Rightarrow> link_session" where
  "link_send l s = s\<lparr>ls_out := ls_out s @ [l]\<rparr>"

definition take_outbound :: "link_session \<Rightarrow> string list \<times> link_session" where
  "take_outbound s = (ls_out s, s\<lparr>ls_out := []\<rparr>)"

definition send_capab :: "link_session \<Rightarrow> link_session" where
  "send_capab s = link_send ''CAPAB END''
     (link_send (''CAPAB CAPABILITIES :NICKMAX=30 CHANMAX=50 MAXMODES=20 IDENTMAX=10 ''
        @ ''MAXQUIT=255 MAXTOPIC=390 MAXKICK=255 MAXREAL=128 MAXAWAY=200 MAXHOST=64 MAXLINE=512'')
     (link_send (''CAPAB START '' @ PROTO_VERSION) s))"

definition server_line :: "link_config \<Rightarrow> string" where
  "server_line cfg = ''SERVER '' @ lc_name cfg @ '' '' @ send_password cfg @ '' 0 '' @ lc_sid cfg
     @ '' :'' @ lc_desc cfg"

definition send_server :: "link_session \<Rightarrow> link_session" where
  "send_server s = (if sent_server s then s
     else link_send (server_line (ls_cfg s)) (s\<lparr>sent_server := True\<rparr>))"

definition link_begin :: "link_session \<Rightarrow> link_session" where
  "link_begin s = (let s1 = send_capab s in if outbound_link s1 then send_server s1 else s1)"

definition send_burst :: "u64 \<Rightarrow> string list \<Rightarrow> string list \<Rightarrow> link_session \<Rightarrow> link_session" where
  "send_burst now users channels s =
     (if sent_burst s then s
      else
        let sid = lc_sid (ls_cfg s);
            s1 = s\<lparr>sent_burst := True\<rparr>;
            s2 = link_send ('':'' @ sid @ '' BURST '' @ show_nat (unat now)) s1;
            s3 = link_send ('':'' @ sid @ '' SINFO version :'' @ VERSION @ '' '' @ lc_name (ls_cfg s) @ '' :'') s2
        in link_send ('':'' @ sid @ '' ENDBURST'') (fold link_send channels (fold link_send users s3)))"

section \<open>Receiving\<close>

definition str_default :: "string option \<Rightarrow> string" where
  "str_default x = opt_default [] x"

definition eq_ignore_case :: "string \<Rightarrow> string \<Rightarrow> bool" where
  "eq_ignore_case a b \<longleftrightarrow> lower a = lower b"

definition u64_or_zero :: "string \<Rightarrow> u64" where
  "u64_or_zero s = word_of_nat (opt_default 0 (parse_u64 s))"

definition on_capab :: "command \<Rightarrow> link_session \<Rightarrow> event list \<times> link_session" where
  "on_capab c s =
     ([], if (case cmd_params c of p # _ \<Rightarrow> eq_ignore_case p ''START'' | [] \<Rightarrow> False)
             \<and> \<not> outbound_link s \<and> \<not> sent_server s
          then send_server s else s)"

text \<open>The parameter before the description that looks like a server id: the fourth, else the
  third, else the empty string.\<close>

definition handshake_sid :: "string list \<Rightarrow> string" where
  "handshake_sid ps = str_default
     (case nth_opt ps 3 of
        Some x \<Rightarrow> if valid_sid x then Some x
          else (case nth_opt ps 2 of Some y \<Rightarrow> if valid_sid y then Some y else None | None \<Rightarrow> None)
      | None \<Rightarrow> (case nth_opt ps 2 of Some y \<Rightarrow> if valid_sid y then Some y else None | None \<Rightarrow> None))"

definition on_server :: "command \<Rightarrow> string \<Rightarrow> link_session \<Rightarrow> event list \<times> link_session" where
  "on_server c source s =
     (let ps = cmd_params c; desc = str_default (last_opt ps); name = str_default (first_opt ps)
      in if source \<noteq> [] \<and> peer_sid s \<noteq> None then
           (let sid = str_default (List.find valid_sid (drop 1 ps))
            in (if sid = [] then [] else [ServerIntroduced sid name desc source], s))
         else
           let pass = str_default (nth_opt ps 1);
               sid = handshake_sid ps
           in if pass \<noteq> recv_password (ls_cfg s) then
                ([LinkFailed ''link password mismatch''],
                 link_send ''ERROR :Link password mismatch'' (s\<lparr>ls_phase := Dead\<rparr>))
              else if \<not> valid_sid sid then
                ([LinkFailed (''invalid SID '' @ [CHR 0x22] @ sid @ [CHR 0x22])],
                 link_send ''ERROR :Invalid SID'' (s\<lparr>ls_phase := Dead\<rparr>))
              else
                let s1 = s\<lparr>peer_sid := Some sid, peer_name := Some name, ls_phase := Bursting\<rparr>
                in ([PeerRegistered sid name desc],
                    if \<not> outbound_link s1 then send_server s1 else s1))"

definition on_uid :: "command \<Rightarrow> string \<Rightarrow> event list option" where
  "on_uid c source =
     (let ps = cmd_params c
      in if length ps < 10 then Some []
         else case valid_uuid (ps ! 0) of
           None \<Rightarrow> None
         | Some False \<Rightarrow> Some []
         | Some True \<Rightarrow> Some [UserIntroduced
             \<lparr>ru_uuid = ps ! 0, ru_sid = (if source = [] then take 3 (ps ! 0) else source),
              ru_nick = ps ! 2, ru_nick_key = norm_nick (ps ! 2), ru_user = ps ! 5,
              ru_host = ps ! 4, ru_real_host = ps ! 3, ru_realname = str_default (last_opt ps),
              ru_ts = u64_or_zero (ps ! 1), ru_modes = ps ! 8, ru_chans = {}, ru_away = None,
              ru_oper = False\<rparr>])"

definition on_nick :: "command \<Rightarrow> string \<Rightarrow> event list" where
  "on_nick c source = (case cmd_params c of
     n # _ \<Rightarrow> if source \<noteq> [] then [NickChanged source n] else [] | [] \<Rightarrow> [])"

fun parse_members_loop :: "string list \<Rightarrow> (string \<times> string) list option" where
  "parse_members_loop [] = Some []"
| "parse_members_loop (entry # es) =
     (case split_once (CHR '','') entry of
        None \<Rightarrow> parse_members_loop es
      | Some (prefixes, rest) \<Rightarrow>
          (let uuid = hd (split_on (CHR '':'') rest)
           in case valid_uuid uuid of
                None \<Rightarrow> None
              | Some ok \<Rightarrow> map_option (\<lambda>ms. if ok then (prefixes, uuid) # ms else ms)
                             (parse_members_loop es)))"

definition parse_members :: "string \<Rightarrow> (string \<times> string) list option" where
  "parse_members l = parse_members_loop (filter (\<lambda>e. e \<noteq> []) (split_on (CHR '' '') l))"

definition on_fjoin :: "command \<Rightarrow> event list option" where
  "on_fjoin c =
     (let ps = cmd_params c
      in if length ps < 4 then Some []
         else map_option (\<lambda>ms. [ChannelJoin (ps ! 0) (u64_or_zero (ps ! 1)) (ps ! 2) ms])
                (parse_members (str_default (last_opt ps))))"

definition on_ijoin :: "command \<Rightarrow> string \<Rightarrow> event list" where
  "on_ijoin c source = (case cmd_params c of
     ch # _ \<Rightarrow> if source \<noteq> [] then [RemoteJoin ch source] else [] | [] \<Rightarrow> [])"

definition on_message :: "command \<Rightarrow> string \<Rightarrow> event list" where
  "on_message c source =
     (let ps = cmd_params c
      in if length ps < 2 \<or> source = [] then []
         else [Message source (ps ! 0) (ps ! 1) (cmd_name c = ''NOTICE'')])"

definition on_fmode :: "command \<Rightarrow> event list" where
  "on_fmode c =
     (let ps = cmd_params c
      in if length ps < 3 then [] else [ModeChange (ps ! 0) (u64_or_zero (ps ! 1)) (drop 2 ps)])"

definition on_ftopic :: "command \<Rightarrow> string \<Rightarrow> event list" where
  "on_ftopic c source =
     (let ps = cmd_params c
      in if length ps < 4 then []
         else [TopicChanged (ps ! 0) (u64_or_zero (ps ! 2)) (if 4 < length ps then ps ! 3 else source)
                 (str_default (last_opt ps))])"

definition on_ping :: "command \<Rightarrow> string \<Rightarrow> link_session \<Rightarrow> link_session" where
  "on_ping c source s =
     (let ps = cmd_params c;
          from' = opt_default source (first_opt ps);
          to' = opt_default (lc_sid (ls_cfg s)) (nth_opt ps 1)
      in link_send ('':'' @ to' @ '' PONG '' @ to' @ '' '' @ from') s)"

definition handle_line :: "string \<Rightarrow> link_session \<Rightarrow> (event list \<times> link_session) option" where
  "handle_line raw s =
     (if ls_phase s = Dead then Some ([], s)
      else if starts_with ''ERROR'' raw then
        Some ([LinkFailed (case split_once (CHR '':'') raw of Some (_, r) \<Rightarrow> r | None \<Rightarrow> [])],
              s\<lparr>ls_phase := Dead\<rparr>)
      else case proto_parse raw of
        None \<Rightarrow> Some ([], s)
      | Some c \<Rightarrow>
        (let source = str_default (cmd_prefix c);
             name = cmd_name c;
             p0 = str_default (first_opt (cmd_params c));
             p1 = str_default (nth_opt (cmd_params c) 1)
         in if name = ''CAPAB'' then Some (on_capab c s)
            else if name = ''SERVER'' then Some (on_server c source s)
            else if name = ''BURST'' then Some ([], s)
            else if name = ''ENDBURST'' then
              Some ([BurstComplete], if ls_phase s = Bursting then s\<lparr>ls_phase := Linked\<rparr> else s)
            else if name = ''UID'' then map_option (\<lambda>es. (es, s)) (on_uid c source)
            else if name = ''QUIT'' then Some ([UserQuit source p0], s)
            else if name = ''NICK'' then Some (on_nick c source, s)
            else if name = ''FJOIN'' then map_option (\<lambda>es. (es, s)) (on_fjoin c)
            else if name = ''IJOIN'' then Some (on_ijoin c source, s)
            else if name = ''PART'' then Some ([RemotePart p0 source p1], s)
            else if name = ''PRIVMSG'' \<or> name = ''NOTICE'' then Some (on_message c source, s)
            else if name = ''FMODE'' then Some (on_fmode c, s)
            else if name = ''FTOPIC'' then Some (on_ftopic c source, s)
            else if name = ''AWAY'' then
              Some ([Away source (case first_opt (cmd_params c) of
                        Some r \<Rightarrow> if r \<noteq> [] then Some r else None | None \<Rightarrow> None)], s)
            else if name = ''PING'' then Some ([], on_ping c source s)
            else if name = ''SQUIT'' then Some ([ServerSplit p0 p1], s)
            else Some ([], s)))"

section \<open>Rendering\<close>

definition uid_line ::
    "string \<Rightarrow> string \<Rightarrow> u64 \<Rightarrow> string \<Rightarrow> string \<Rightarrow> string \<Rightarrow> string \<Rightarrow> string \<Rightarrow> u64 \<Rightarrow> string \<Rightarrow> string
       \<Rightarrow> string" where
  "uid_line sid uuid nick_ts nick real_host display_host ident ip signon_ts modes realname =
     '':'' @ sid @ '' UID '' @ uuid @ '' '' @ show_nat (unat nick_ts) @ '' '' @ nick @ '' '' @ real_host
       @ '' '' @ display_host @ '' '' @ ident @ '' '' @ ip @ '' '' @ show_nat (unat signon_ts) @ '' ''
       @ modes @ '' :'' @ realname"

definition fjoin_line_with_params ::
    "string \<Rightarrow> string \<Rightarrow> u64 \<Rightarrow> string \<Rightarrow> string list \<Rightarrow> (string \<times> string) list \<Rightarrow> string" where
  "fjoin_line_with_params sid chan ts modes mode_params members =
     (let lst = join_with '' '' (map (\<lambda>(p, u). p @ '','' @ u) members);
          params = (if mode_params = [] then [] else '' '' @ join_with '' '' mode_params)
      in '':'' @ sid @ '' FJOIN '' @ chan @ '' '' @ show_nat (unat ts) @ '' '' @ modes @ params
           @ '' :'' @ lst)"

definition fjoin_line :: "string \<Rightarrow> string \<Rightarrow> u64 \<Rightarrow> string \<Rightarrow> (string \<times> string) list \<Rightarrow> string" where
  "fjoin_line sid chan ts modes members = fjoin_line_with_params sid chan ts modes [] members"

section \<open>Authentication\<close>

lemma link_send_same [simp]:
  "ls_phase (link_send l s) = ls_phase s" "peer_sid (link_send l s) = peer_sid s"
  "ls_cfg (link_send l s) = ls_cfg s" "sent_server (link_send l s) = sent_server s"
  "outbound_link (link_send l s) = outbound_link s" "sent_burst (link_send l s) = sent_burst s"
  by (simp_all add: link_send_def)

lemma send_server_same [simp]:
  "ls_phase (send_server s) = ls_phase s" "peer_sid (send_server s) = peer_sid s"
  "ls_cfg (send_server s) = ls_cfg s" "outbound_link (send_server s) = outbound_link s"
  by (simp_all add: send_server_def)

lemma fold_link_send [simp]:
  "ls_phase (fold link_send ls s) = ls_phase s" "peer_sid (fold link_send ls s) = peer_sid s"
  "ls_cfg (fold link_send ls s) = ls_cfg s" "sent_server (fold link_send ls s) = sent_server s"
  "ls_out (fold link_send ls s) = ls_out s @ ls"
  by (induction ls arbitrary: s) (simp_all, simp add: link_send_def)

text \<open>A line that carries the password this server expects, and a valid server id.\<close>

definition authenticates :: "link_config \<Rightarrow> string \<Rightarrow> bool" where
  "authenticates cfg raw = (case proto_parse raw of
     None \<Rightarrow> False
   | Some c \<Rightarrow> cmd_name c = ''SERVER'' \<and> str_default (nth_opt (cmd_params c) 1) = recv_password cfg
       \<and> list_ex valid_sid (cmd_params c))"

lemma nth_opt_in: "nth_opt xs i = Some x \<Longrightarrow> x \<in> set xs"
  by (auto simp: nth_opt_def split: if_splits)

lemma valid_sid_ne [simp]: "\<not> valid_sid []"
  by (simp add: valid_sid_def)

lemma handshake_sid_in: "valid_sid (handshake_sid ps) \<Longrightarrow> handshake_sid ps \<in> set ps"
  by (auto simp: handshake_sid_def str_default_def dest: nth_opt_in split: option.splits if_splits)

lemma on_server_phase:
  assumes "on_server c source s = (evs, s')"
  shows "(ls_phase s' = ls_phase s \<and> peer_sid s' = peer_sid s) \<or> ls_phase s' = Dead
    \<or> (ls_phase s' = Bursting \<and> (\<exists>sid. peer_sid s' = Some sid \<and> valid_sid sid \<and> sid \<in> set (cmd_params c))
       \<and> str_default (nth_opt (cmd_params c) 1) = recv_password (ls_cfg s))"
    and "ls_cfg s' = ls_cfg s"
  using assms handshake_sid_in [of "cmd_params c"]
  by (auto simp: on_server_def Let_def split: if_splits)

lemma handle_line_result:
  assumes "handle_line raw s = Some (evs, s')"
  shows "s' = s \<or> ls_phase s' = Dead \<and> ls_cfg s' = ls_cfg s \<or> s' = send_server s
     \<or> s' = s\<lparr>ls_phase := Linked\<rparr> \<and> ls_phase s = Bursting \<or> (\<exists>l. s' = link_send l s)
     \<or> (\<exists>c. proto_parse raw = Some c \<and> cmd_name c = ''SERVER''
           \<and> on_server c (str_default (cmd_prefix c)) s = (evs, s'))"
proof (cases "ls_phase s = Dead \<or> starts_with ''ERROR'' raw \<or> proto_parse raw = None")
  case True
  then show ?thesis using assms by (auto simp: handle_line_def split: if_splits)
next
  case False
  then obtain c where c: "proto_parse raw = Some c" by blast
  have split: "(if P then Some x else y) = Some z \<longleftrightarrow> (P \<and> x = z) \<or> (\<not> P \<and> y = Some z)"
    "(if P then map_option f w else y) = Some z \<longleftrightarrow> (P \<and> map_option f w = Some z) \<or> (\<not> P \<and> y = Some z)"
    for P and x y z and f :: "event list \<Rightarrow> event list \<times> link_session" and w by auto
  show ?thesis
    using assms False c unfolding handle_line_def Let_def on_capab_def on_ping_def
    apply (simp only: split if_False option.simps de_Morgan_disj if_not_P)
    apply (elim disjE conjE)
    apply (simp_all split: if_splits)
    apply blast+
    done
qed

lemma handle_line_phase:
  assumes h: "handle_line raw s = Some (evs, s')"
  shows "(ls_phase s' = ls_phase s \<and> peer_sid s' = peer_sid s) \<or> ls_phase s' = Dead
    \<or> (ls_phase s = Bursting \<and> ls_phase s' = Linked \<and> peer_sid s' = peer_sid s)
    \<or> (ls_phase s' = Bursting \<and> (\<exists>sid. peer_sid s' = Some sid \<and> valid_sid sid)
       \<and> authenticates (ls_cfg s) raw)"
    and "ls_cfg s' = ls_cfg s"
  by (use handle_line_result [OF h] in \<open>auto simp: authenticates_def list_ex_iff dest!: on_server_phase(1)\<close>,
      use handle_line_result [OF h] in \<open>auto dest: on_server_phase(2)\<close>)

text \<open>
  The life of a session: it is created, begun, fed lines, asked for its output and told to send
  its burst. The list records the lines received.
\<close>

inductive link_reach :: "link_config \<Rightarrow> bool \<Rightarrow> string list \<Rightarrow> link_session \<Rightarrow> bool" for cfg outb where
  link_created: "link_reach cfg outb [] (link_begin (link_new cfg outb))"
| link_received: "link_reach cfg outb hist s \<Longrightarrow> handle_line raw s = Some (evs, s') \<Longrightarrow>
    link_reach cfg outb (raw # hist) s'"
| link_drained: "link_reach cfg outb hist s \<Longrightarrow> link_reach cfg outb hist (snd (take_outbound s))"
| link_burst: "link_reach cfg outb hist s \<Longrightarrow> link_reach cfg outb hist (send_burst now us chs s)"

lemma send_burst_same [simp]:
  "ls_phase (send_burst now us chs s) = ls_phase s" "peer_sid (send_burst now us chs s) = peer_sid s"
  "ls_cfg (send_burst now us chs s) = ls_cfg s" "sent_server (send_burst now us chs s) = sent_server s"
  by (simp_all add: send_burst_def Let_def)

lemma link_reach_authenticated:
  assumes "link_reach cfg outb hist s"
  shows "ls_cfg s = cfg \<and> (ls_phase s = Bursting \<or> ls_phase s = Linked \<longrightarrow>
    (\<exists>sid. peer_sid s = Some sid \<and> valid_sid sid) \<and> list_ex (authenticates cfg) hist)"
  using assms
proof (induction rule: link_reach.induct)
  case link_created
  show ?case
    by (simp add: link_begin_def link_new_def send_capab_def Let_def send_server_def)
next
  case (link_received hist s raw evs s')
  then show ?case using handle_line_phase [OF link_received(2)] by auto
qed (simp_all add: take_outbound_def)

lemma handle_line_dead: "ls_phase s = Dead \<Longrightarrow> handle_line raw s = Some ([], s)"
  by (simp add: handle_line_def)

section \<open>What a burst line means to the peer\<close>

definition member_ok :: "string \<times> string \<Rightarrow> bool" where
  "member_ok m = (case m of (p, u) \<Rightarrow> list_all is_lower p \<and> valid_uuid u = Some True)"

lemma valid_uuid_chars: "valid_uuid u = Some True \<Longrightarrow> list_all is_idchar u \<and> length u = 9"
proof -
  assume v: "valid_uuid u = Some True"
  then have "length u = 9" "valid_sid (take 3 u)" "valid_uid (drop 3 u)"
    by (auto simp: valid_uuid_def split: if_splits)
  moreover have "list_all is_idchar (take 3 u)"
    using \<open>valid_sid (take 3 u)\<close>
    by (cases "take 3 u") (auto simp: valid_sid_def is_idchar_def)
  moreover have "list_all is_idchar (drop 3 u)"
    using \<open>valid_uid (drop 3 u)\<close> by (simp add: valid_uid_def)
  ultimately show ?thesis by (metis append_take_drop_id list_all_append)
qed

lemma member_ok_chars:
  assumes "member_ok (p, u)"
  shows "CHR '','' \<notin> set p" "CHR '':'' \<notin> set u" "CHR '' '' \<notin> set p" "CHR '' '' \<notin> set u"
  using assms valid_uuid_chars [of u]
  by (auto simp: member_ok_def list_all_iff is_lower_def is_idchar_def is_upper_def is_digit_def)

lemma parse_members_loop_all:
  "list_all member_ok ms \<Longrightarrow> parse_members_loop (map (\<lambda>(p, u). p @ '','' @ u) ms) = Some ms"
proof (induction ms)
  case Nil
  then show ?case by simp
next
  case (Cons m ms)
  obtain p u where m: "m = (p, u)" by (cases m)
  then have ok: "member_ok (p, u)" using Cons.prems by simp
  have "split_once (CHR '','') (p @ '','' @ u) = Some (p, u)"
    using split_once_append [OF member_ok_chars(1) [OF ok]] by simp
  moreover have "split_on (CHR '':'') u = [u]" using member_ok_chars(2) [OF ok] by (rule split_on_none)
  moreover have "valid_uuid u = Some True" using ok by (simp add: member_ok_def)
  moreover have "parse_members_loop (map (\<lambda>(p, u). p @ '','' @ u) ms) = Some ms" using Cons by simp
  ultimately show ?case using m by (simp add: Let_def)
qed

lemma parse_members_render:
  assumes ms: "list_all member_ok ms"
  shows "parse_members (join_with '' '' (map (\<lambda>(p, u). p @ '','' @ u) ms)) = Some ms"
proof (cases "ms = []")
  case True
  then show ?thesis by (simp add: parse_members_def)
next
  case False
  let ?es = "map (\<lambda>(p, u). p @ '','' @ u) ms"
  have "CHR '' '' \<notin> set e" if "e \<in> set ?es" for e
  proof -
    from that obtain p u where "(p, u) \<in> set ms" and e: "e = p @ '','' @ u" by auto
    then have ok: "member_ok (p, u)" using ms by (auto simp: list_all_iff)
    show ?thesis using e member_ok_chars(3,4) [OF ok] by simp
  qed
  moreover have "?es \<noteq> []" using False by simp
  ultimately have "split_on (CHR '' '') (join_with '' '' ?es) = ?es" by (intro split_join)
  moreover have "filter (\<lambda>e. e \<noteq> []) ?es = ?es" by (auto simp: filter_id_conv)
  ultimately show ?thesis
    using parse_members_loop_all [OF ms] by (simp add: parse_members_def)
qed

text \<open>
  The introduction of a user, and of a channel, means to the receiving session exactly what the
  sender put in it.
\<close>

lemma show_nat_middle: "middle_ok (show_nat n)"
proof -
  have "\<And>c. is_digit c \<Longrightarrow> not_ws c \<and> c \<noteq> CHR '':''" by (auto simp: is_digit_def is_ws_def)
  then show ?thesis
    using show_nat_digits [of n] show_nat_ne [of n] hd_in_set [OF show_nat_ne, of n]
    by (auto simp: middle_ok_def list_all_iff)
qed

lemma u64_or_zero_show [simp]: "u64_or_zero (show_nat (unat w)) = (w :: u64)"
  using unsigned_less [of w, where 'a = nat] by (simp add: u64_or_zero_def parse_show_nat)

lemma idchars_middle: "list_all is_idchar u \<Longrightarrow> u \<noteq> [] \<Longrightarrow> middle_ok u"
  by (cases u) (auto simp: middle_ok_def list_all_iff is_idchar_def is_upper_def is_digit_def is_ws_def)

lemma valid_uuid_middle: "valid_uuid u = Some True \<Longrightarrow> middle_ok u"
  using valid_uuid_chars [of u] by (intro idchars_middle) auto

lemma sid_source_ok: "valid_sid sid \<Longrightarrow> source_ok sid \<and> sid \<noteq> []"
proof -
  assume v: "valid_sid sid"
  then obtain c cs where sid: "sid = c # cs" by (cases sid) (auto simp: valid_sid_def)
  with v have "list_all is_idchar sid" by (auto simp: valid_sid_def is_idchar_def)
  then show ?thesis
    using sid by (auto simp: source_ok_def list_all_iff is_idchar_def is_upper_def is_digit_def is_ws_def)
qed

lemma uid_line_params:
  "uid_line sid uuid nts nick rh dh ident ip sts modes realname @ crlf = proto_params ('':'' @ sid) ''UID''
     [uuid, show_nat (unat nts), nick, rh, dh, ident, ip, show_nat (unat sts), modes, '':'' @ realname]"
  by (simp add: uid_line_def proto_params_def proto_line_def needs_trailing_marker_def starts_with_def)

lemma uid_line_parse:
  fixes sid uuid nick rh dh ident ip modes realname and nts sts :: u64
  defines "l \<equiv> uid_line sid uuid nts nick rh dh ident ip sts modes realname"
  assumes "valid_sid sid" "valid_uuid uuid = Some True"
    and "list_all middle_ok [nick, rh, dh, ident, ip, modes]"
    and "length l \<le> MAX_CONTENT_BYTES" "CHR 0x00 \<notin> set l"
  shows "proto_parse l = Some \<lparr>cmd_prefix = Some sid, cmd_name = ''UID'',
    cmd_params = [uuid, show_nat (unat nts), nick, rh, dh, ident, ip, show_nat (unat sts), modes, realname],
    cmd_tags = []\<rparr>"
proof -
  let ?args = "[uuid, show_nat (unat nts), nick, rh, dh, ident, ip, show_nat (unat sts), modes, '':'' @ realname]"
  have "args_ok ?args"
    using assms(3,4) by (simp add: args_ok_def final_ok_def show_nat_middle valid_uuid_middle)
  moreover have "keyword_ok ''UID''" by (simp add: keyword_ok_def is_upper_def)
  ultimately show ?thesis
    using proto_parse_params [of sid "''UID''" ?args l] sid_source_ok [OF assms(2)] assms(5,6)
    by (simp add: l_def uid_line_params final_value_def)
qed

end
