(* ===== verification/State.thy ===== *)
theory State
  imports Chan Bans Accounts Link
begin

text \<open>
  The shared server state \<^verbatim>\<open>ServerState\<close> of \<^verbatim>\<open>src/state.rs\<close>: the tables of
  connections and channels, nickname history, reclaim markers, and the stores of the other
  components, with the operations the command handlers use.

  What the code reads from its surroundings is the record \<open>world\<close>: the two clocks (read once
  per command), the environment, the random salt of the next password and how the next file
  write ends. Writing the log is not modelled.
\<close>

section \<open>State\<close>

record hist_entry =
  old_key :: string
  new_key :: string
  hist_cx :: nat
  hist_at :: instant

abbreviation HISTORY_CAP :: nat where "HISTORY_CAP \<equiv> 512"
definition RENAME_WINDOW :: nat where "RENAME_WINDOW = from_secs 120"

record reclaim =
  rc_expiry :: instant
  rc_pairings :: "(nat \<times> string) list"
  rc_renames :: "(nat \<times> string) list"

text \<open>The sender of a link is cloned: the link task and every handle it registers send into the same
  queue. \<open>lh_chan\<close> is the address of that queue in \<open>sv_queues\<close>, the store of the link queues.\<close>

record link_handle =
  lh_sid :: string
  lh_name :: string
  lh_chan :: nat

abbreviation LINK_QUEUE :: nat where "LINK_QUEUE \<equiv> 4096"

record world =
  w_now :: instant
  w_unix :: u64
  w_millis :: nat
  w_env :: environ
  w_salt :: "u8 list"
  w_write_ok :: bool
  w_ban_write :: write_outcome

record conf =
  cf_name :: string
  cf_started_at :: instant
  oper_user :: string
  oper_pass :: string
  admin_loc1 :: string
  admin_loc2 :: string
  admin_email :: string
  listen_desc :: string
  release_notes_path :: "string option"

text \<open>The capture of the replies to the command in progress.\<close>

record reply_state =
  reply_for :: "nat option"
  reply_label :: "string option"
  reply_self_msg :: bool
  bypass_reply_capture :: bool
  reply_buf :: "string list"

record server =
  sv_world :: world
  sv_conf :: conf
  sv_users :: "(string, cx) hmap"
  sv_unreg :: "(nat, cx) hmap"
  sv_chans :: "(string, chn) hmap"
  sv_history :: "hist_entry list"
  sv_ping :: "(nat, instant) hmap"
  sv_reclaim :: "(nat, reclaim) hmap"
  sv_accounts :: account_store
  sv_chanreg :: chan_registry
  sv_total_connections :: u64
  sv_peak_users :: nat
  sv_messages_relayed :: u64
  sv_limits :: limits
  sv_sources :: source_table
  sv_bans :: ban_store
  sv_network :: network
  sv_links :: "link_handle list"
  sv_queues :: "(nat, sender) hmap"
  sv_reply :: reply_state

abbreviation sv_now :: "server \<Rightarrow> instant" where "sv_now st \<equiv> w_now (sv_world st)"
abbreviation sv_unix :: "server \<Rightarrow> u64" where "sv_unix st \<equiv> w_unix (sv_world st)"
abbreviation sv_env :: "server \<Rightarrow> environ" where "sv_env st \<equiv> w_env (sv_world st)"
abbreviation sv_name :: "server \<Rightarrow> string" where "sv_name st \<equiv> cf_name (sv_conf st)"

text \<open>\<^verbatim>\<open>ServerState::new\<close>; the arguments of type \<^typ>\<open>string option\<close> are the contents of the
  three store files, where they can be read.\<close>

definition server_new ::
    "world \<Rightarrow> string \<Rightarrow> string \<Rightarrow> string \<Rightarrow> string \<Rightarrow> string \<Rightarrow> string \<Rightarrow> string
       \<Rightarrow> string option \<Rightarrow> string option \<Rightarrow> string option \<Rightarrow> server" where
  "server_new w name ouser opass loc1 loc2 email listen accts chs kls =
     \<lparr>sv_world = w,
      sv_conf = \<lparr>cf_name = name, cf_started_at = w_now w, oper_user = ouser, oper_pass = opass,
        admin_loc1 = loc1, admin_loc2 = loc2, admin_email = email, listen_desc = listen,
        release_notes_path = w_env w ''IRC_RELEASE_NOTES_PATH''\<rparr>,
      sv_users = [], sv_unreg = [], sv_chans = [], sv_history = [], sv_ping = [], sv_reclaim = [],
      sv_accounts = acct_load (w_env w ''IRC_ACCOUNTS_PATH'') accts,
      sv_chanreg = reg_load (w_env w ''IRC_CHANNELS_PATH'') chs,
      sv_total_connections = 0, sv_peak_users = 0, sv_messages_relayed = 0,
      sv_limits = limits_default (w_env w), sv_sources = table_new,
      sv_bans = ban_load (w_env w ''IRC_BANS_PATH'') kls,
      sv_network = network_new (opt_default ''0CL'' (w_env w ''IRC_SID'')),
      sv_links = [], sv_queues = [],
      sv_reply = \<lparr>reply_for = None, reply_label = None, reply_self_msg = False,
        bypass_reply_capture = False, reply_buf = []\<rparr>\<rparr>"

definition uptime_secs :: "server \<Rightarrow> nat" where
  "uptime_secs st = (sv_now st - cf_started_at (sv_conf st)) div 1000000000"

definition sat_inc :: "u64 \<Rightarrow> u64" where
  "sat_inc x = (if x = - 1 then x else x + 1)"

definition note_connection :: "server \<Rightarrow> server" where
  "note_connection st = st\<lparr>sv_total_connections := sat_inc (sv_total_connections st)\<rparr>"

definition note_message :: "server \<Rightarrow> server" where
  "note_message st = st\<lparr>sv_messages_relayed := sat_inc (sv_messages_relayed st)\<rparr>"

definition sv_prefix :: "server \<Rightarrow> string" where
  "sv_prefix st = '':'' @ sv_name st"

section \<open>Finding connections\<close>

definition rename_hop :: "server \<Rightarrow> string \<Rightarrow> hist_entry option" where
  "rename_hop st cur = List.find (\<lambda>h. old_key h = cur \<and> sv_now st - hist_at h \<le> RENAME_WINDOW)
     (rev (sv_history st))"

fun lookup_loop :: "nat \<Rightarrow> server \<Rightarrow> string \<Rightarrow> cx option" where
  "lookup_loop 0 st cur = hm_get (sv_users st) cur"
| "lookup_loop (Suc n) st cur =
     (case hm_get (sv_users st) cur of
        Some u \<Rightarrow> Some u
      | None \<Rightarrow> (case rename_hop st cur of
          Some h \<Rightarrow> lookup_loop n st (new_key h)
        | None \<Rightarrow> None))"

definition lookup :: "server \<Rightarrow> string \<Rightarrow> cx option" where
  "lookup st key = lookup_loop 8 st key"

definition visible :: "cx \<Rightarrow> cx \<Rightarrow> bool" where
  "visible req u \<longleftrightarrow> cx_id req = cx_id u \<or> cx_oper req \<or> \<not> cx_invis u \<or> cx_chans req \<inter> cx_chans u \<noteq> {}"

definition park_new ::
    "nat \<Rightarrow> string \<Rightarrow> string \<Rightarrow> sender \<Rightarrow> string option \<Rightarrow> server \<Rightarrow> server" where
  "park_new i host real_host tx cert st = st\<lparr>sv_unreg := hm_insert i
     \<lparr>cx_id = i, cx_tx = tx, cx_nick = [], cx_nick_key = [], cx_user = [], cx_host = host,
      cx_real_host = real_host, cx_realname = [], cx_registered = False, cx_account = None,
      cx_caps = caps_default, cx_sasl_mech = None, cx_cert_fp = cert, cx_pending_nick = None,
      cx_pending_user = None, cx_cap_negotiating = False, cx_cap_gated_welcome = False,
      cx_batch_seq = 0, cx_reg_challenged = False, cx_reg_verified = False, cx_away = None,
      cx_invis = False, cx_wallop = False, cx_srvnotice = False, cx_oper = False, cx_bot = False,
      cx_chans = {}, cx_connected_at = sv_now st, cx_last_rx = sv_now st,
      cx_close_notify = True\<rparr> (sv_unreg st)\<rparr>"

definition find_by_id :: "server \<Rightarrow> nat \<Rightarrow> cx option" where
  "find_by_id st i = (case hm_get (sv_unreg st) i of
     Some u \<Rightarrow> Some u
   | None \<Rightarrow> List.find (\<lambda>u. cx_id u = i) (hm_values (sv_users st)))"

text \<open>\<^verbatim>\<open>find_by_id_mut\<close> and the assignment through it.\<close>

fun upd_first :: "('v \<Rightarrow> bool) \<Rightarrow> ('v \<Rightarrow> 'v) \<Rightarrow> ('k, 'v) hmap \<Rightarrow> ('k, 'v) hmap" where
  "upd_first P f [] = []"
| "upd_first P f ((k, v) # m) = (if P v then (k, f v) # m else (k, v) # upd_first P f m)"

definition upd_by_id :: "nat \<Rightarrow> (cx \<Rightarrow> cx) \<Rightarrow> server \<Rightarrow> server" where
  "upd_by_id i f st = (case hm_get (sv_unreg st) i of
     Some u \<Rightarrow> st\<lparr>sv_unreg := hm_insert i (f u) (sv_unreg st)\<rparr>
   | None \<Rightarrow> st\<lparr>sv_users := upd_first (\<lambda>u. cx_id u = i) f (sv_users st)\<rparr>)"

section \<open>Registration and renaming\<close>

text \<open>The result says whether registration took place (\<^verbatim>\<open>is_some()\<close>).\<close>

definition register :: "nat \<Rightarrow> string \<Rightarrow> string \<Rightarrow> string \<Rightarrow> string \<Rightarrow> server \<Rightarrow> cx option \<times> server" where
  "register i nick_display user_part host realname st =
     (case hm_get (sv_unreg st) i of
        None \<Rightarrow> (None, st)
      | Some u \<Rightarrow>
          let st1 = st\<lparr>sv_unreg := hm_remove i (sv_unreg st)\<rparr>;
              key = norm_nick nick_display
          in if hm_contains (sv_users st1) key
             then (None, st1\<lparr>sv_unreg := hm_insert i u (sv_unreg st1)\<rparr>)
             else
               let u' = u\<lparr>cx_nick := nick_display, cx_nick_key := key, cx_user := user_part,
                          cx_host := host, cx_realname := realname, cx_registered := True\<rparr>;
                   st2 = st1\<lparr>sv_users := hm_insert key u' (sv_users st1)\<rparr>;
                   st3 = note_connection
                           (st2\<lparr>sv_peak_users := max (sv_peak_users st2) (length (sv_users st2))\<rparr>)
               in (hm_get (sv_users st3) key, st3))"

definition nick_free :: "server \<Rightarrow> string \<Rightarrow> bool" where
  "nick_free st key \<longleftrightarrow> \<not> hm_contains (sv_users st) key"

definition record_rename :: "string \<Rightarrow> string \<Rightarrow> nat \<Rightarrow> server \<Rightarrow> server" where
  "record_rename okey nkey i st =
     (if okey = nkey then st
      else
        let h = sv_history st @ [\<lparr>old_key = okey, new_key = nkey, hist_cx = i, hist_at = sv_now st\<rparr>]
        in st\<lparr>sv_history := drop (length h - HISTORY_CAP) h\<rparr>)"

definition apply_rename :: "nat \<Rightarrow> string \<Rightarrow> server \<Rightarrow> server" where
  "apply_rename i new_display st =
     (case find_by_id st i of
        None \<Rightarrow> st
      | Some u0 \<Rightarrow>
          let okey = cx_nick_key u0; nkey = norm_nick new_display
          in if okey = nkey then st
             else
               let st1 = record_rename okey nkey i st
               in case hm_get (sv_users st1) okey of
                    None \<Rightarrow> st1
                  | Some u \<Rightarrow> st1\<lparr>sv_users := hm_insert nkey
                      (u\<lparr>cx_nick := new_display, cx_nick_key := nkey\<rparr>)
                      (hm_remove okey (sv_users st1))\<rparr>)"

section \<open>Channels\<close>

definition chan :: "server \<Rightarrow> string \<Rightarrow> chn option" where
  "chan st key = hm_get (sv_chans st) (norm_nick key)"

definition upd_chan :: "string \<Rightarrow> (chn \<Rightarrow> chn) \<Rightarrow> server \<Rightarrow> server" where
  "upd_chan key f st = (case hm_get (sv_chans st) (norm_nick key) of
     None \<Rightarrow> st | Some c \<Rightarrow> st\<lparr>sv_chans := hm_insert (norm_nick key) (f c) (sv_chans st)\<rparr>)"

definition chan_or_create :: "string \<Rightarrow> string \<Rightarrow> server \<Rightarrow> server" where
  "chan_or_create key display st =
     (let k = norm_nick key
      in if hm_contains (sv_chans st) k then st
         else st\<lparr>sv_chans := hm_insert k (chn_new (sv_unix st) display) (sv_chans st)\<rparr>)"

definition evict :: "nat \<Rightarrow> server \<Rightarrow> cx option \<times> server" where
  "evict i st = (case hm_get (sv_unreg st) i of
     Some u \<Rightarrow> (Some (signal_close u), st\<lparr>sv_unreg := hm_remove i (sv_unreg st)\<rparr>)
   | None \<Rightarrow> (case List.find (\<lambda>u. cx_id u = i) (hm_values (sv_users st)) of
       None \<Rightarrow> (None, st)
     | Some u0 \<Rightarrow> (case hm_get (sv_users st) (cx_nick_key u0) of
         None \<Rightarrow> (None, st)
       | Some u \<Rightarrow> (Some (signal_close u),
                    st\<lparr>sv_users := hm_remove (cx_nick_key u0) (sv_users st)\<rparr>))))"

definition strip_member :: "nat \<Rightarrow> chn \<Rightarrow> chn" where
  "strip_member i c = c\<lparr>ch_members := ch_members c - {i}, ch_ops := ch_ops c - {i},
     ch_voices := ch_voices c - {i}\<rparr>"

definition eject_user :: "nat \<Rightarrow> server \<Rightarrow> bool \<times> server" where
  "eject_user i st =
     (list_ex (\<lambda>c. i \<in> ch_members c \<or> i \<in> ch_ops c \<or> i \<in> ch_voices c) (hm_values (sv_chans st)),
      st\<lparr>sv_chans := map (\<lambda>(k, c). (k, strip_member i c)) (sv_chans st)\<rparr>)"

definition dead_channel :: "server \<Rightarrow> string \<times> chn \<Rightarrow> bool" where
  "dead_channel st e \<longleftrightarrow> ch_members (snd e) = {} \<and> members_of (sv_network st) (fst e) = []"

definition drop_empty_channels :: "server \<Rightarrow> server" where
  "drop_empty_channels st =
     st\<lparr>sv_chans := fold hm_remove (map fst (filter (dead_channel st) (sv_chans st))) (sv_chans st)\<rparr>"

definition each_connection :: "server \<Rightarrow> cx list" where
  "each_connection st = hm_values (sv_users st) @ hm_values (sv_unreg st)"

definition burst_users :: "server \<Rightarrow> string \<Rightarrow> string list" where
  "burst_users st sid = List.map_filter (\<lambda>u. case local_uuid (sv_network st) (cx_id u) of
       None \<Rightarrow> None
     | Some uuid \<Rightarrow> Some (uid_line sid uuid (sv_unix st) (cx_nick u) (cx_real_host u) (cx_host u)
         (cx_user u) (cx_real_host u) (sv_unix st) ''+'' (cx_realname u))) (hm_values (sv_users st))"

definition burst_channels :: "server \<Rightarrow> string \<Rightarrow> string list" where
  "burst_channels st sid = List.map_filter (\<lambda>(key, c).
     (let members = List.map_filter (\<lambda>i. map_option (\<lambda>uuid.
            ((if i \<in> ch_ops c then ''o'' else []) @ (if i \<in> ch_voices c then ''v'' else []), uuid))
            (local_uuid (sv_network st) i)) (sorted_list_of_set (ch_members c))
      in if members = [] then None
         else case burst_mode_parts c of (flags, params) \<Rightarrow>
           Some (fjoin_line_with_params sid (ch_display c) (ch_created_at c) flags params members)))
     (sv_chans st)"

definition local_members :: "server \<Rightarrow> string \<Rightarrow> nat list" where
  "local_members st key = (case hm_get (sv_chans st) (norm_nick key) of
     None \<Rightarrow> [] | Some c \<Rightarrow> sorted_list_of_set (ch_members c))"

definition user_count :: "server \<Rightarrow> nat" where "user_count st = length (sv_users st)"
definition chan_count :: "server \<Rightarrow> nat" where "chan_count st = length (sv_chans st)"

definition invis_count :: "server \<Rightarrow> nat" where
  "invis_count st = length (filter cx_invis (hm_values (sv_users st)))"

definition oper_count :: "server \<Rightarrow> nat" where
  "oper_count st = length (filter cx_oper (hm_values (sv_users st)))"

text \<open>The two nested loops of \<^verbatim>\<open>channel_peers\<close> with the set of ids already seen.\<close>

definition peers_step :: "nat \<Rightarrow> nat list \<Rightarrow> nat \<Rightarrow> nat list" where
  "peers_step i out mid = (if mid \<noteq> i \<and> mid \<notin> set out then out @ [mid] else out)"

definition channel_peers :: "server \<Rightarrow> nat \<Rightarrow> nat list" where
  "channel_peers st i = (case find_by_id st i of
     None \<Rightarrow> []
   | Some u \<Rightarrow> foldl (\<lambda>out ck. case hm_get (sv_chans st) (norm_nick ck) of
         None \<Rightarrow> out
       | Some c \<Rightarrow> foldl (peers_step i) out (sorted_list_of_set (ch_members c)))
       [] (sorted_list_of_set (cx_chans u)))"

end
