(* ===== verification/Reply.thy ===== *)
theory Reply
  imports State
begin

text \<open>
  Delivery of lines to connections and links (\<^verbatim>\<open>src/cmds.rs\<close>, \<^verbatim>\<open>deliver\<close>
  to \<^verbatim>\<open>numeric\<close>): the capture of a command's own replies, labelled responses, message
  tags for relayed lines, and the numeric replies.
\<close>

section \<open>Delivery\<close>

definition enqueue :: "string \<Rightarrow> cx \<Rightarrow> cx" where
  "enqueue l u = u\<lparr>cx_tx := snd (try_send l (cx_tx u))\<rparr>"

definition send_to :: "nat \<Rightarrow> string \<Rightarrow> server \<Rightarrow> server" where
  "send_to i l st = (case find_by_id st i of None \<Rightarrow> st | Some _ \<Rightarrow> upd_by_id i (enqueue l) st)"

definition push_reply :: "string \<Rightarrow> server \<Rightarrow> server" where
  "push_reply l st = st\<lparr>sv_reply := (sv_reply st)\<lparr>reply_buf := reply_buf (sv_reply st) @ [l]\<rparr>\<rparr>"

definition deliver :: "nat \<Rightarrow> string \<Rightarrow> server \<Rightarrow> server" where
  "deliver i l st =
     (if reply_for (sv_reply st) = Some i \<and> \<not> bypass_reply_capture (sv_reply st)
      then push_reply l st else send_to i l st)"

text \<open>\<^verbatim>\<open>try_send\<close> on the queue of a link, with whether the line was taken.\<close>

definition queue_send :: "nat \<Rightarrow> string \<Rightarrow> server \<Rightarrow> bool \<times> server" where
  "queue_send c l st = (case hm_get (sv_queues st) c of
     None \<Rightarrow> (False, st)
   | Some q \<Rightarrow> (case try_send l q of (ok, q') \<Rightarrow> (ok, st\<lparr>sv_queues := hm_insert c q' (sv_queues st)\<rparr>)))"

definition to_links :: "string \<Rightarrow> server \<Rightarrow> server" where
  "to_links l st = fold (\<lambda>h s. snd (queue_send (lh_chan h) l s)) (sv_links st) st"

definition upd_reply :: "(reply_state \<Rightarrow> reply_state) \<Rightarrow> server \<Rightarrow> server" where
  "upd_reply f st = st\<lparr>sv_reply := f (sv_reply st)\<rparr>"

section \<open>Labelled responses\<close>

definition client_label :: "server \<Rightarrow> nat \<Rightarrow> command \<Rightarrow> string option" where
  "client_label st i cmd = (case find_by_id st i of
     None \<Rightarrow> None
   | Some u \<Rightarrow>
       (if \<not> labeled_response (cx_caps u) \<or> \<not> batch (cx_caps u) then None
        else case List.find (\<lambda>(k, _). eq_ignore_case k ''label'') (cmd_tags cmd) of
          Some (_, Some v) \<Rightarrow>
            (if v = [] \<or> 64 < length v then None
             else if CHR 0x00 \<in> set v \<or> CHR 0x0D \<in> set v \<or> CHR 0x0A \<in> set v then None
             else Some v)
        | _ \<Rightarrow> None))"

definition begin_reply :: "nat \<Rightarrow> command \<Rightarrow> server \<Rightarrow> server" where
  "begin_reply i cmd st =
     (let st1 = upd_reply (\<lambda>r. r\<lparr>reply_for := Some i, reply_self_msg := False,
                  bypass_reply_capture := False, reply_buf := []\<rparr>) st
      in upd_reply (\<lambda>r. r\<lparr>reply_label := client_label st1 i cmd\<rparr>) st1)"

definition next_batch_ref :: "nat \<Rightarrow> server \<Rightarrow> string \<times> server" where
  "next_batch_ref i st =
     (let st1 = upd_by_id i (\<lambda>u. u\<lparr>cx_batch_seq := sat_inc (cx_batch_seq u)\<rparr>) st;
          seq = (case find_by_id st1 i of Some u \<Rightarrow> unat (cx_batch_seq u) | None \<Rightarrow> 1)
      in (''b'' @ show_nat i @ ''-'' @ show_nat seq, st1))"

definition with_tags :: "string \<Rightarrow> string \<Rightarrow> string" where
  "with_tags line tags =
     (let body = opt_default line (strip_suffix crlf line)
      in (case strip_prefix ''@'' body of
            Some rest \<Rightarrow> ''@'' @ tags @ '';'' @ rest
          | None \<Rightarrow> ''@'' @ tags @ '' '' @ body) @ crlf)"

definition frame_client_reply :: "string \<Rightarrow> string list \<Rightarrow> string option \<Rightarrow> string option \<Rightarrow> string" where
  "frame_client_reply pfx lines label batch_ref = (case label of
     None \<Rightarrow> concat lines
   | Some lab \<Rightarrow>
       let label_tag = ''label='' @ escape_tag_value lab
       in if lines = [] then with_tags (proto_line pfx ''ACK'' []) label_tag
          else case batch_ref of
            None \<Rightarrow> (if length lines = 1 then with_tags (lines ! 0) label_tag else concat lines)
          | Some reference \<Rightarrow>
              (if length lines = 1 then with_tags (lines ! 0) label_tag
               else
                 with_tags (proto_line pfx ''BATCH'' (''+'' @ reference @ '' labeled-response'')) label_tag
                 @ concat (map (\<lambda>l. with_tags l (''batch='' @ reference)) lines)
                 @ proto_line pfx ''BATCH'' (''-'' @ reference)))"

definition finish_reply :: "nat \<Rightarrow> server \<Rightarrow> string \<times> server" where
  "finish_reply i st =
     (let lines = reply_buf (sv_reply st); label = reply_label (sv_reply st);
          self_msg = reply_self_msg (sv_reply st);
          st1 = upd_reply (\<lambda>r. r\<lparr>reply_buf := [], reply_label := None, reply_self_msg := False,
                  reply_for := None, bypass_reply_capture := False\<rparr>) st
      in if lines = [] \<and> (label = None \<or> self_msg) then ([], st1)
         else if label \<noteq> None \<and> 1 < length lines then
           (case next_batch_ref i st1 of (r, st2) \<Rightarrow>
              (frame_client_reply (sv_prefix st2) lines label (Some r), st2))
         else (frame_client_reply (sv_prefix st1) lines label None, st1))"

section \<open>Relayed lines\<close>

definition sender_id_from_line :: "server \<Rightarrow> string \<Rightarrow> nat option" where
  "sender_id_from_line st base =
     (case strip_prefix '':'' base of None \<Rightarrow> None | Some r0 \<Rightarrow>
       (case split_once (CHR ''!'') r0 of None \<Rightarrow> None | Some (nick, r1) \<Rightarrow>
         (case split_once (CHR ''@'') r1 of None \<Rightarrow> None | Some (user, hostpart) \<Rightarrow>
           (let host = str_default (first_opt (split_whitespace hostpart))
            in case lookup st (norm_nick nick) of
                 Some u \<Rightarrow> Some (cx_id u)
               | None \<Rightarrow>
                   (if str_default (nth_opt (split_whitespace base) 1) = ''NICK''
                    then map_option cx_id
                      (List.find (\<lambda>u. cx_user u = user \<and> cx_host u = host) (hm_values (sv_users st)))
                    else None)))))"

definition relay_tags :: "server \<Rightarrow> nat \<Rightarrow> string \<Rightarrow> string list" where
  "relay_tags st target base =
     (case (case find_by_id st target of
              Some u \<Rightarrow> (server_time (cx_caps u), message_tags (cx_caps u), account_tag (cx_caps u))
            | None \<Rightarrow> (False, False, False)) of
        (want_time, want_tags, want_account) \<Rightarrow>
          (case (case sender_id_from_line st base of
                   None \<Rightarrow> (False, None)
                 | Some sid \<Rightarrow> (case find_by_id st sid of
                     Some u \<Rightarrow> (cx_bot u, Some (cx_account u)) | None \<Rightarrow> (False, None))) of
             (is_bot, account) \<Rightarrow>
               (if want_time
                then [''time='' @ ircv3_timestamp (unat (sv_unix st)) (w_millis (sv_world st))] else [])
               @ (if want_tags \<and> is_bot then [''bot''] else [])
               @ (if want_tags \<and> want_account then
                    (case account of
                       Some (Some name) \<Rightarrow> [''account='' @ escape_tag_value name]
                     | Some None \<Rightarrow> [''account=*'']
                     | None \<Rightarrow> [])
                  else [])))"

definition relay_tagged :: "nat \<Rightarrow> string \<Rightarrow> server \<Rightarrow> server" where
  "relay_tagged target base st =
     (let tags = relay_tags st target base
      in if tags = [] then deliver target base st
         else deliver target (''@'' @ join_with '';'' tags @ '' '' @ base) st)"

definition relay_all :: "nat list \<Rightarrow> string \<Rightarrow> server \<Rightarrow> server" where
  "relay_all ids l st = fold (\<lambda>i. relay_tagged i l) ids st"

section \<open>Numeric replies\<close>

definition sender_nick :: "server \<Rightarrow> nat \<Rightarrow> string" where
  "sender_nick st i = (case find_by_id st i of
     Some u \<Rightarrow> if cx_nick u \<noteq> [] then cx_nick u else ''*'' | None \<Rightarrow> ''*'')"

definition numeric :: "nat \<Rightarrow> string \<Rightarrow> string list \<Rightarrow> server \<Rightarrow> server" where
  "numeric i code args st =
     deliver i (proto_params (sv_prefix st) code (sender_nick st i # args)) st"

definition need_more_params :: "nat \<Rightarrow> string \<Rightarrow> server \<Rightarrow> server" where
  "need_more_params i command st = numeric i ''461'' [command, ''Not enough parameters''] st"

definition cx_opt :: "(cx \<Rightarrow> 'a) \<Rightarrow> 'a \<Rightarrow> server \<Rightarrow> nat \<Rightarrow> 'a" where
  "cx_opt f d st i = (case find_by_id st i of Some u \<Rightarrow> f u | None \<Rightarrow> d)"

definition chan_opt :: "(chn \<Rightarrow> 'a) \<Rightarrow> 'a \<Rightarrow> server \<Rightarrow> string \<Rightarrow> 'a" where
  "chan_opt f d st k = (case chan st k of Some c \<Rightarrow> f c | None \<Rightarrow> d)"

definition members_list :: "server \<Rightarrow> string \<Rightarrow> nat list" where
  "members_list st k = chan_opt (\<lambda>c. sorted_list_of_set (ch_members c)) [] st k"

definition snote :: "string \<Rightarrow> server \<Rightarrow> server" where
  "snote text st =
     (let recipients = map cx_id (filter (\<lambda>u. cx_oper u \<and> cx_srvnotice u) (hm_values (sv_users st)))
      in if recipients = [] then st
         else let p = sv_prefix st
              in fold (\<lambda>r s. deliver r (proto_line p ''NOTICE''
                   (cx_opt cx_nick [] s r @ '' :*** Notice -- '' @ text)) s) recipients st)"

definition refuse_non_oper :: "nat \<Rightarrow> server \<Rightarrow> bool \<times> server" where
  "refuse_non_oper i st =
     (if cx_opt cx_oper False st i then (False, st)
      else (True, numeric i ''481'' [''Permission Denied- You'' @ [CHR 0x27] @ ''re not an IRC operator''] st))"

end
