(* ===== verification/Inv.thy ===== *)
theory Inv
  imports Reply
begin

text \<open>
  The invariant of the server state that the command handlers rely on, and the fact that output
  never touches it: \<open>core\<close> forgets the queues of connections and links and the reply being
  captured, delivery leaves the core alone, and the invariant only looks at the core.
\<close>

named_theorems core_simps \<open>what leaves the core of the state alone\<close>
named_theorems inv_intros \<open>operations that keep the invariant\<close>

section \<open>The core of the state\<close>

definition erase :: "cx \<Rightarrow> cx" where
  "erase u = u\<lparr>cx_tx := channel_new 0\<rparr>"

definition reply_none :: reply_state where
  "reply_none = \<lparr>reply_for = None, reply_label = None, reply_self_msg = False,
     bypass_reply_capture = False, reply_buf = []\<rparr>"

definition core :: "server \<Rightarrow> server" where
  "core st = st\<lparr>sv_users := map (apsnd erase) (sv_users st),
     sv_unreg := map (apsnd erase) (sv_unreg st),
     sv_queues := [], sv_reply := reply_none\<rparr>"

lemma map_of_apsnd: "map_of (map (apsnd f) m) k = map_option f (map_of m k)"
  by (induction m) auto

lemma map_apsnd_update:
  "map_of m k = Some u \<Longrightarrow> f v = f u \<Longrightarrow> map (apsnd f) (AList.update k v m) = map (apsnd f) m"
  by (induction m) auto

lemma upd_first_get:
  assumes "hm_wf m"
  shows "hm_get (upd_first P f m) k =
    (case List.find (\<lambda>(k, v). P v) m of
       Some (k', v) \<Rightarrow> if k = k' then Some (f v) else hm_get m k | None \<Rightarrow> hm_get m k)"
  using assms
  by (induction m) (auto simp: hm_wf_def rev_image_eqI dest!: find_SomeD split: option.splits)

lemma upd_first_fst [simp]: "map fst (upd_first P f m) = map fst m"
  by (induction m) auto

lemma map_apsnd_upd_first:
  "(\<And>v. g (f v) = g v) \<Longrightarrow> map (apsnd g) (upd_first P f m) = map (apsnd g) m"
  by (induction m) auto

lemma erase_enqueue [simp]: "erase (enqueue l u) = erase u"
  by (simp add: erase_def enqueue_def)

lemma core_upd_by_id: "(\<And>u. erase (f u) = erase u) \<Longrightarrow> core (upd_by_id i f st) = core st"
  by (simp add: upd_by_id_def core_def map_apsnd_update map_apsnd_upd_first split: option.splits)

lemma core_send_to [core_simps]: "core (send_to i l st) = core st"
  by (simp add: send_to_def core_upd_by_id split: option.splits)

lemma core_upd_reply [core_simps]: "core (upd_reply f st) = core st"
  by (simp add: core_def upd_reply_def)

lemma core_deliver [core_simps]: "core (deliver i l st) = core st"
  by (simp add: deliver_def push_reply_def core_send_to) (simp add: core_def)

lemma core_fold: "(\<And>x s. core (f x s) = core s) \<Longrightarrow> core (fold f xs st) = core st"
  by (induction xs arbitrary: st) auto

lemma core_queues [core_simps]:
  "core (st\<lparr>sv_queues := m\<rparr>) = core st" "core (snd (queue_send c l st)) = core st"
  by (simp_all add: core_def queue_send_def split: option.split prod.split)

lemma core_to_links [core_simps]: "core (to_links l st) = core st"
  by (simp add: to_links_def core_fold core_simps)

lemma to_links_same [simp]:
  "sv_chans (to_links l st) = sv_chans st" "sv_links (to_links l st) = sv_links st"
proof -
  have "core (to_links l st) = core st" by (simp add: core_simps)
  then have "sv_chans (core (to_links l st)) = sv_chans (core st)" "sv_links (core (to_links l st)) = sv_links (core st)"
    by simp_all
  then show "sv_chans (to_links l st) = sv_chans st" "sv_links (to_links l st) = sv_links st"
    by (simp_all add: core_def)
qed

lemma to_links_chans: "to_links l (st\<lparr>sv_chans := x\<rparr>) = (to_links l st)\<lparr>sv_chans := x\<rparr>"
proof -
  have send: "snd (queue_send c l (s\<lparr>sv_chans := x\<rparr>)) = (snd (queue_send c l s))\<lparr>sv_chans := x\<rparr>" for c s
    by (simp add: queue_send_def split: option.split prod.split)
  have "fold (\<lambda>h s. snd (queue_send (lh_chan h) l s)) hs (s\<lparr>sv_chans := x\<rparr>)
      = (fold (\<lambda>h s. snd (queue_send (lh_chan h) l s)) hs s)\<lparr>sv_chans := x\<rparr>" for hs s
    by (induction hs arbitrary: s) (simp_all add: send)
  then show ?thesis by (simp add: to_links_def)
qed

lemma core_relay_tagged [core_simps]: "core (relay_tagged i l st) = core st"
  by (simp add: relay_tagged_def Let_def core_simps)

lemma core_numeric [core_simps]: "core (numeric i c as st) = core st"
  by (simp add: numeric_def core_simps)

lemma core_relay_all [core_simps]: "core (relay_all ids l st) = core st"
  by (simp add: relay_all_def core_fold core_simps)

lemma core_need_more_params [core_simps]: "core (need_more_params i c st) = core st"
  by (simp add: need_more_params_def core_simps)

lemma core_snote [core_simps]: "core (snote t st) = core st"
  by (simp add: snote_def Let_def core_fold core_simps)

lemma core_refuse_non_oper [core_simps]: "core (snd (refuse_non_oper i st)) = core st"
  by (simp add: refuse_non_oper_def core_simps)

text \<open>What can be read off the core.\<close>

lemma core_fields [simp]:
  "sv_chans (core st) = sv_chans st" "sv_history (core st) = sv_history st"
  "sv_network (core st) = sv_network st" "sv_world (core st) = sv_world st"
  "sv_conf (core st) = sv_conf st" "sv_chanreg (core st) = sv_chanreg st"
  "sv_accounts (core st) = sv_accounts st" "sv_bans (core st) = sv_bans st"
  "sv_ping (core st) = sv_ping st" "sv_reclaim (core st) = sv_reclaim st"
  "sv_sources (core st) = sv_sources st" "sv_limits (core st) = sv_limits st"
  "sv_links (core st) = sv_links st"
  by (simp_all add: core_def)

lemma core_get:
  "hm_get (sv_users (core st)) k = map_option erase (hm_get (sv_users st) k)"
  "hm_get (sv_unreg (core st)) i = map_option erase (hm_get (sv_unreg st) i)"
  by (simp_all add: core_def map_of_apsnd)

lemma erase_fields [simp]:
  "cx_id (erase u) = cx_id u" "cx_nick (erase u) = cx_nick u" "cx_nick_key (erase u) = cx_nick_key u"
  "cx_registered (erase u) = cx_registered u" "cx_chans (erase u) = cx_chans u"
  "cx_oper (erase u) = cx_oper u" "cx_account (erase u) = cx_account u"
  by (simp_all add: erase_def)

section \<open>The invariant\<close>

text \<open>
  The user table is keyed by the folded nickname of registered users, the other table by the id
  of connections still registering; an id occurs once in the two tables together.
\<close>

definition ids_ok :: "(string \<rightharpoonup> cx) \<Rightarrow> (nat \<rightharpoonup> cx) \<Rightarrow> bool" where
  "ids_ok U R \<longleftrightarrow>
     (\<forall>k u. U k = Some u \<longrightarrow>
        cx_nick_key u = k \<and> norm_nick (cx_nick u) = k \<and> cx_registered u \<and> R (cx_id u) = None)
     \<and> (\<forall>k u. U k = Some u \<longrightarrow> (\<forall>k' u'. U k' = Some u' \<longrightarrow> cx_id u = cx_id u' \<longrightarrow> k = k'))
     \<and> (\<forall>i u. R i = Some u \<longrightarrow> cx_id u = i \<and> \<not> cx_registered u \<and> cx_chans u = {})"

text \<open>
  A user lists exactly the channels it is a member of, members are registered users, and
  operators and voiced users are members. A user is in at most ten channels.
\<close>

abbreviation MAX_CHANNELS :: nat where "MAX_CHANNELS \<equiv> 10"

definition memb_ok :: "(string \<rightharpoonup> cx) \<Rightarrow> (string \<rightharpoonup> chn) \<Rightarrow> bool" where
  "memb_ok U C \<longleftrightarrow>
     (\<forall>k u. U k = Some u \<longrightarrow>
        (\<forall>ck. ck \<in> cx_chans u \<longleftrightarrow> (\<exists>c. C ck = Some c \<and> cx_id u \<in> ch_members c)))
     \<and> (\<forall>k u. U k = Some u \<longrightarrow> finite (cx_chans u) \<and> card (cx_chans u) \<le> MAX_CHANNELS)
     \<and> (\<forall>ck c. C ck = Some c \<longrightarrow>
        norm_nick ck = ck \<and> finite (ch_members c) \<and> ch_ops c \<subseteq> ch_members c
        \<and> ch_voices c \<subseteq> ch_members c
        \<and> (\<forall>m\<in>ch_members c. \<exists>k u. U k = Some u \<and> cx_id u = m))"

definition state_inv :: "server \<Rightarrow> bool" where
  "state_inv st \<longleftrightarrow> hm_wf (sv_users st) \<and> hm_wf (sv_unreg st) \<and> hm_wf (sv_chans st)
     \<and> ids_ok (hm_get (sv_users st)) (hm_get (sv_unreg st))
     \<and> memb_ok (hm_get (sv_users st)) (hm_get (sv_chans st))
     \<and> length (sv_history st) \<le> HISTORY_CAP"

lemma core_wf:
  "hm_wf (sv_users (core st)) = hm_wf (sv_users st)" "hm_wf (sv_unreg (core st)) = hm_wf (sv_unreg st)"
  by (simp_all add: core_def hm_wf_def comp_def)

lemma all_map_option: "(\<forall>u. map_option f x = Some u \<longrightarrow> Q u) \<longleftrightarrow> (\<forall>u. x = Some u \<longrightarrow> Q (f u))"
  by (cases x) auto

lemma ex_map_option: "(\<exists>u. map_option f x = Some u \<and> Q u) \<longleftrightarrow> (\<exists>u. x = Some u \<and> Q (f u))"
  by (cases x) auto

lemma state_inv_core: "state_inv (core st) = state_inv st"
  by (simp only: state_inv_def ids_ok_def memb_ok_def core_wf core_get core_fields
      all_map_option ex_map_option erase_fields option.map_disc_iff)

lemma state_inv_same_core: "core st' = core st \<Longrightarrow> state_inv st' = state_inv st"
  by (metis state_inv_core)

lemma state_inv_new: "state_inv (server_new w n ou op l1 l2 em li a c k)"
  by (simp add: state_inv_def ids_ok_def memb_ok_def server_new_def)

section \<open>Finding and updating a connection\<close>

lemma state_invD:
  assumes "state_inv st"
  shows "hm_wf (sv_users st)" "hm_wf (sv_unreg st)" "hm_wf (sv_chans st)"
    "ids_ok (hm_get (sv_users st)) (hm_get (sv_unreg st))"
    "memb_ok (hm_get (sv_users st)) (hm_get (sv_chans st))" "length (sv_history st) \<le> HISTORY_CAP"
  using assms by (simp_all add: state_inv_def)

lemma find_values_Some: "List.find P (hm_values m) = Some u \<Longrightarrow> hm_wf m \<Longrightarrow> P u \<and> (\<exists>k. hm_get m k = Some u)"
  by (metis find_SomeD hm_values_iff)

lemma find_values_None: "List.find P (hm_values m) = None \<Longrightarrow> hm_wf m \<Longrightarrow> hm_get m k = Some u \<Longrightarrow> \<not> P u"
  by (metis find_None_iff hm_values_iff)

lemma find_by_id_Some:
  assumes "state_inv st" "find_by_id st i = Some u"
  shows "cx_id u = i \<and> (if cx_registered u
    then hm_get (sv_users st) (cx_nick_key u) = Some u \<and> hm_get (sv_unreg st) i = None
    else hm_get (sv_unreg st) i = Some u)"
proof (cases "hm_get (sv_unreg st) i")
  case None
  then have "List.find (\<lambda>u. cx_id u = i) (hm_values (sv_users st)) = Some u"
    using assms(2) by (simp add: find_by_id_def)
  then have "cx_id u = i \<and> (\<exists>k. hm_get (sv_users st) k = Some u)"
    using state_invD(1) [OF assms(1)] by (rule find_values_Some)
  with None show ?thesis using state_invD(4) [OF assms(1)] by (auto simp: ids_ok_def)
next
  case (Some r)
  then show ?thesis using assms state_invD(4) [OF assms(1)] by (auto simp: find_by_id_def ids_ok_def)
qed

lemma find_by_id_user:
  assumes "state_inv st" "hm_get (sv_users st) k = Some u"
  shows "find_by_id st (cx_id u) = Some u"
proof -
  have none: "hm_get (sv_unreg st) (cx_id u) = None"
    using state_invD(4) [OF assms(1)] assms(2) by (auto simp: ids_ok_def)
  obtain v where v: "List.find (\<lambda>w. cx_id w = cx_id u) (hm_values (sv_users st)) = Some v"
    using find_values_None [OF _ state_invD(1) [OF assms(1)] assms(2), of "\<lambda>w. cx_id w = cx_id u"]
    by (cases "List.find (\<lambda>w. cx_id w = cx_id u) (hm_values (sv_users st))") auto
  from find_values_Some [OF v state_invD(1) [OF assms(1)]] obtain k' where
    "cx_id v = cx_id u" "hm_get (sv_users st) k' = Some v" by blast
  then have "v = u" using state_invD(4) [OF assms(1)] assms(2) unfolding ids_ok_def by (metis option.inject)
  with none v show ?thesis by (simp add: find_by_id_def)
qed

lemma find_pair_values:
  "map_option snd (List.find (\<lambda>(k, v). P v) m) = List.find P (hm_values m)"
  by (induction m) (auto simp: hm_values_def)

text \<open>An assignment through \<^verbatim>\<open>find_by_id_mut\<close>, pointwise.\<close>

lemma upd_by_id_get:
  assumes "state_inv st"
  shows "hm_get (sv_users (upd_by_id i f st)) =
      (\<lambda>k. map_option (\<lambda>u. if cx_id u = i then f u else u) (hm_get (sv_users st) k))"
    and "hm_get (sv_unreg (upd_by_id i f st)) =
      (\<lambda>j. if j = i then map_option f (hm_get (sv_unreg st) j) else hm_get (sv_unreg st) j)"
proof -
  note ids = state_invD(4) [OF assms, unfolded ids_ok_def] and wf = state_invD(1) [OF assms]
  show "hm_get (sv_unreg (upd_by_id i f st)) =
      (\<lambda>j. if j = i then map_option f (hm_get (sv_unreg st) j) else hm_get (sv_unreg st) j)"
    by (auto simp: upd_by_id_def hm_simps fun_eq_iff split: option.splits)
  show "hm_get (sv_users (upd_by_id i f st)) =
      (\<lambda>k. map_option (\<lambda>u. if cx_id u = i then f u else u) (hm_get (sv_users st) k))"
  proof
    fix k
    show "hm_get (sv_users (upd_by_id i f st)) k =
      map_option (\<lambda>u. if cx_id u = i then f u else u) (hm_get (sv_users st) k)"
    proof (cases "hm_get (sv_unreg st) i")
      case (Some r)
      have "cx_id u \<noteq> i" if "hm_get (sv_users st) k = Some u" for u
        using ids that Some by auto
      with Some show ?thesis by (cases "hm_get (sv_users st) k") (auto simp: upd_by_id_def)
    next
      case None
      show ?thesis
      proof (cases "List.find (\<lambda>(k, u). cx_id u = i) (sv_users st)")
        case f: None
        then have "List.find (\<lambda>u. cx_id u = i) (hm_values (sv_users st)) = None"
          using find_pair_values [of "\<lambda>u. cx_id u = i" "sv_users st"] by simp
        then have "cx_id u \<noteq> i" if "hm_get (sv_users st) k = Some u" for u
          using find_values_None [OF _ wf that] by blast
        with None f show ?thesis
          by (cases "hm_get (sv_users st) k") (auto simp: upd_by_id_def upd_first_get [OF wf])
      next
        case (Some p)
        obtain k' v where p: "p = (k', v)" by (cases p)
        with find_SomeD [OF Some] have v: "cx_id v = i" "hm_get (sv_users st) k' = Some v"
          using hm_wf_get [OF wf] by auto
        have "cx_id u \<noteq> i" if "hm_get (sv_users st) k = Some u" "k \<noteq> k'" for u
          using ids that v by metis
        with None Some p v show ?thesis
          by (cases "hm_get (sv_users st) k") (auto simp: upd_by_id_def upd_first_get [OF wf])
      qed
    qed
  qed
qed

lemma upd_by_id_same [simp]:
  "sv_chans (upd_by_id i f st) = sv_chans st" "sv_history (upd_by_id i f st) = sv_history st"
  "sv_network (upd_by_id i f st) = sv_network st" "sv_chanreg (upd_by_id i f st) = sv_chanreg st"
  "sv_accounts (upd_by_id i f st) = sv_accounts st" "sv_world (upd_by_id i f st) = sv_world st"
  "hm_wf (sv_users (upd_by_id i f st)) = hm_wf (sv_users st)"
  by (simp_all add: upd_by_id_def hm_wf_def split: option.splits)

lemma upd_by_id_wf_unreg: "hm_wf (sv_unreg st) \<Longrightarrow> hm_wf (sv_unreg (upd_by_id i f st))"
  by (simp add: upd_by_id_def split: option.splits)

text \<open>An update that keeps identity and channels keeps the invariant.\<close>

definition keeps_identity :: "(cx \<Rightarrow> cx) \<Rightarrow> bool" where
  "keeps_identity f \<longleftrightarrow> (\<forall>u. cx_id (f u) = cx_id u \<and> cx_nick (f u) = cx_nick u
     \<and> cx_nick_key (f u) = cx_nick_key u \<and> cx_registered (f u) = cx_registered u
     \<and> cx_chans (f u) = cx_chans u)"

lemma state_inv_upd_by_id:
  assumes inv: "state_inv st" and f: "keeps_identity f"
  shows "state_inv (upd_by_id i f st)"
proof -
  let ?g = "\<lambda>u. if cx_id u = i then f u else u"
  have g: "cx_id (?g u) = cx_id u" "cx_nick (?g u) = cx_nick u" "cx_nick_key (?g u) = cx_nick_key u"
    "cx_registered (?g u) = cx_registered u" "cx_chans (?g u) = cx_chans u" for u
    using f by (auto simp: keeps_identity_def)
  have r: "(if j = i then map_option f (hm_get (sv_unreg st) j) else hm_get (sv_unreg st) j) = None
      \<longleftrightarrow> hm_get (sv_unreg st) j = None" for j by auto
  have "ids_ok (hm_get (sv_users (upd_by_id i f st))) (hm_get (sv_unreg (upd_by_id i f st)))"
    using state_invD(4) [OF inv] f
    unfolding ids_ok_def upd_by_id_get [OF inv] all_map_option ex_map_option g r
    by (auto simp: keeps_identity_def)
  moreover have "memb_ok (hm_get (sv_users (upd_by_id i f st))) (hm_get (sv_chans (upd_by_id i f st)))"
    using state_invD(5) [OF inv]
    unfolding memb_ok_def upd_by_id_get [OF inv] all_map_option ex_map_option g upd_by_id_same .
  ultimately show ?thesis
    using state_invD(1,2,3,6) [OF inv] by (simp add: state_inv_def upd_by_id_wf_unreg)
qed

section \<open>Channels\<close>

lemma upd_chan_same [simp]:
  "sv_users (upd_chan ck g st) = sv_users st" "sv_unreg (upd_chan ck g st) = sv_unreg st"
  "sv_history (upd_chan ck g st) = sv_history st" "sv_network (upd_chan ck g st) = sv_network st"
  "sv_chanreg (upd_chan ck g st) = sv_chanreg st" "sv_accounts (upd_chan ck g st) = sv_accounts st"
  "sv_world (upd_chan ck g st) = sv_world st" "find_by_id (upd_chan ck g st) i = find_by_id st i"
  by (simp_all add: upd_chan_def find_by_id_def split: option.splits)

lemma upd_chan_get:
  "hm_get (sv_chans (upd_chan ck g st)) k =
     (if k = norm_nick ck then map_option g (hm_get (sv_chans st) k) else hm_get (sv_chans st) k)"
  by (simp add: upd_chan_def hm_simps split: option.splits)

lemma upd_chan_wf: "hm_wf (sv_chans st) \<Longrightarrow> hm_wf (sv_chans (upd_chan ck g st))"
  by (simp add: upd_chan_def split: option.splits)

lemma upd_commute: "upd_by_id i f (upd_chan ck g st) = upd_chan ck g (upd_by_id i f st)"
  by (simp add: upd_by_id_def upd_chan_def split: option.splits)

text \<open>An update of a channel that keeps its members, and privileges among members.\<close>

definition keeps_members :: "(chn \<Rightarrow> chn) \<Rightarrow> bool" where
  "keeps_members g \<longleftrightarrow> (\<forall>c. ch_ops c \<subseteq> ch_members c \<longrightarrow> ch_voices c \<subseteq> ch_members c \<longrightarrow>
     ch_members (g c) = ch_members c \<and> ch_ops (g c) \<subseteq> ch_members c \<and> ch_voices (g c) \<subseteq> ch_members c)"

lemma memb_ok_upd_same:
  assumes ok: "memb_ok U C" and c: "C ck = Some c"
    and g: "ch_members c' = ch_members c" "ch_ops c' \<subseteq> ch_members c" "ch_voices c' \<subseteq> ch_members c"
  shows "memb_ok U (C(ck \<mapsto> c'))"
proof -
  have shape: "norm_nick ck = ck" "finite (ch_members c)"
    "\<forall>m\<in>ch_members c. \<exists>k u. U k = Some u \<and> cx_id u = m"
    using ok c by (auto simp: memb_ok_def)
  have mem: "(\<exists>d. (C(ck \<mapsto> c')) k = Some d \<and> j \<in> ch_members d) \<longleftrightarrow> (\<exists>d. C k = Some d \<and> j \<in> ch_members d)"
    for k j using c g(1) by auto
  show ?thesis
    using ok shape g unfolding memb_ok_def mem by (auto split: if_splits)
qed

lemma state_inv_upd_chan_at:
  assumes inv: "state_inv st"
    and g: "\<And>c. hm_get (sv_chans st) (norm_nick ck) = Some c \<Longrightarrow>
      ch_members (g c) = ch_members c \<and> ch_ops (g c) \<subseteq> ch_members c \<and> ch_voices (g c) \<subseteq> ch_members c"
  shows "state_inv (upd_chan ck g st)"
proof (cases "hm_get (sv_chans st) (norm_nick ck)")
  case None
  with inv show ?thesis by (simp add: upd_chan_def)
next
  case (Some c)
  have C': "hm_get (sv_chans (upd_chan ck g st)) = (hm_get (sv_chans st))(norm_nick ck \<mapsto> g c)"
    using Some by (auto simp: upd_chan_get)
  have "memb_ok (hm_get (sv_users st)) (hm_get (sv_chans (upd_chan ck g st)))"
    unfolding C' using memb_ok_upd_same [OF state_invD(5) [OF inv] Some] g [OF Some] by blast
  then show ?thesis
    using state_invD [OF inv] by (simp add: state_inv_def upd_chan_wf)
qed

lemma state_inv_upd_chan:
  assumes inv: "state_inv st" and g: "keeps_members g"
  shows "state_inv (upd_chan ck g st)"
  using inv
proof (rule state_inv_upd_chan_at)
  fix c
  assume c: "hm_get (sv_chans st) (norm_nick ck) = Some c"
  then have "ch_ops c \<subseteq> ch_members c" "ch_voices c \<subseteq> ch_members c"
    using state_invD(5) [OF inv] by (auto simp: memb_ok_def)
  with g show "ch_members (g c) = ch_members c \<and> ch_ops (g c) \<subseteq> ch_members c \<and> ch_voices (g c) \<subseteq> ch_members c"
    by (simp add: keeps_members_def)
qed

lemma state_inv_chan_or_create: "state_inv st \<Longrightarrow> state_inv (chan_or_create key display st)"
  using hm_contains_get [of "sv_chans st" "norm_nick key"]
  by (auto simp: chan_or_create_def Let_def state_inv_def memb_ok_def hm_simps chn_new_def
      split: if_splits)

section \<open>Joining, leaving, departing\<close>

definition add_chan :: "string \<Rightarrow> cx \<Rightarrow> cx" where
  "add_chan ck u = u\<lparr>cx_chans := insert ck (cx_chans u)\<rparr>"

definition del_chan :: "string \<Rightarrow> cx \<Rightarrow> cx" where
  "del_chan ck u = u\<lparr>cx_chans := cx_chans u - {ck}\<rparr>"

lemma cx_upd_simps [simp]:
  "cx_id (add_chan ck u) = cx_id u" "cx_id (del_chan ck u) = cx_id u"
  "cx_chans (add_chan ck u) = insert ck (cx_chans u)" "cx_chans (del_chan ck u) = cx_chans u - {ck}"
  by (simp_all add: add_chan_def del_chan_def)

lemma ids_ok_upd:
  assumes "ids_ok U R" and "\<And>u. cx_id (f u) = cx_id u \<and> cx_nick (f u) = cx_nick u
    \<and> cx_nick_key (f u) = cx_nick_key u \<and> cx_registered (f u) = cx_registered u"
  shows "ids_ok (\<lambda>k. map_option (\<lambda>u. if cx_id u = i then f u else u) (U k)) R"
proof -
  let ?g = "\<lambda>u. if cx_id u = i then f u else u"
  have g: "cx_id (?g u) = cx_id u" "cx_nick (?g u) = cx_nick u" "cx_nick_key (?g u) = cx_nick_key u"
    "cx_registered (?g u) = cx_registered u" for u
    using assms(2) by auto
  show ?thesis using assms(1) unfolding ids_ok_def all_map_option g .
qed

lemma ids_ok_unreg_upd:
  assumes ok: "ids_ok U R" and f: "\<And>u. cx_id (f u) = cx_id u \<and> cx_registered (f u) = cx_registered u
    \<and> (cx_chans u = {} \<longrightarrow> cx_chans (f u) = {})"
  shows "ids_ok U (\<lambda>j. if j = i then map_option f (R j) else R j)"
proof -
  have none: "(if j = i then map_option f (R j) else R j) = None \<longleftrightarrow> R j = None" for j by auto
  have some: "\<exists>v. R j = Some v \<and> (u = v \<or> u = f v)"
    if "(if j = i then map_option f (R j) else R j) = Some u" for j u
    using that by (auto split: if_splits)
  show ?thesis using ok unfolding ids_ok_def none by (intro conjI) (blast, blast, metis some f)
qed

lemma state_inv_join:
  assumes inv: "state_inv st" and u: "hm_get (sv_users st) k = Some u" "cx_id u = i"
    and c: "hm_get (sv_chans st) ck = Some c" and room: "card (cx_chans u) < MAX_CHANNELS"
    and g: "ch_members (g c) = insert i (ch_members c)" "ch_ops (g c) \<subseteq> insert i (ch_ops c)"
      "ch_voices (g c) \<subseteq> ch_voices c"
  shows "state_inv (upd_chan ck g (upd_by_id i (add_chan ck) st))"
proof -
  let ?U = "hm_get (sv_users st)" and ?C = "hm_get (sv_chans st)"
  let ?f = "\<lambda>u. if cx_id u = i then add_chan ck u else u"
  note ids = state_invD(4) [OF inv] and memb = state_invD(5) [OF inv]
  have ck: "norm_nick ck = ck" "finite (ch_members c)" "ch_ops c \<subseteq> ch_members c" "ch_voices c \<subseteq> ch_members c"
    using memb c by (auto simp: memb_ok_def)
  have unreg: "hm_get (sv_unreg st) i = None" using ids u by (auto simp: ids_ok_def)
  have C': "hm_get (sv_chans (upd_chan ck g (upd_by_id i (add_chan ck) st))) = ?C(ck \<mapsto> g c)"
    using c ck(1) by (auto simp: upd_chan_get)
  have only: "v = u" if "?U k' = Some v" "cx_id v = i" for k' v
    using ids u that unfolding ids_ok_def by (metis option.inject)
  have "ids_ok (\<lambda>k. map_option ?f (?U k)) (hm_get (sv_unreg st))"
    using ids by (rule ids_ok_upd) (simp add: add_chan_def)
  moreover have "memb_ok (\<lambda>k. map_option ?f (?U k)) (?C(ck \<mapsto> g c))"
    unfolding memb_ok_def all_map_option ex_map_option
  proof (intro conjI allI impI)
    fix k' v ck'
    assume v: "?U k' = Some v"
    have "ck' \<in> cx_chans v \<longleftrightarrow> (\<exists>c. ?C ck' = Some c \<and> cx_id v \<in> ch_members c)"
      using memb v by (auto simp: memb_ok_def)
    then show "ck' \<in> cx_chans (?f v) \<longleftrightarrow> (\<exists>d. (?C(ck \<mapsto> g c)) ck' = Some d \<and> cx_id (?f v) \<in> ch_members d)"
      using c g(1) by auto
  next
    fix k' v
    assume v: "?U k' = Some v"
    show "finite (cx_chans (?f v))" using memb v by (auto simp: memb_ok_def)
    show "card (cx_chans (?f v)) \<le> MAX_CHANNELS"
      using memb v only [OF v] room by (auto simp: memb_ok_def card_insert_if)
  next
    fix ck' d
    assume d: "(?C(ck \<mapsto> g c)) ck' = Some d"
    have members: "\<forall>m\<in>ch_members e. \<exists>k u. ?U k = Some u \<and> cx_id u = m" if "?C ck'' = Some e" for ck'' e
      using memb that by (auto simp: memb_ok_def)
    have f_id: "cx_id (?f v) = cx_id v" for v by simp
    have "ch_ops (g c) \<subseteq> insert i (ch_members c)" "ch_voices (g c) \<subseteq> insert i (ch_members c)"
      using ck g by blast+
    then show "norm_nick ck' = ck'" "finite (ch_members d)" "ch_ops d \<subseteq> ch_members d" "ch_voices d \<subseteq> ch_members d"
      using d memb ck g(1) by (auto simp: memb_ok_def split: if_splits)
    show "\<forall>m\<in>ch_members d. \<exists>k u. ?U k = Some u \<and> cx_id (?f u) = m"
      unfolding f_id using d members members [OF c] u g(1) by (auto split: if_splits)
  qed
  moreover have "hm_get (sv_unreg (upd_by_id i (add_chan ck) st)) = hm_get (sv_unreg st)"
    using unreg by (auto simp: upd_by_id_get(2) [OF inv] fun_eq_iff)
  ultimately show ?thesis
    using state_invD(1-3,6) [OF inv]
    unfolding state_inv_def C' upd_chan_same upd_by_id_get(1) [OF inv]
    by (simp add: upd_by_id_wf_unreg upd_chan_wf)
qed

lemma state_inv_part:
  assumes inv: "state_inv st" and ck: "norm_nick ck = ck"
    and g: "\<And>c. ch_members (g c) = ch_members c - {i}" "\<And>c. ch_ops (g c) = ch_ops c - {i}"
      "\<And>c. ch_voices (g c) = ch_voices c - {i}"
  shows "state_inv (upd_chan ck g (upd_by_id i (del_chan ck) st))"
proof -
  let ?U = "hm_get (sv_users st)" and ?C = "hm_get (sv_chans st)"
  let ?f = "\<lambda>u. if cx_id u = i then del_chan ck u else u"
  let ?C' = "\<lambda>k. if k = ck then map_option g (?C k) else ?C k"
  note ids = state_invD(4) [OF inv] and memb = state_invD(5) [OF inv]
  have C': "hm_get (sv_chans (upd_chan ck g (upd_by_id i (del_chan ck) st))) = ?C'"
    using ck by (auto simp: upd_chan_get)
  have shape: "norm_nick ck' = ck'" "finite (ch_members c)" "ch_ops c \<subseteq> ch_members c"
    "ch_voices c \<subseteq> ch_members c" "\<forall>m\<in>ch_members c. \<exists>k u. ?U k = Some u \<and> cx_id u = m"
    if "?C ck' = Some c" for ck' c
    using memb that by (auto simp: memb_ok_def)
  have "ids_ok (\<lambda>k. map_option ?f (?U k)) (hm_get (sv_unreg (upd_by_id i (del_chan ck) st)))"
  proof -
    have "ids_ok (\<lambda>k. map_option ?f (?U k)) (hm_get (sv_unreg st))"
      using ids by (rule ids_ok_upd) (simp add: del_chan_def)
    then show ?thesis
      unfolding upd_by_id_get(2) [OF inv] by (rule ids_ok_unreg_upd) (simp add: del_chan_def)
  qed
  moreover have "memb_ok (\<lambda>k. map_option ?f (?U k)) ?C'"
    unfolding memb_ok_def all_map_option ex_map_option
  proof (intro conjI allI impI)
    fix k v ck'
    assume v: "?U k = Some v"
    have "ck' \<in> cx_chans v \<longleftrightarrow> (\<exists>c. ?C ck' = Some c \<and> cx_id v \<in> ch_members c)"
      using memb v by (auto simp: memb_ok_def)
    then show "ck' \<in> cx_chans (?f v) \<longleftrightarrow> (\<exists>d. ?C' ck' = Some d \<and> cx_id (?f v) \<in> ch_members d)"
      using g(1) by (cases "?C ck'") auto
  next
    fix k v
    assume v: "?U k = Some v"
    then have "finite (cx_chans v)" "card (cx_chans v) \<le> MAX_CHANNELS"
      using memb by (auto simp: memb_ok_def)
    then show "finite (cx_chans (?f v))" "card (cx_chans (?f v)) \<le> MAX_CHANNELS"
      by (auto intro: le_trans [OF card_Diff1_le])
  next
    fix ck' d
    assume d: "?C' ck' = Some d"
    then obtain c where c: "?C ck' = Some c" "d = (if ck' = ck then g c else c)"
      by (auto split: if_splits)
    have f_id: "cx_id (?f v) = cx_id v" for v by simp
    show "norm_nick ck' = ck'" using shape(1) [OF c(1)] .
    show "finite (ch_members d)" "ch_ops d \<subseteq> ch_members d" "ch_voices d \<subseteq> ch_members d"
      using shape(2-4) [OF c(1)] c(2) g by auto
    show "\<forall>m\<in>ch_members d. \<exists>k u. ?U k = Some u \<and> cx_id (?f u) = m"
      unfolding f_id using shape(5) [OF c(1)] c(2) g(1) by auto
  qed
  ultimately show ?thesis
    using state_invD(1-3,6) [OF inv]
    unfolding state_inv_def C' upd_chan_same upd_by_id_get(1) [OF inv]
    by (simp add: upd_by_id_wf_unreg upd_chan_wf)
qed

text \<open>Channels that no longer hold anybody can be dropped.\<close>

lemma drop_empty_get:
  assumes "hm_wf (sv_chans st)"
  shows "hm_get (sv_chans (drop_empty_channels st)) k = (case hm_get (sv_chans st) k of
    None \<Rightarrow> None | Some c \<Rightarrow> if dead_channel st (k, c) then None else Some c)"
proof -
  have "k \<in> fst ` set (filter (dead_channel st) (sv_chans st)) \<longleftrightarrow>
      (\<exists>c. hm_get (sv_chans st) k = Some c \<and> dead_channel st (k, c))"
    using hm_wf_get [OF assms] by (force simp: image_iff)
  then show ?thesis
    by (auto simp: drop_empty_channels_def fold_remove_get split: option.splits)
qed

lemma drop_empty_same [simp]:
  "sv_users (drop_empty_channels st) = sv_users st" "sv_unreg (drop_empty_channels st) = sv_unreg st"
  "sv_history (drop_empty_channels st) = sv_history st" "sv_network (drop_empty_channels st) = sv_network st"
  by (simp_all add: drop_empty_channels_def)

lemma memb_ok_drop:
  assumes ok: "memb_ok U C" and C': "\<And>k. C' k = C k \<or> (C' k = None \<and> (\<exists>c. C k = Some c \<and> ch_members c = {}))"
  shows "memb_ok U C'"
proof -
  have mem: "(\<exists>d. C' k = Some d \<and> j \<in> ch_members d) \<longleftrightarrow> (\<exists>d. C k = Some d \<and> j \<in> ch_members d)" for k j
    using C' [of k] by (metis empty_iff option.distinct(1) option.inject)
  have sub: "C k = Some c" if "C' k = Some c" for k c using C' [of k] that by auto
  show ?thesis using ok unfolding memb_ok_def mem by (intro conjI) (blast dest: sub)+
qed

lemma state_inv_drop_empty:
  assumes inv: "state_inv st"
  shows "state_inv (drop_empty_channels st)"
proof -
  have "memb_ok (hm_get (sv_users st)) (hm_get (sv_chans (drop_empty_channels st)))"
    by (rule memb_ok_drop [OF state_invD(5) [OF inv]])
      (auto simp: drop_empty_get [OF state_invD(3) [OF inv]] dead_channel_def split: option.splits)
  moreover have "hm_wf (sv_chans (drop_empty_channels st))"
    using state_invD(3) [OF inv] by (simp add: drop_empty_channels_def hm_wf_fold_remove)
  ultimately show ?thesis using state_invD [OF inv] by (simp add: state_inv_def)
qed

section \<open>Departure\<close>

lemma evict_chans: "evict i (st\<lparr>sv_chans := X\<rparr>) = (fst (evict i st), (snd (evict i st))\<lparr>sv_chans := X\<rparr>)"
  by (simp add: evict_def split: option.splits)

lemma evict_same [simp]:
  "sv_chans (snd (evict i st)) = sv_chans st" "sv_history (snd (evict i st)) = sv_history st"
  "sv_network (snd (evict i st)) = sv_network st"
  by (simp_all add: evict_def split: option.splits)

lemma evict_get:
  assumes inv: "state_inv st"
  shows "hm_get (sv_users (snd (evict i st))) k =
      (case hm_get (sv_users st) k of Some u \<Rightarrow> if cx_id u = i then None else Some u | None \<Rightarrow> None)"
    and "hm_get (sv_unreg (snd (evict i st))) j = (if j = i then None else hm_get (sv_unreg st) j)"
proof -
  note ids = state_invD(4) [OF inv, unfolded ids_ok_def] and wf = state_invD(1) [OF inv]
  show "hm_get (sv_unreg (snd (evict i st))) j = (if j = i then None else hm_get (sv_unreg st) j)"
    by (auto simp: evict_def hm_simps split: option.splits)
  show "hm_get (sv_users (snd (evict i st))) k =
      (case hm_get (sv_users st) k of Some u \<Rightarrow> if cx_id u = i then None else Some u | None \<Rightarrow> None)"
  proof (cases "hm_get (sv_unreg st) i")
    case (Some r)
    then have "cx_id u \<noteq> i" if "hm_get (sv_users st) k = Some u" for u using ids that by auto
    with Some show ?thesis by (auto simp: evict_def split: option.splits)
  next
    case None
    show ?thesis
    proof (cases "List.find (\<lambda>u. cx_id u = i) (hm_values (sv_users st))")
      case f: None
      then have "cx_id u \<noteq> i" if "hm_get (sv_users st) k = Some u" for u
        using find_values_None [OF f wf that] by blast
      with None f show ?thesis by (auto simp: evict_def split: option.splits)
    next
      case (Some v)
      from find_values_Some [OF Some wf] have v: "cx_id v = i" "hm_get (sv_users st) (cx_nick_key v) = Some v"
        using ids by auto
      have "cx_id u \<noteq> i" if "hm_get (sv_users st) k = Some u" "k \<noteq> cx_nick_key v" for u
        using ids that v by metis
      with None Some v show ?thesis by (auto simp: evict_def hm_simps split: option.splits)
    qed
  qed
qed

lemma evict_wf:
  "hm_wf (sv_users st) \<Longrightarrow> hm_wf (sv_users (snd (evict i st)))"
  "hm_wf (sv_unreg st) \<Longrightarrow> hm_wf (sv_unreg (snd (evict i st)))"
  by (simp_all add: evict_def split: option.splits)

text \<open>The removal of a connection as every closing path performs it.\<close>

definition depart :: "nat \<Rightarrow> server \<Rightarrow> server" where
  "depart i st = snd (evict i (drop_empty_channels (snd (eject_user i st))))"

lemma memb_ok_depart:
  assumes ids: "ids_ok U R" and memb: "memb_ok U C"
    and U': "\<And>k. U' k = (case U k of Some u \<Rightarrow> if cx_id u = i then None else Some u | None \<Rightarrow> None)"
    and C': "\<And>k. C' k = map_option (strip_member i) (C k)"
  shows "memb_ok U' C'"
proof -
  have sub: "U k = Some u \<and> cx_id u \<noteq> i" if "U' k = Some u" for k u
    using that U' [of k] by (auto split: option.splits if_splits)
  have sup: "U' k = Some u" if "U k = Some u" "cx_id u \<noteq> i" for k u
    using that U' [of k] by simp
  show ?thesis
    unfolding memb_ok_def
  proof (intro conjI allI impI)
    fix k u ck
    assume "U' k = Some u"
    then have u: "U k = Some u" "cx_id u \<noteq> i" using sub by blast+
    then have "ck \<in> cx_chans u \<longleftrightarrow> (\<exists>c. C ck = Some c \<and> cx_id u \<in> ch_members c)"
      using memb unfolding memb_ok_def by blast
    with u show "ck \<in> cx_chans u \<longleftrightarrow> (\<exists>c. C' ck = Some c \<and> cx_id u \<in> ch_members c)"
      by (auto simp: C' strip_member_def)
  next
    fix k u
    assume "U' k = Some u"
    then show "finite (cx_chans u)" "card (cx_chans u) \<le> MAX_CHANNELS"
      using sub memb unfolding memb_ok_def by blast+
  next
    fix ck c
    assume "C' ck = Some c"
    then obtain d where d: "C ck = Some d" "c = strip_member i d" by (auto simp: C')
    have "norm_nick ck = ck" "finite (ch_members d)" "ch_ops d \<subseteq> ch_members d" "ch_voices d \<subseteq> ch_members d"
      and m: "\<forall>m\<in>ch_members d. \<exists>k u. U k = Some u \<and> cx_id u = m"
      using memb d by (auto simp: memb_ok_def)
    then show "norm_nick ck = ck" "finite (ch_members c)" "ch_ops c \<subseteq> ch_members c" "ch_voices c \<subseteq> ch_members c"
      using d by (auto simp: strip_member_def)
    show "\<forall>m\<in>ch_members c. \<exists>k u. U' k = Some u \<and> cx_id u = m"
    proof
      fix m
      assume "m \<in> ch_members c"
      then have "m \<in> ch_members d" "m \<noteq> i" using d by (auto simp: strip_member_def)
      with m obtain k u where "U k = Some u" "cx_id u = m" by blast
      with sup \<open>m \<noteq> i\<close> show "\<exists>k u. U' k = Some u \<and> cx_id u = m" by metis
    qed
  qed
qed

lemma map_of_map_snd: "map_of (map (\<lambda>(k, v). (k, f v)) m) k = map_option f (map_of m k)"
  by (induction m) auto

lemma eject_user_snd:
  "snd (eject_user i st) = st\<lparr>sv_chans := map (\<lambda>(k, c). (k, strip_member i c)) (sv_chans st)\<rparr>"
  by (simp add: eject_user_def)

lemma state_inv_depart:
  assumes inv: "state_inv st"
  shows "state_inv (depart i st)"
proof -
  let ?X = "map (\<lambda>(k, c). (k, strip_member i c)) (sv_chans st)"
  let ?st = "(snd (evict i st))\<lparr>sv_chans := ?X\<rparr>"
  have dead: "dead_channel (st\<lparr>sv_chans := ?X\<rparr>) = dead_channel ?st"
    by (simp add: dead_channel_def fun_eq_iff)
  have eq: "depart i st = drop_empty_channels ?st"
    by (simp add: depart_def eject_user_snd drop_empty_channels_def evict_chans dead)
  have "memb_ok (hm_get (sv_users ?st)) (hm_get (sv_chans ?st))"
    by (rule memb_ok_depart [OF state_invD(4,5) [OF inv], where i = i])
      (simp_all add: evict_get(1) [OF inv] map_of_map_snd)
  moreover have "ids_ok (hm_get (sv_users ?st)) (hm_get (sv_unreg ?st))"
    using state_invD(4) [OF inv]
    by (fastforce simp: ids_ok_def evict_get [OF inv] split: option.splits if_splits)
  moreover have "hm_wf (sv_chans ?st)"
    using state_invD(3) [OF inv] by (simp add: hm_wf_def comp_def case_prod_unfold)
  ultimately have "state_inv ?st"
    using state_invD(1,2,6) [OF inv] by (simp add: state_inv_def evict_wf)
  then show ?thesis unfolding eq by (rule state_inv_drop_empty)
qed

section \<open>Registration and renaming\<close>

lemma state_inv_park:
  assumes inv: "state_inv st" and fresh: "find_by_id st i = None"
  shows "state_inv (park_new i host rh tx cert st)"
proof -
  have "hm_get (sv_unreg st) i = None" using fresh by (auto simp: find_by_id_def split: option.splits)
  moreover have "cx_id u \<noteq> i" if "hm_get (sv_users st) k = Some u" for k u
    using find_by_id_user [OF inv that] fresh by auto
  ultimately have "ids_ok (hm_get (sv_users st)) (hm_get (sv_unreg (park_new i host rh tx cert st)))"
    using state_invD(4) [OF inv] by (fastforce simp: ids_ok_def park_new_def hm_simps)
  then show ?thesis using state_invD [OF inv] by (simp add: state_inv_def park_new_def)
qed

lemma memb_ok_new_user:
  assumes "memb_ok U C" "U k = None" "cx_chans u = {}"
    and "\<And>ck c. C ck = Some c \<Longrightarrow> cx_id u \<notin> ch_members c"
  shows "memb_ok (U(k \<mapsto> u)) C"
proof -
  have "U j = Some v \<Longrightarrow> (U(k \<mapsto> u)) j = Some v" for j v using assms(2) by auto
  then have "\<exists>k' u'. (U(k \<mapsto> u)) k' = Some u' \<and> cx_id u' = m"
    if "\<exists>k' u'. U k' = Some u' \<and> cx_id u' = m" for m using that by blast
  with assms show ?thesis
    unfolding memb_ok_def by (intro conjI) (auto split: if_splits)
qed

lemma register_result:
  assumes "register i nick user host rn st = (r, st')"
  shows "(r = None \<and> (hm_get (sv_unreg st) i = None \<and> st' = st
        \<or> (\<exists>u. hm_get (sv_unreg st) i = Some u \<and> hm_contains (sv_users st) (norm_nick nick)
            \<and> st' = st\<lparr>sv_unreg := hm_insert i u (hm_remove i (sv_unreg st))\<rparr>)))
    \<or> (\<exists>u u'. hm_get (sv_unreg st) i = Some u \<and> \<not> hm_contains (sv_users st) (norm_nick nick)
        \<and> u' = u\<lparr>cx_nick := nick, cx_nick_key := norm_nick nick, cx_user := user, cx_host := host,
                   cx_realname := rn, cx_registered := True\<rparr>
        \<and> r = Some u' \<and> sv_users st' = hm_insert (norm_nick nick) u' (sv_users st)
        \<and> sv_unreg st' = hm_remove i (sv_unreg st) \<and> sv_chans st' = sv_chans st
        \<and> sv_history st' = sv_history st \<and> sv_network st' = sv_network st \<and> sv_links st' = sv_links st
        \<and> sv_world st' = sv_world st \<and> sv_peak_users st' = max (sv_peak_users st) (length (sv_users st')))"
  using assms
  by (auto simp: register_def Let_def note_connection_def hm_simps split: option.splits if_splits)

lemma state_inv_register:
  assumes inv: "state_inv st"
  shows "state_inv (snd (register i nick user host rn st))"
proof -
  obtain r st' where reg: "register i nick user host rn st = (r, st')"
    by (cases "register i nick user host rn st")
  note ids = state_invD(4) [OF inv] and memb = state_invD(5) [OF inv]
  from register_result [OF reg] show ?thesis
  proof (elim disjE exE conjE)
    assume "st' = st"
    with reg inv show ?thesis by simp
  next
    fix u
    assume u: "hm_get (sv_unreg st) i = Some u" and st': "st' = st\<lparr>sv_unreg := hm_insert i u (hm_remove i (sv_unreg st))\<rparr>"
    have "hm_get (sv_unreg st') = hm_get (sv_unreg st)" using u by (auto simp: st' hm_simps)
    then show ?thesis using state_invD [OF inv] reg by (simp add: state_inv_def st')
  next
    fix u u'
    assume u: "hm_get (sv_unreg st) i = Some u" and fresh: "\<not> hm_contains (sv_users st) (norm_nick nick)"
      and u': "u' = u\<lparr>cx_nick := nick, cx_nick_key := norm_nick nick, cx_user := user, cx_host := host,
                   cx_realname := rn, cx_registered := True\<rparr>"
      and st': "sv_users st' = hm_insert (norm_nick nick) u' (sv_users st)"
        "sv_unreg st' = hm_remove i (sv_unreg st)" "sv_chans st' = sv_chans st" "sv_history st' = sv_history st"
    have none: "hm_get (sv_users st) (norm_nick nick) = None" using fresh by (simp add: hm_contains_get)
    have uid: "cx_id u' = i" "cx_chans u' = {}" using ids u u' by (auto simp: ids_ok_def)
    have other: "cx_id v \<noteq> i" if "hm_get (sv_users st) k = Some v" for k v
      using ids that u by (auto simp: ids_ok_def)
    have U': "hm_get (sv_users st') = (hm_get (sv_users st))(norm_nick nick \<mapsto> u')"
      by (auto simp: st' hm_simps)
    have "memb_ok (hm_get (sv_users st')) (hm_get (sv_chans st'))"
      unfolding U' st'(3) using memb none uid(2)
    proof (rule memb_ok_new_user)
      fix ck c
      assume "hm_get (sv_chans st) ck = Some c"
      then show "cx_id u' \<notin> ch_members c" using memb other uid(1) unfolding memb_ok_def by metis
    qed
    moreover have "ids_ok (hm_get (sv_users st')) (hm_get (sv_unreg st'))"
      using ids other uid u' by (fastforce simp: ids_ok_def U' st' hm_simps split: if_splits)
    ultimately show ?thesis
      using state_invD(1,2,3,6) [OF inv] reg by (simp add: state_inv_def st')
  qed
qed

lemma memb_ok_rename:
  assumes memb: "memb_ok U C" and u: "U k = Some u" and free: "U k' = None"
    and v: "cx_id v = cx_id u" "cx_chans v = cx_chans u"
  shows "memb_ok ((U(k := None))(k' \<mapsto> v)) C"
proof -
  let ?U = "(U(k := None))(k' \<mapsto> v)"
  have old: "\<exists>j' w'. U j' = Some w' \<and> cx_id w' = cx_id w \<and> cx_chans w' = cx_chans w" if "?U j = Some w" for j w
    using that u v by (auto split: if_splits)
  have new: "\<exists>j' w'. ?U j' = Some w' \<and> cx_id w' = m" if "\<exists>j w. U j = Some w \<and> cx_id w = m" for m
  proof -
    from that obtain j w where w: "U j = Some w" "cx_id w = m" by blast
    show ?thesis
    proof (cases "j = k")
      case True
      then show ?thesis using w u v by (intro exI [of _ k'] exI [of _ v]) simp
    next
      case False
      then show ?thesis using w free by (intro exI [of _ j] exI [of _ w]) auto
    qed
  qed
  show ?thesis
    unfolding memb_ok_def
  proof (intro conjI allI impI)
    fix j w ck
    assume "?U j = Some w"
    from old [OF this] show "ck \<in> cx_chans w \<longleftrightarrow> (\<exists>c. C ck = Some c \<and> cx_id w \<in> ch_members c)"
      using memb unfolding memb_ok_def by metis
  next
    fix j w
    assume "?U j = Some w"
    from old [OF this] show "finite (cx_chans w)" "card (cx_chans w) \<le> MAX_CHANNELS"
      using memb unfolding memb_ok_def by metis+
  next
    fix ck c
    assume "C ck = Some c"
    with memb have "norm_nick ck = ck \<and> finite (ch_members c) \<and> ch_ops c \<subseteq> ch_members c
      \<and> ch_voices c \<subseteq> ch_members c \<and> (\<forall>m\<in>ch_members c. \<exists>k u. U k = Some u \<and> cx_id u = m)"
      by (simp add: memb_ok_def)
    then show "norm_nick ck = ck" "finite (ch_members c)" "ch_ops c \<subseteq> ch_members c"
      "ch_voices c \<subseteq> ch_members c" "\<forall>m\<in>ch_members c. \<exists>k u. ?U k = Some u \<and> cx_id u = m"
      using new by blast+
  qed
qed

lemma record_rename_same [simp]:
  "sv_users (record_rename a b i st) = sv_users st" "sv_unreg (record_rename a b i st) = sv_unreg st"
  "sv_chans (record_rename a b i st) = sv_chans st"
  by (simp_all add: record_rename_def Let_def)

lemma record_rename_length:
  "length (sv_history st) \<le> HISTORY_CAP \<Longrightarrow> length (sv_history (record_rename a b i st)) \<le> HISTORY_CAP"
  by (simp add: record_rename_def Let_def) linarith

lemma ids_ok_rename:
  assumes ids: "ids_ok U R" and u: "U k = Some u" and free: "U k' = None"
    and v: "cx_id v = cx_id u" "cx_nick_key v = k'" "norm_nick (cx_nick v) = k'" "cx_registered v"
  shows "ids_ok ((U(k := None))(k' \<mapsto> v)) R"
proof -
  have other: "cx_id w \<noteq> cx_id u" if "U j = Some w" "j \<noteq> k" for j w
    using ids that u unfolding ids_ok_def by metis
  have R: "R (cx_id u) = None" using ids u by (simp add: ids_ok_def)
  let ?U = "(U(k := None))(k' \<mapsto> v)"
  have old: "j = k' \<and> w = v \<or> U j = Some w \<and> j \<noteq> k \<and> j \<noteq> k'" if "?U j = Some w" for j w
    using that by (auto split: if_splits)
  show ?thesis
    unfolding ids_ok_def
  proof (intro conjI allI impI)
    fix j w
    assume w: "?U j = Some w"
    show "cx_nick_key w = j" "norm_nick (cx_nick w) = j" "cx_registered w" "R (cx_id w) = None"
      using old [OF w] ids v R by (auto simp: ids_ok_def)
    fix j' w'
    assume w': "?U j' = Some w'" and eq: "cx_id w = cx_id w'"
    have "j = j'" if "U j = Some w" "U j' = Some w'" using ids that eq unfolding ids_ok_def by metis
    then show "j = j'" using old [OF w] old [OF w'] other eq v(1) by metis
  next
    fix i w
    assume "R i = Some w"
    then show "cx_id w = i" "\<not> cx_registered w" "cx_chans w = {}" using ids by (auto simp: ids_ok_def)
  qed
qed

lemma apply_rename_tables:
  assumes inv: "state_inv st" and u: "find_by_id st i = Some u" "cx_registered u"
    and neq: "cx_nick_key u \<noteq> norm_nick d"
  shows "hm_get (sv_users (apply_rename i d st)) =
      ((hm_get (sv_users st))(cx_nick_key u := None))(norm_nick d \<mapsto> u\<lparr>cx_nick := d, cx_nick_key := norm_nick d\<rparr>)"
    "sv_unreg (apply_rename i d st) = sv_unreg st" "sv_chans (apply_rename i d st) = sv_chans st"
    "length (sv_history (apply_rename i d st)) \<le> HISTORY_CAP" "hm_wf (sv_users (apply_rename i d st))"
proof -
  have "hm_get (sv_users st) (cx_nick_key u) = Some u"
    using find_by_id_Some [OF inv u(1)] u(2) by simp
  then show "hm_get (sv_users (apply_rename i d st)) =
      ((hm_get (sv_users st))(cx_nick_key u := None))(norm_nick d \<mapsto> u\<lparr>cx_nick := d, cx_nick_key := norm_nick d\<rparr>)"
    "sv_unreg (apply_rename i d st) = sv_unreg st" "sv_chans (apply_rename i d st) = sv_chans st"
    "length (sv_history (apply_rename i d st)) \<le> HISTORY_CAP" "hm_wf (sv_users (apply_rename i d st))"
    using u neq state_invD(1,6) [OF inv] record_rename_length
    by (auto simp: apply_rename_def Let_def hm_simps)
qed

lemma state_inv_apply_rename:
  assumes inv: "state_inv st" and u: "find_by_id st i = Some u" "cx_registered u"
    and free: "nick_free st (norm_nick d)"
  shows "state_inv (apply_rename i d st)"
proof (cases "cx_nick_key u = norm_nick d")
  case True
  with u inv show ?thesis by (simp add: apply_rename_def)
next
  case False
  let ?U = "hm_get (sv_users st)" and ?v = "u\<lparr>cx_nick := d, cx_nick_key := norm_nick d\<rparr>"
  note t = apply_rename_tables [OF inv u False] and ids = state_invD(4) [OF inv]
  have at: "?U (cx_nick_key u) = Some u" and none: "?U (norm_nick d) = None"
    using find_by_id_Some [OF inv u(1)] u(2) free by (simp_all add: nick_free_def hm_contains_get)
  have "memb_ok (hm_get (sv_users (apply_rename i d st))) (hm_get (sv_chans (apply_rename i d st)))"
    unfolding t using state_invD(5) [OF inv] at none by (rule memb_ok_rename) simp_all
  moreover have "ids_ok (hm_get (sv_users (apply_rename i d st))) (hm_get (sv_unreg (apply_rename i d st)))"
    unfolding t using ids at none by (rule ids_ok_rename) (simp_all add: u(2))
  ultimately show ?thesis
    using t(4,5) state_invD(2,3) [OF inv] by (simp add: state_inv_def t(2,3))
qed

section \<open>What the invariant does not look at\<close>

lemma state_inv_fields [simp]:
  "state_inv (st\<lparr>sv_ping := a\<rparr>) = state_inv st" "state_inv (st\<lparr>sv_reclaim := b\<rparr>) = state_inv st"
  "state_inv (st\<lparr>sv_network := c\<rparr>) = state_inv st" "state_inv (st\<lparr>sv_chanreg := d\<rparr>) = state_inv st"
  "state_inv (st\<lparr>sv_accounts := e\<rparr>) = state_inv st" "state_inv (st\<lparr>sv_bans := f\<rparr>) = state_inv st"
  "state_inv (st\<lparr>sv_sources := g\<rparr>) = state_inv st" "state_inv (st\<lparr>sv_world := h\<rparr>) = state_inv st"
  "state_inv (st\<lparr>sv_messages_relayed := m\<rparr>) = state_inv st" "state_inv (st\<lparr>sv_links := l\<rparr>) = state_inv st"
  by (simp_all add: state_inv_def)

lemma state_inv_output [simp]:
  "state_inv (send_to i l st) = state_inv st" "state_inv (deliver i l st) = state_inv st"
  "state_inv (to_links l st) = state_inv st" "state_inv (st\<lparr>sv_queues := m\<rparr>) = state_inv st"
  "state_inv (snd (queue_send q l st)) = state_inv st" "state_inv (relay_tagged i l st) = state_inv st"
  "state_inv (relay_all is l st) = state_inv st" "state_inv (numeric i c as st) = state_inv st"
  "state_inv (need_more_params i t st) = state_inv st" "state_inv (snote t st) = state_inv st"
  "state_inv (upd_reply f st) = state_inv st" "state_inv (snd (refuse_non_oper i st)) = state_inv st"
  by (rule state_inv_same_core, simp add: core_simps)+

text \<open>Reading the identity of a connection through output.\<close>

lemma find_by_id_core: "find_by_id (core st) i = map_option erase (find_by_id st i)"
proof -
  have "List.find (\<lambda>u. cx_id u = i) (hm_values (map (apsnd erase) m))
      = map_option erase (List.find (\<lambda>u. cx_id u = i) (hm_values m))" for m :: "(string, cx) hmap"
    by (induction m) (auto simp: hm_values_def)
  then show ?thesis
    by (simp add: find_by_id_def core_get split: option.splits) (simp add: core_def)
qed

lemma cx_opt_core:
  assumes "core st' = core st" "\<And>u. f (erase u) = f u"
  shows "cx_opt f d st' i = cx_opt f d st i"
proof -
  have "map_option erase (find_by_id st' i) = map_option erase (find_by_id st i)"
    using find_by_id_core assms(1) by metis
  then show ?thesis using assms(2)
    by (auto simp: cx_opt_def map_option_case split: option.splits) (metis assms(2))
qed

lemma cx_opt_registered:
  "cx_opt cx_registered False st i \<longleftrightarrow> (\<exists>u. find_by_id st i = Some u \<and> cx_registered u)"
  by (simp add: cx_opt_def split: option.splits)

lemma state_inv_fold [inv_intros]:
  "(\<And>x s. state_inv s \<Longrightarrow> state_inv (f x s)) \<Longrightarrow> state_inv st \<Longrightarrow> state_inv (fold f xs st)"
  by (induction xs arbitrary: st) auto

declare state_inv_upd_by_id [inv_intros] state_inv_depart [inv_intros] state_inv_register [inv_intros]
  state_inv_drop_empty [inv_intros] state_inv_upd_chan [inv_intros] state_inv_chan_or_create [inv_intros]

end
