(* ===== verification/Registration.thy ===== *)
theory Registration
  imports Inv
begin

text \<open>
  Nicknames and registration (\<^verbatim>\<open>src/cmds.rs\<close>): \<^verbatim>\<open>NICK\<close>, \<^verbatim>\<open>USER\<close>, the
  completion of a pairing with its challenge and welcome, and the reclaim of a nickname whose
  holder no longer answers.
\<close>

section \<open>Definitions\<close>

definition is_nick_char :: "char \<Rightarrow> bool" where
  "is_nick_char c \<longleftrightarrow> is_alphabetic c \<or> is_digit c
     \<or> c \<in> {CHR ''_'', CHR ''-'', CHR ''['', CHR '']'', CHR 0x5C, CHR 0x60, CHR ''^'', CHR ''{'', CHR ''}''}"

definition valid_nick :: "string \<Rightarrow> bool" where
  "valid_nick s = (case s of
     [] \<Rightarrow> False
   | c # cs \<Rightarrow> is_alphabetic c \<and> length s \<le> 30 \<and> list_all is_nick_char cs)"

abbreviation MAX_USER_LEN :: nat where "MAX_USER_LEN \<equiv> 10"

definition truthy :: "string \<Rightarrow> bool" where
  "truthy v \<longleftrightarrow> v \<in> {''1'', ''true'', ''yes'', ''on''}"

definition registration_challenge_enabled :: "environ \<Rightarrow> bool" where
  "registration_challenge_enabled env \<longleftrightarrow> truthy (str_default (env ''CHONKLINE_REG_CHALLENGE''))"

definition reclaim_silence_secs :: "environ \<Rightarrow> nat" where
  "reclaim_silence_secs env = env_usize env ''CHONKLINE_RECLAIM_SILENCE_SECS'' 60"

definition reclaim_grace_secs :: "environ \<Rightarrow> nat" where
  "reclaim_grace_secs env = max (env_usize env ''CHONKLINE_RECLAIM_GRACE_SECS'' 3) 1"

definition nickname_in_use :: "nat \<Rightarrow> string \<Rightarrow> server \<Rightarrow> server" where
  "nickname_in_use i nick st = numeric i ''433'' [nick, ''Nickname is already in use''] st"

definition holder_looks_stale :: "server \<Rightarrow> nat \<Rightarrow> bool" where
  "holder_looks_stale st occ = (case find_by_id st occ of
     Some u \<Rightarrow> hm_contains (sv_ping st) occ
       \<or> reclaim_silence_secs (sv_env st) < (sv_now st - cx_last_rx u) div 1000000000
   | None \<Rightarrow> True)"

definition begin_reclaim ::
    "nat \<Rightarrow> (nat \<times> string) list \<Rightarrow> (nat \<times> string) list \<Rightarrow> server \<Rightarrow> server" where
  "begin_reclaim occ pairings renames st =
     (let st1 = (if hm_contains (sv_ping st) occ then st
                 else
                   let token = sv_name st @ ''-'' @ show_nat occ;
                       s = send_to occ (proto_line (sv_prefix st) ''PING'' ('':'' @ token)) st
                   in s\<lparr>sv_ping := hm_insert occ (sv_now s) (sv_ping s)\<rparr>);
          expiry_now = sv_now st1 + from_secs (max (reclaim_grace_secs (sv_env st1)) 1)
      in st1\<lparr>sv_reclaim := hm_insert occ
           (case hm_get (sv_reclaim st1) occ of
              Some mark \<Rightarrow> mark\<lparr>rc_pairings := rc_pairings mark @ pairings,
                               rc_renames := rc_renames mark @ renames\<rparr>
            | None \<Rightarrow> \<lparr>rc_expiry = expiry_now, rc_pairings = pairings, rc_renames = renames\<rparr>)
           (sv_reclaim st1)\<rparr>)"

subsection \<open>The welcome sequence\<close>

abbreviation bs :: string where "bs \<equiv> [CHR 0x5C]"
abbreviation sq :: string where "sq \<equiv> [CHR 0x27]"

definition MOTD :: "string list" where
  "MOTD = [
     [],
     ''      _                 _    _ _'',
     ''  ___| |__   ___  _ __ | | _| (_)_ __   ___'',
     '' / __| '' @ sq @ ''_ '' @ bs @ '' / _ '' @ bs @ ''| '' @ sq @ ''_ '' @ bs @ ''| |/ / | | '' @ sq @ ''_ '' @ bs @ '' / _ '' @ bs,
     ''| (__| | | | (_) | | | |   <| | | | | |  __/'',
     '' '' @ bs @ ''___|_| |_|'' @ bs @ ''___/|_| |_|_|'' @ bs @ ''_'' @ bs @ ''_|_|_| |_|'' @ bs @ ''___|'',
     [],
     ''        Chonkbase IRC  --  irc.chonkbase.net  (beta)'',
     [],
     ''  A small, fast IRC server written in Rust. What it offers:'',
     [],
     ''    *  TLS on port 6697, plaintext on 6667'',
     ''    *  SASL PLAIN, and EXTERNAL on TLS with a client certificate'',
     ''    *  IRCv3: message-tags, server-time, account-tag,'',
     ''              away-notify, extended-join, account-notify,'',
     ''              multi-prefix, batch, labeled-response, bot mode (+B)'',
     ''    *  Your address is cloaked -- other users never see your IP'',
     [],
     ''  Services -- claim and protect your identity:'',
     [],
     ''    Nicknames / accounts  (NickServ)'',
     ''        /msg NickServ REGISTER <password>'',
     ''        /msg NickServ IDENTIFY <password>'',
     ''        /msg NickServ SET PASSWORD <current> <new>'',
     ''        /msg NickServ CERT ADD | CERT LIST | CERT DEL <fingerprint>'',
     [],
     ''    Channels  (ChanServ) -- register one you operate'',
     ''        /msg ChanServ REGISTER #channel'',
     ''        /msg ChanServ INFO #channel'',
     ''        /msg ChanServ OP #channel'',
     [],
     ''  Release notes & live stats:  https://irc.chonkbase.net'',
     []]"

definition numerics :: "nat \<Rightarrow> (string \<times> string list) list \<Rightarrow> server \<Rightarrow> server" where
  "numerics i rs st = fold (\<lambda>(code, args). numeric i code args) rs st"

definition motd_replies :: "(string \<times> string list) list" where
  "motd_replies = map (\<lambda>l. let text = take 120 l in (''372'', [if text = [] then '' '' else text])) MOTD"

definition welcome_replies :: "server \<Rightarrow> (string \<times> string list) list" where
  "welcome_replies st =
     (let users = show_nat (user_count st)
      in [(''001'', [''Welcome to the '' @ sv_name st @ '' Internet Relay Chat Network'']),
          (''002'', [''Your host is '' @ sv_name st @ '', running '' @ VERSION]),
          (''003'', [''This server is continuously created'']),
          (''004'', [sv_name st, VERSION, ''iowB'', ''biklmnotv'']),
          (''005'', [''CHANTYPES=#'', ''PREFIX=(ov)@+'', ''CHANMODES=beI,k,l,imntR'', ''STATUSMSG=@+'',
             ''EXCEPTS=e'', ''INVEX=I'', ''CASEMAPPING=rfc1459'', ''BOT=B'', ''NICKLEN=30'',
             ''CHANNELLEN=50'', ''TOPICLEN=390'', ''TARGMAX=PRIVMSG:4,NOTICE:4'', ''NETWORK=Chonkbase'',
             ''SAFELIST'', ''ELIST=M'', '':are supported by this server'']),
          (''251'', [''There are '' @ users @ '' users and '' @ show_nat (invis_count st)
             @ '' invisible on 1 servers''])]
         @ (if 0 < oper_count st then [(''252'', [show_nat (oper_count st), ''operator(s) online''])] else [])
         @ (if 0 < chan_count st then [(''254'', [show_nat (chan_count st), ''channels formed''])] else [])
         @ [(''255'', [''I have '' @ users @ '' clients and 0 servers'']),
            (''265'', [users, users, ''Current local users '' @ users @ '', max '' @ users]),
            (''266'', [users, users, ''Current global users '' @ users @ '', max '' @ users]),
            (''375'', [''- '' @ sv_name st @ '' Message of the Day -''])]
         @ motd_replies
         @ [(''376'', [''End of /MOTD command''])])"

definition welcome_sequence :: "nat \<Rightarrow> server \<Rightarrow> server" where
  "welcome_sequence i st = numerics i (welcome_replies st) st"

subsection \<open>Completing a pairing\<close>

definition introduce_to_links :: "nat \<Rightarrow> server \<Rightarrow> server" where
  "introduce_to_links i st =
     (if sv_links st = [] then st
      else
        let sid = net_sid (sv_network st)
        in case uuid_for_local i (sv_network st) of (uuid, n1) \<Rightarrow>
          (let st1 = st\<lparr>sv_network := n1\<rparr>
           in case find_by_id st1 i of
                None \<Rightarrow> st1
              | Some u \<Rightarrow> to_links (uid_line sid uuid (sv_unix st1) (cx_nick u) (cx_real_host u)
                  (cx_host u) (cx_user u) (cx_real_host u) (sv_unix st1) ''+'' (cx_realname u)) st1))"

definition reg_challenge :: "nat \<Rightarrow> server \<Rightarrow> server" where
  "reg_challenge i st =
     upd_by_id i (\<lambda>u. u\<lparr>cx_reg_challenged := True\<rparr>)
       (deliver i (proto_line (sv_prefix st) ''PING'' ('':'' @ sv_name st @ ''-reg-'' @ show_nat i)) st)"

definition maybe_complete :: "nat \<Rightarrow> string \<Rightarrow> server \<Rightarrow> server" where
  "maybe_complete i realname st = (case find_by_id st i of
     None \<Rightarrow> st
   | Some u \<Rightarrow> (case (cx_pending_nick u, cx_pending_user u) of
       (Some nick, Some user_part) \<Rightarrow>
         (if cx_registered u then st
          else if registration_challenge_enabled (sv_env st) \<and> \<not> cx_reg_verified u then
            (if cx_reg_challenged u then st else reg_challenge i st)
          else if (case lookup st (norm_nick nick) of
                     Some occ \<Rightarrow> hm_contains (sv_reclaim st) (cx_id occ) | None \<Rightarrow> False) then st
          else (case register i nick user_part (cx_host u) realname st of
            (None, st1) \<Rightarrow> nickname_in_use i nick st1
          | (Some _, st1) \<Rightarrow>
              (let st2 = introduce_to_links i st1
               in if cx_opt cx_cap_negotiating False st2 i
                  then upd_by_id i (\<lambda>u. u\<lparr>cx_cap_gated_welcome := True\<rparr>) st2
                  else welcome_sequence i st2)))
     | _ \<Rightarrow> st))"

definition complete_pairing_if_ready :: "nat \<Rightarrow> server \<Rightarrow> server" where
  "complete_pairing_if_ready i st =
     (if cx_opt (\<lambda>u. cx_pending_nick u \<noteq> None \<and> cx_pending_user u \<noteq> None \<and> \<not> cx_registered u) False st i
      then maybe_complete i [] st else st)"

definition finish_deferred_rename :: "nat \<Rightarrow> string \<Rightarrow> server \<Rightarrow> server" where
  "finish_deferred_rename i new_display st =
     (if \<not> cx_opt cx_registered False st i \<or> \<not> valid_nick new_display
         \<or> \<not> nick_free st (norm_nick new_display)
      then st else apply_rename i new_display st)"

definition flush_cap_gated_welcome :: "nat \<Rightarrow> server \<Rightarrow> server" where
  "flush_cap_gated_welcome i st =
     (if cx_opt (\<lambda>u. cx_registered u \<and> cx_cap_gated_welcome u) False st i
      then welcome_sequence i (upd_by_id i (\<lambda>u. u\<lparr>cx_cap_gated_welcome := False\<rparr>) st)
      else st)"

subsection \<open>The commands\<close>

definition rename_registered :: "nat \<Rightarrow> string \<Rightarrow> server \<Rightarrow> server" where
  "rename_registered i new_display st =
     (if \<not> nick_free st (norm_nick new_display) then
        (case map_option cx_id (lookup st (norm_nick new_display)) of
           Some occ \<Rightarrow>
             (if occ \<noteq> i \<and> holder_looks_stale st occ
              then begin_reclaim occ [] [(i, new_display)] st
              else nickname_in_use i new_display st)
         | None \<Rightarrow> nickname_in_use i new_display st)
      else
        let old_prefix = cx_opt cx_prefix [] st i;
            st1 = apply_rename i new_display st;
            st2 = (if sv_links st1 = [] then st1
                   else case local_uuid (sv_network st1) i of
                     None \<Rightarrow> st1
                   | Some uuid \<Rightarrow> to_links ('':'' @ uuid @ '' NICK '' @ new_display @ '' ''
                       @ show_nat (unat (sv_unix st1))) st1)
        in relay_all (channel_peers st2 i @ [i]) (proto_line old_prefix ''NICK'' new_display) st2)"

definition pair_nick :: "nat \<Rightarrow> string \<Rightarrow> server \<Rightarrow> server" where
  "pair_nick i new_display st =
     (let pend = upd_by_id i (\<lambda>u. u\<lparr>cx_pending_nick := Some new_display\<rparr>)
      in case map_option cx_id (lookup st (norm_nick new_display)) of
           None \<Rightarrow> maybe_complete i [] (pend st)
         | Some occ \<Rightarrow>
             (if occ = i then maybe_complete i [] (pend st)
              else if \<not> holder_looks_stale st occ then nickname_in_use i new_display st
              else maybe_complete i [] (pend (begin_reclaim occ [(i, new_display)] [] st))))"

definition handle_nick :: "nat \<Rightarrow> command \<Rightarrow> server \<Rightarrow> server" where
  "handle_nick i cmd st = (case first_opt (cmd_params cmd) of
     None \<Rightarrow> numeric i ''431'' [''No nickname given''] st
   | Some new_display \<Rightarrow>
       (if new_display = [] \<or> \<not> valid_nick new_display
        then numeric i ''432'' [new_display, ''Erroneus nickname''] st
        else if is_service_name new_display
        then numeric i ''432'' [new_display, ''Reserved nickname''] st
        else if cx_opt cx_registered False st i then rename_registered i new_display st
        else pair_nick i new_display st))"

definition handle_user :: "nat \<Rightarrow> command \<Rightarrow> server \<Rightarrow> server" where
  "handle_user i cmd st =
     (if cx_opt cx_registered False st i then numeric i ''462'' [''You may not reregister''] st
      else if length (cmd_params cmd) < 4 then need_more_params i (cmd_name cmd) st
      else
        let user_raw = cmd_params cmd ! 0
        in if user_raw = [] \<or> CHR '' '' \<in> set user_raw then need_more_params i (cmd_name cmd) st
           else
             let user_part = concat (take MAX_USER_LEN (utf8_chars user_raw));
                 realname = str_default (last_opt (cmd_params cmd))
             in case find_by_id st i of
                  None \<Rightarrow> st
                | Some _ \<Rightarrow> maybe_complete i realname
                    (upd_by_id i (\<lambda>u. u\<lparr>cx_pending_user := Some user_part\<rparr>) st))"

definition handle_pass :: "nat \<Rightarrow> command \<Rightarrow> server \<Rightarrow> server" where
  "handle_pass i cmd st =
     (if str_default (first_opt (cmd_params cmd)) = [] then need_more_params i ''PASS'' st
      else if cx_opt cx_registered False st i
      then numeric i ''451'' [''You may not reregister''] st else st)"

section \<open>The invariant is kept\<close>

lemma core_numerics [core_simps]: "core (numerics i rs st) = core st"
  unfolding numerics_def by (rule core_fold) (simp add: core_numeric split: prod.split)

lemma state_inv_numerics [simp]: "state_inv (numerics i rs st) = state_inv st"
  by (rule state_inv_same_core) (simp add: core_simps)

lemma state_inv_welcome [simp]: "state_inv (welcome_sequence i st) = state_inv st"
  by (simp add: welcome_sequence_def)

lemma state_inv_in_use [simp]: "state_inv (nickname_in_use i nick st) = state_inv st"
  by (simp add: nickname_in_use_def)

lemma state_inv_begin_reclaim [simp]: "state_inv (begin_reclaim occ ps rs st) = state_inv st"
  unfolding begin_reclaim_def Let_def state_inv_fields by (cases "hm_contains (sv_ping st) occ") simp_all

lemma state_inv_introduce [simp]: "state_inv (introduce_to_links i st) = state_inv st"
  by (simp add: introduce_to_links_def Let_def split: prod.splits option.splits)

lemma keeps_identity_pending [simp]:
  "keeps_identity (\<lambda>u. u\<lparr>cx_pending_nick := a\<rparr>)" "keeps_identity (\<lambda>u. u\<lparr>cx_pending_user := a\<rparr>)"
  "keeps_identity (\<lambda>u. u\<lparr>cx_cap_gated_welcome := b\<rparr>)" "keeps_identity (\<lambda>u. u\<lparr>cx_reg_challenged := b\<rparr>)"
  "keeps_identity (\<lambda>u. u\<lparr>cx_reg_verified := b\<rparr>)"
  by (simp_all add: keeps_identity_def)

lemma state_inv_maybe_complete [inv_intros]:
  assumes inv: "state_inv st"
  shows "state_inv (maybe_complete i rn st)"
proof -
  have reg: "state_inv s" if "register i n u h rn st = (r, s)" for n u h r s
    using state_inv_register [OF inv, of i n u h rn] that by simp
  show ?thesis
    using inv reg
    by (auto simp: maybe_complete_def reg_challenge_def Let_def state_inv_upd_by_id split: option.splits prod.splits)
qed

lemma state_inv_complete_pairing [inv_intros]: "state_inv st \<Longrightarrow> state_inv (complete_pairing_if_ready i st)"
  by (simp add: complete_pairing_if_ready_def state_inv_maybe_complete)

lemma state_inv_finish_rename [inv_intros]:
  assumes "state_inv st"
  shows "state_inv (finish_deferred_rename i d st)"
  using assms by (auto simp: finish_deferred_rename_def cx_opt_registered intro: state_inv_apply_rename)

lemma state_inv_flush [inv_intros]: "state_inv st \<Longrightarrow> state_inv (flush_cap_gated_welcome i st)"
  by (simp add: flush_cap_gated_welcome_def state_inv_upd_by_id)

lemma state_inv_rename_registered:
  assumes inv: "state_inv st" and reg: "cx_opt cx_registered False st i"
  shows "state_inv (rename_registered i d st)"
proof -
  from reg obtain u where u: "find_by_id st i = Some u" "cx_registered u"
    by (auto simp: cx_opt_registered)
  show ?thesis
    using inv state_inv_apply_rename [OF inv u]
    by (simp add: rename_registered_def Let_def split: option.splits)
qed

lemma state_inv_handle_nick [inv_intros]: "state_inv st \<Longrightarrow> state_inv (handle_nick i cmd st)"
  by (auto simp: handle_nick_def pair_nick_def Let_def state_inv_rename_registered
      split: option.splits intro!: state_inv_maybe_complete state_inv_upd_by_id)

lemma state_inv_handle_user [inv_intros]: "state_inv st \<Longrightarrow> state_inv (handle_user i cmd st)"
  by (auto simp: handle_user_def Let_def split: option.splits
      intro!: state_inv_maybe_complete state_inv_upd_by_id)

lemma state_inv_handle_pass [inv_intros]: "state_inv st \<Longrightarrow> state_inv (handle_pass i cmd st)"
  by (simp add: handle_pass_def)

end
