(* ===== verification/Membership.thy ===== *)
theory Membership
  imports Registration
begin

text \<open>
  Channel membership (\<^verbatim>\<open>src/cmds.rs\<close>): \<^verbatim>\<open>JOIN\<close> with its admission checks,
  \<^verbatim>\<open>PART\<close> and \<^verbatim>\<open>TOPIC\<close>.
\<close>

section \<open>Definitions\<close>

definition is_graphic :: "char \<Rightarrow> bool" where
  "is_graphic c \<longleftrightarrow> 33 \<le> byte_val c \<and> byte_val c \<le> 126"

definition valid_channel :: "string \<Rightarrow> bool" where
  "valid_channel s = (case s of
     [] \<Rightarrow> False
   | c # cs \<Rightarrow> (c = CHR ''#'' \<or> c = CHR ''&'') \<and> 2 \<le> length s \<and> length s \<le> 50
       \<and> list_all (\<lambda>c. is_graphic c \<and> c \<noteq> CHR '','') cs)"

definition nosuch_channel :: "nat \<Rightarrow> string \<Rightarrow> server \<Rightarrow> server" where
  "nosuch_channel i ch st = numeric i ''403'' [ch, ''No such channel''] st"

definition too_many_channels :: "nat \<Rightarrow> string \<Rightarrow> server \<Rightarrow> server" where
  "too_many_channels i ch st = numeric i ''405'' [ch, ''You have joined too many channels''] st"

definition join_denied :: "nat \<Rightarrow> nat \<Rightarrow> string \<Rightarrow> server \<Rightarrow> server" where
  "join_denied i code display st =
     (let suffix = (if code = 473 then ''(+i)'' else if code = 474 then ''(+b)'' else ''(+k)'')
      in numeric i (show_nat code) [display, ''Cannot join channel '' @ suffix] st)"

definition not_on_channel :: "nat \<Rightarrow> string \<Rightarrow> server \<Rightarrow> server" where
  "not_on_channel i ch st = numeric i ''442'' [ch, ''You'' @ sq @ ''re not on that channel''] st"

definition chanop_privs_needed :: "nat \<Rightarrow> string \<Rightarrow> server \<Rightarrow> server" where
  "chanop_privs_needed i ch st = numeric i ''482'' [ch, ''You'' @ sq @ ''re not channel operator''] st"

definition names_entry :: "string \<Rightarrow> cx \<Rightarrow> bool \<Rightarrow> string" where
  "names_entry mk u userhost =
     (if userhost then mk @ cx_nick u @ ''!'' @ cx_user u @ ''@'' @ cx_host u else mk @ cx_nick u)"

definition names_symbol :: "chn \<Rightarrow> string" where
  "names_symbol c = (if ch_secret c then ''@'' else if ch_private c then ''*'' else ''='')"

definition remote_names :: "server \<Rightarrow> string \<Rightarrow> string list" where
  "remote_names st ck = List.map_filter (\<lambda>uuid. map_option ru_nick (net_user (sv_network st) uuid))
     (members_of (sv_network st) ck)"

definition send_topic_state :: "nat \<Rightarrow> string \<Rightarrow> server \<Rightarrow> server" where
  "send_topic_state i display st =
     (case (case chan st (norm_nick display) of
              Some c \<Rightarrow> (ch_topic c, ch_topic_setter c, ch_topic_time c) | None \<Rightarrow> ([], [], 0)) of
        (topic, setr, tm) \<Rightarrow>
          (if topic = [] then numeric i ''331'' [display, ''No topic is set''] st
           else
             let st1 = numeric i ''332'' [display, '':'' @ topic] st
             in if setr \<noteq> [] \<and> 0 < tm
                then numeric i ''333'' [display, setr, show_nat (unat tm)] st1 else st1))"

definition relay_join_to_links :: "nat \<Rightarrow> string \<Rightarrow> string \<Rightarrow> server \<Rightarrow> server" where
  "relay_join_to_links i ck display st =
     (if sv_links st = [] then st
      else
        let sid = net_sid (sv_network st)
        in case uuid_for_local i (sv_network st) of (uuid, n1) \<Rightarrow>
          (let ts = chan_opt ch_created_at 0 st ck;
               isop = chan_opt (\<lambda>c. is_op c i) False st ck
           in if members_of n1 ck \<noteq> [] then
                (case next_membid n1 of (mid, n2) \<Rightarrow>
                   to_links ('':'' @ uuid @ '' IJOIN '' @ display @ '' '' @ show_nat (unat mid))
                     (st\<lparr>sv_network := n2\<rparr>))
              else
                (case chan_opt burst_mode_parts (''+'', []) st ck of (flags, mparams) \<Rightarrow>
                   to_links (fjoin_line_with_params sid display ts flags mparams
                     [(if isop then ''o'' else [], uuid)]) (st\<lparr>sv_network := n1\<rparr>))))"

definition extended_join_line :: "string \<Rightarrow> string \<Rightarrow> string option \<Rightarrow> string \<Rightarrow> string" where
  "extended_join_line pfx display acct realname =
     proto_line pfx ''JOIN'' (display @ '' '' @ opt_default ''*'' acct @ '' :'' @ realname)"

definition broadcast_join :: "nat \<Rightarrow> nat list \<Rightarrow> string \<Rightarrow> string \<Rightarrow> server \<Rightarrow> server" where
  "broadcast_join i members pfx display st =
     (let acct = cx_opt cx_account None st i; realname = cx_opt cx_realname [] st i
      in fold (\<lambda>mid s. if mid = i then s
           else relay_tagged mid
             (if cx_opt (\<lambda>u. extended_join (cx_caps u)) False s mid
              then extended_join_line pfx display acct realname
              else proto_line pfx ''JOIN'' display) s) members st)"

definition names_listing :: "server \<Rightarrow> nat \<Rightarrow> string \<Rightarrow> string list" where
  "names_listing st i ck =
     (let multi = cx_opt (\<lambda>u. multi_prefix (cx_caps u)) False st i;
          uhin = cx_opt (\<lambda>u. userhost_in_names (cx_caps u)) False st i
      in (case chan st ck of
            None \<Rightarrow> []
          | Some c \<Rightarrow> List.map_filter (\<lambda>mid. map_option (\<lambda>u.
              names_entry (if multi then all_markers c mid else marker c mid) u uhin) (find_by_id st mid))
              (sorted_list_of_set (ch_members c)))
         @ remote_names st ck)"

definition joiner_replies :: "nat \<Rightarrow> string \<Rightarrow> server \<Rightarrow> server" where
  "joiner_replies i display st =
     (let pfx = cx_opt cx_prefix [] st i;
          self_join = (case find_by_id st i of
             Some u \<Rightarrow> (if extended_join (cx_caps u)
                        then extended_join_line pfx display (cx_account u) (cx_realname u)
                        else proto_line pfx ''JOIN'' display)
           | None \<Rightarrow> proto_line pfx ''JOIN'' display);
          st1 = send_topic_state i display (relay_tagged i self_join st);
          listing = join_with '' '' (names_listing st1 i (norm_nick display));
          sym = chan_opt names_symbol ''='' st1 (norm_nick display);
          st2 = numeric i ''353'' [sym, display, '':'' @ listing] st1
      in numeric i ''366'' [display, ''End of /NAMES list''] st2)"

definition apply_founder_status :: "nat \<Rightarrow> string \<Rightarrow> server \<Rightarrow> server" where
  "apply_founder_status i ck st = (case cx_opt cx_account None st i of
     None \<Rightarrow> st
   | Some account \<Rightarrow>
       (if \<not> is_founder (sv_chanreg st) ck account then st
        else if chan_opt (\<lambda>c. is_op c i) True st ck then st
        else case (chan st ck, find_by_id st i) of
          (Some c, Some u) \<Rightarrow>
            (let st1 = upd_chan ck (grant i True) st;
                 line = proto_line ('':ChanServ!services@'' @ sv_name st1) ''MODE''
                          (ch_display c @ '' +o '' @ cx_nick u)
             in relay_all (members_list st1 ck) line st1)
        | _ \<Rightarrow> st))"

text \<open>Why a join to an existing channel is refused; the order is that of the checks.\<close>

datatype join_check = Denied nat | NeedReggedNick | AlreadyMember | TooManyChannels | Admitted

definition join_checks :: "cx option \<Rightarrow> nat \<Rightarrow> chn \<Rightarrow> string \<Rightarrow> join_check" where
  "join_checks uo i c key =
     (let invex_ok = (case uo of Some u \<Rightarrow> invex_match c u | None \<Rightarrow> False);
          regonly_block = (case uo of Some u \<Rightarrow> ch_regonly c \<and> cx_account u = None | None \<Rightarrow> False);
          banned = (case uo of Some u \<Rightarrow> ban_match c u \<noteq> None \<and> \<not> except_match c u | None \<Rightarrow> False)
      in if ch_invite_only c \<and> \<not> invited c i \<and> \<not> invex_ok then Denied 473
         else if regonly_block then NeedReggedNick
         else if banned then Denied 474
         else if (case ch_chan_key c of Some ck \<Rightarrow> norm_nick key \<noteq> ck | None \<Rightarrow> False) then Denied 475
         else if is_member c i then AlreadyMember
         else if MAX_CHANNELS \<le> (case uo of Some u \<Rightarrow> card (cx_chans u) | None \<Rightarrow> 0) then TooManyChannels
         else Admitted)"

definition join_existing :: "nat \<Rightarrow> string \<Rightarrow> string \<Rightarrow> server \<Rightarrow> server" where
  "join_existing i ck key st = (case chan st ck of
     None \<Rightarrow> st
   | Some c \<Rightarrow>
       let display = ch_display c
       in case join_checks (find_by_id st i) i c key of
            Denied code \<Rightarrow> join_denied i code display st
          | NeedReggedNick \<Rightarrow> numeric i ''477'' [display,
              ''You must be identified to a registered account to join this channel''] st
          | AlreadyMember \<Rightarrow> st
          | TooManyChannels \<Rightarrow> too_many_channels i display st
          | Admitted \<Rightarrow>
              let pfx = cx_opt cx_prefix [] st i;
                  st1 = upd_by_id i (add_chan ck) st;
                  st2 = upd_chan ck (\<lambda>c. consume_invite i (admit_plain i c)) st1;
                  st3 = relay_join_to_links i ck display st2;
                  st4 = broadcast_join i (members_list st3 ck) pfx display st3
              in apply_founder_status i ck (joiner_replies i display st4))"

definition create_channel :: "nat \<Rightarrow> string \<Rightarrow> string \<Rightarrow> server \<Rightarrow> server" where
  "create_channel i ck display st =
     (let regd = is_registered (sv_chanreg st) ck;
          restore_topic = (if regd then (case reg_get (sv_chanreg st) ck of Some r \<Rightarrow> reg_topic r | None \<Rightarrow> []) else []);
          st1 = chan_or_create ck display st;
          st2 = upd_chan ck (if regd then admit_plain i else admit_as_op i) st1;
          st3 = (if regd \<and> restore_topic \<noteq> [] then upd_chan ck (\<lambda>c. c\<lparr>ch_topic := restore_topic\<rparr>) st2 else st2);
          st4 = upd_by_id i (add_chan ck) st3;
          st5 = relay_join_to_links i ck display st4;
          st6 = joiner_replies i display st5
      in if regd then apply_founder_status i ck st6 else st6)"

definition join_one :: "nat \<Rightarrow> string list option \<Rightarrow> nat \<times> string \<Rightarrow> server \<Rightarrow> server" where
  "join_one i keys e st = (case e of (idx, raw) \<Rightarrow>
     (if \<not> valid_channel raw then nosuch_channel i raw st
      else
        let key = str_default (case keys of Some ks \<Rightarrow> nth_opt ks idx | None \<Rightarrow> None);
            ck = norm_nick raw
        in if chan st ck \<noteq> None then join_existing i ck key st
           else if MAX_CHANNELS \<le> cx_opt (\<lambda>u. card (cx_chans u)) 0 st i then too_many_channels i raw st
           else create_channel i ck raw st))"

definition handle_join :: "nat \<Rightarrow> command \<Rightarrow> server \<Rightarrow> server" where
  "handle_join i cmd st = (case first_opt (cmd_params cmd) of
     None \<Rightarrow> need_more_params i ''JOIN'' st
   | Some lst \<Rightarrow>
       let chans = filter (\<lambda>c. c \<noteq> []) (split_on (CHR '','') lst);
           keys = map_option (split_on (CHR '','')) (nth_opt (cmd_params cmd) 1)
       in fold (join_one i keys) (List.enumerate 0 chans) st)"

definition part_tail :: "string \<Rightarrow> string option \<Rightarrow> string" where
  "part_tail raw why = (case why of
     Some r \<Rightarrow> if r \<noteq> [] then raw @ '' :'' @ r else raw | None \<Rightarrow> raw)"

definition uuid_to_links :: "nat \<Rightarrow> string \<Rightarrow> server \<Rightarrow> server" where
  "uuid_to_links i text st =
     (if sv_links st = [] then st
      else case local_uuid (sv_network st) i of
        None \<Rightarrow> st | Some uuid \<Rightarrow> to_links ('':'' @ uuid @ text) st)"

definition part_one :: "nat \<Rightarrow> string option \<Rightarrow> string \<Rightarrow> server \<Rightarrow> server" where
  "part_one i why raw st =
     (let ck = norm_nick raw
      in if chan st ck = None then nosuch_channel i raw st
         else if \<not> chan_opt (\<lambda>c. is_member c i) False st ck then not_on_channel i raw st
         else
           let pfx = cx_opt cx_prefix [] st i;
               st1 = upd_by_id i (del_chan ck) st;
               st2 = uuid_to_links i ('' PART '' @ ck @ '' :'' @ str_default why) st1;
               st3 = upd_chan ck (\<lambda>c. snd (eject i c)) st2;
               line = proto_line pfx ''PART'' (part_tail raw why);
               st4 = relay_tagged i line st3
           in relay_all (members_list st4 ck) line st4)"

definition handle_part :: "nat \<Rightarrow> command \<Rightarrow> server \<Rightarrow> server" where
  "handle_part i cmd st = (case first_opt (cmd_params cmd) of
     None \<Rightarrow> need_more_params i ''PART'' st
   | Some lst \<Rightarrow> drop_empty_channels
       (fold (part_one i (nth_opt (cmd_params cmd) 1)) (filter (\<lambda>c. c \<noteq> []) (split_on (CHR '','') lst)) st))"

definition ftopic_to_links :: "nat \<Rightarrow> string \<Rightarrow> string \<Rightarrow> string \<Rightarrow> server \<Rightarrow> server" where
  "ftopic_to_links i ck raw new_topic st =
     (if sv_links st = [] then st
      else case uuid_for_local i (sv_network st) of (uuid, n1) \<Rightarrow>
        (let st1 = st\<lparr>sv_network := n1\<rparr>
         in to_links ('':'' @ uuid @ '' FTOPIC '' @ chan_opt ch_display raw st1 ck @ '' ''
              @ show_nat (unat (chan_opt ch_created_at 0 st1 ck)) @ '' '' @ show_nat (unat (sv_unix st1)) @ '' ''
              @ cx_opt cx_nick [] st1 i @ '' :'' @ new_topic) st1))"

definition set_topic_by :: "nat \<Rightarrow> string \<Rightarrow> string \<Rightarrow> string \<Rightarrow> server \<Rightarrow> server" where
  "set_topic_by i ck raw new_topic st =
     (let pfx = cx_opt cx_prefix [] st i;
          setr = cx_opt cx_nick [] st i;
          st1 = upd_chan ck (\<lambda>c. c\<lparr>ch_topic := new_topic, ch_topic_setter := setr,
                              ch_topic_time := sv_unix st\<rparr>) st;
          st2 = (if is_registered (sv_chanreg st1) ck
                 then st1\<lparr>sv_chanreg := reg_set_topic (w_write_ok (sv_world st1)) ck new_topic (sv_chanreg st1)\<rparr>
                 else st1);
          st3 = relay_all (members_list st2 ck) (proto_line pfx ''TOPIC'' (raw @ '' :'' @ new_topic)) st2
      in ftopic_to_links i ck raw new_topic st3)"

definition handle_topic :: "nat \<Rightarrow> command \<Rightarrow> server \<Rightarrow> server" where
  "handle_topic i cmd st = (case first_opt (cmd_params cmd) of
     None \<Rightarrow> need_more_params i ''TOPIC'' st
   | Some raw \<Rightarrow>
       let ck = norm_nick raw
       in if chan st ck = None then nosuch_channel i raw st
          else if \<not> chan_opt (\<lambda>c. is_member c i) False st ck then not_on_channel i raw st
          else case last_opt (cmd_params cmd) of
            Some new_topic \<Rightarrow>
              (if chan_opt ch_op_topic False st ck \<and> \<not> chan_opt (\<lambda>c. is_op c i) False st ck
               then chanop_privs_needed i raw st
               else set_topic_by i ck raw new_topic st)
          | None \<Rightarrow> send_topic_state i raw st)"

section \<open>The invariant is kept\<close>

lemma core_fold_at: "(\<And>x s. x \<in> set xs \<Longrightarrow> core (f x s) = core s) \<Longrightarrow> core (fold f xs st) = core st"
  by (induction xs arbitrary: st) auto

lemma core_replies [core_simps]:
  "core (nosuch_channel i c st) = core st" "core (too_many_channels i c st) = core st"
  "core (join_denied i n d st) = core st" "core (not_on_channel i c st) = core st"
  "core (chanop_privs_needed i c st) = core st" "core (send_topic_state i d st) = core st"
  "core (uuid_to_links i t st) = core st"
  by (simp_all add: nosuch_channel_def too_many_channels_def join_denied_def not_on_channel_def
      chanop_privs_needed_def send_topic_state_def uuid_to_links_def Let_def core_simps
      split: prod.splits option.splits)

lemma core_broadcast_join [core_simps]: "core (broadcast_join i ms p d st) = core st"
  unfolding broadcast_join_def Let_def by (rule core_fold) (simp add: core_simps)

lemma core_joiner_replies [core_simps]: "core (joiner_replies i d st) = core st"
  by (simp add: joiner_replies_def Let_def core_simps)

lemma state_inv_replies [simp]:
  "state_inv (nosuch_channel i c st) = state_inv st" "state_inv (too_many_channels i c st) = state_inv st"
  "state_inv (join_denied i n d st) = state_inv st" "state_inv (not_on_channel i c st) = state_inv st"
  "state_inv (chanop_privs_needed i c st) = state_inv st" "state_inv (send_topic_state i d st) = state_inv st"
  "state_inv (uuid_to_links i t st) = state_inv st" "state_inv (broadcast_join i ms p d st) = state_inv st"
  "state_inv (joiner_replies i d st) = state_inv st"
  by (rule state_inv_same_core, simp add: core_simps)+

lemma state_inv_relay_join [simp]: "state_inv (relay_join_to_links i ck d st) = state_inv st"
  by (simp add: relay_join_to_links_def Let_def split: prod.splits)

lemma state_inv_ftopic [simp]: "state_inv (ftopic_to_links i ck raw t st) = state_inv st"
  by (simp add: ftopic_to_links_def Let_def split: prod.splits)

text \<open>A connection that is registered, and what keeps it so.\<close>

definition reg_in :: "server \<Rightarrow> nat \<Rightarrow> bool" where
  "reg_in st i \<longleftrightarrow> (\<exists>k u. hm_get (sv_users st) k = Some u \<and> cx_id u = i)"

lemma reg_in_iff:
  assumes "state_inv st"
  shows "reg_in st i \<longleftrightarrow> cx_opt cx_registered False st i"
proof
  assume "reg_in st i"
  then obtain k u where u: "hm_get (sv_users st) k = Some u" "cx_id u = i" by (auto simp: reg_in_def)
  then have "cx_registered u" using state_invD(4) [OF assms] by (auto simp: ids_ok_def)
  with u find_by_id_user [OF assms u(1)] show "cx_opt cx_registered False st i" by (simp add: cx_opt_def)
next
  assume "cx_opt cx_registered False st i"
  then obtain u where "find_by_id st i = Some u" "cx_registered u" by (auto simp: cx_opt_registered)
  with find_by_id_Some [OF assms] show "reg_in st i" by (fastforce simp: reg_in_def)
qed

lemma reg_in_core: "core st' = core st \<Longrightarrow> reg_in st' i = reg_in st i"
proof -
  have "reg_in s i \<longleftrightarrow> (\<exists>k u. hm_get (sv_users (core s)) k = Some u \<and> cx_id u = i)" for s
    unfolding reg_in_def core_get ex_map_option erase_fields ..
  then show "core st' = core st \<Longrightarrow> reg_in st' i = reg_in st i" by simp
qed

lemma reg_in_users: "sv_users st' = sv_users st \<Longrightarrow> reg_in st' i = reg_in st i"
  by (simp add: reg_in_def)

lemma reg_in_upd_by_id:
  assumes "state_inv st" "\<And>u. cx_id (f u) = cx_id u"
  shows "reg_in (upd_by_id j f st) i = reg_in st i"
proof -
  have "cx_id (if cx_id u = j then f u else u) = cx_id u" for u using assms(2) by simp
  then show ?thesis unfolding reg_in_def upd_by_id_get [OF assms(1)] ex_map_option by simp
qed

definition live :: "nat \<Rightarrow> server \<Rightarrow> bool" where
  "live i st \<longleftrightarrow> state_inv st \<and> reg_in st i"

lemma live_core: "core st' = core st \<Longrightarrow> live i st' = live i st"
  unfolding live_def by (simp add: reg_in_core [of st' st] state_inv_same_core [of st' st])

lemma live_output [simp]:
  "live j (deliver i l st) = live j st" "live j (relay_tagged i l st) = live j st"
  "live j (relay_all is l st) = live j st" "live j (numeric i c as st) = live j st"
  "live j (need_more_params i t st) = live j st" "live j (to_links l st) = live j st"
  "live j (nosuch_channel i c st) = live j st" "live j (too_many_channels i c st) = live j st"
  "live j (join_denied i n d st) = live j st" "live j (not_on_channel i c st) = live j st"
  "live j (chanop_privs_needed i c st) = live j st" "live j (send_topic_state i d st) = live j st"
  "live j (uuid_to_links i t st) = live j st" "live j (broadcast_join i ms p d st) = live j st"
  "live j (joiner_replies i d st) = live j st"
  by (rule live_core, simp add: core_simps)+

lemma live_network [simp]: "live j (st\<lparr>sv_network := n\<rparr>) = live j st"
  by (simp add: live_def reg_in_def)

lemma live_chanreg [simp]: "live j (st\<lparr>sv_chanreg := n\<rparr>) = live j st"
  by (simp add: live_def reg_in_def)

lemma live_relay_join [simp]: "live j (relay_join_to_links i ck d st) = live j st"
  by (simp add: relay_join_to_links_def Let_def split: prod.splits)

lemma live_fold: "(\<And>x s. live i s \<Longrightarrow> live i (f x s)) \<Longrightarrow> live i st \<Longrightarrow> live i (fold f xs st)"
  by (induction xs arbitrary: st) auto

text \<open>Members of a channel, through output.\<close>

definition in_chan :: "nat \<Rightarrow> string \<Rightarrow> server \<Rightarrow> bool" where
  "in_chan i ck st \<longleftrightarrow> (\<forall>c. hm_get (sv_chans st) (norm_nick ck) = Some c \<longrightarrow> i \<in> ch_members c)"

lemma in_chan_chans: "sv_chans st' = sv_chans st \<Longrightarrow> in_chan i ck st' = in_chan i ck st"
  by (simp add: in_chan_def)

lemma in_chan_core: "core st' = core st \<Longrightarrow> in_chan i ck st' = in_chan i ck st"
  using core_fields(1) by (metis in_chan_chans)

lemma relay_join_chans [simp]: "sv_chans (relay_join_to_links i ck d st) = sv_chans st"
  by (simp add: relay_join_to_links_def Let_def split: prod.splits)

lemma in_chan_output [simp]:
  "in_chan j ck (joiner_replies i d st) = in_chan j ck st"
  "in_chan j ck (broadcast_join i ms p d st) = in_chan j ck st"
  by (rule in_chan_core, simp add: core_simps)+

lemma in_chan_relay_join [simp]: "in_chan j ck (relay_join_to_links i ck' d st) = in_chan j ck st"
  by (rule in_chan_chans) simp

lemma live_upd_chan_at:
  assumes "live i st" and "\<And>c. hm_get (sv_chans st) (norm_nick ck) = Some c \<Longrightarrow>
      ch_members (g c) = ch_members c \<and> ch_ops (g c) \<subseteq> ch_members c \<and> ch_voices (g c) \<subseteq> ch_members c"
  shows "live i (upd_chan ck g st)"
  using assms state_inv_upd_chan_at [of st ck g] by (simp add: live_def reg_in_def)

lemma live_upd_chan: "live i st \<Longrightarrow> keeps_members g \<Longrightarrow> live i (upd_chan ck g st)"
  by (simp add: live_def reg_in_def state_inv_upd_chan)

lemma chan_shape:
  assumes "state_inv st" "hm_get (sv_chans st) ck = Some c"
  shows "ch_ops c \<subseteq> ch_members c" "ch_voices c \<subseteq> ch_members c" "finite (ch_members c)" "norm_nick ck = ck"
  using state_invD(5) [OF assms(1)] assms(2) by (auto simp: memb_ok_def)

lemma live_apply_founder:
  assumes live: "live j st" and mem: "in_chan i ck st"
  shows "live j (apply_founder_status i ck st)"
proof -
  have "live j (upd_chan ck (grant i True) st)"
    using live
  proof (rule live_upd_chan_at)
    fix c
    assume c: "hm_get (sv_chans st) (norm_nick ck) = Some c"
    with mem have "i \<in> ch_members c" by (simp add: in_chan_def)
    with chan_shape [OF _ c] live
    show "ch_members (grant i True c) = ch_members c \<and> ch_ops (grant i True c) \<subseteq> ch_members c
        \<and> ch_voices (grant i True c) \<subseteq> ch_members c"
      by (auto simp: grant_def live_def)
  qed
  with live show ?thesis
    by (simp add: apply_founder_status_def Let_def split: option.splits)
qed

lemma card_chans_room:
  assumes "live i st" "cx_opt (\<lambda>u. card (cx_chans u)) 0 st i < MAX_CHANNELS"
  obtains k u where "hm_get (sv_users st) k = Some u" "cx_id u = i" "card (cx_chans u) < MAX_CHANNELS"
  using assms find_by_id_user [of st] by (auto simp: live_def reg_in_def cx_opt_def)

lemma live_join:
  assumes live: "live i st" and c: "hm_get (sv_chans st) ck = Some c"
    and room: "cx_opt (\<lambda>u. card (cx_chans u)) 0 st i < MAX_CHANNELS"
    and g: "ch_members (g c) = insert i (ch_members c)" "ch_ops (g c) \<subseteq> insert i (ch_ops c)"
      "ch_voices (g c) \<subseteq> ch_voices c"
  shows "live i (upd_chan ck g (upd_by_id i (add_chan ck) st))"
    and "in_chan i ck (upd_chan ck g (upd_by_id i (add_chan ck) st))"
proof -
  from live have inv: "state_inv st" by (simp add: live_def)
  from live room obtain k u where "hm_get (sv_users st) k = Some u" "cx_id u = i" "card (cx_chans u) < MAX_CHANNELS"
    by (rule card_chans_room)
  from state_inv_join [where g = g, OF inv this(1,2) c this(3) g]
  show "live i (upd_chan ck g (upd_by_id i (add_chan ck) st))"
    using live by (simp add: live_def reg_in_users [OF upd_chan_same(1)] reg_in_upd_by_id [OF inv])
  show "in_chan i ck (upd_chan ck g (upd_by_id i (add_chan ck) st))"
    using c chan_shape(4) [OF inv c] g(1) by (simp add: in_chan_def upd_chan_get)
qed

lemma live_join_existing:
  assumes live: "live i st" and ck: "norm_nick ck = ck"
  shows "live i (join_existing i ck key st)"
proof (cases "chan st ck")
  case None
  with live show ?thesis by (simp add: join_existing_def)
next
  case (Some c)
  then have c: "hm_get (sv_chans st) ck = Some c" using ck by (simp add: chan_def)
  show ?thesis
  proof (cases "join_checks (find_by_id st i) i c key")
    case Admitted
    define g where "g = (\<lambda>c. consume_invite i (admit_plain i c))"
    have g: "ch_members (g c) = insert i (ch_members c)" "ch_ops (g c) \<subseteq> insert i (ch_ops c)"
      "ch_voices (g c) \<subseteq> ch_voices c"
      by (auto simp: g_def consume_invite_def admit_plain_def)
    have "cx_opt (\<lambda>u. card (cx_chans u)) 0 st i < MAX_CHANNELS"
      using Admitted by (auto simp: join_checks_def Let_def cx_opt_def split: if_splits option.splits)
    note joined = live_join [where g = g, OF live c this g]
    show ?thesis
      unfolding join_existing_def Some option.case Let_def Admitted join_check.case g_def [symmetric]
      by (rule live_apply_founder) (use joined in simp_all)
  qed (use live Some in \<open>simp_all add: join_existing_def\<close>)
qed

lemma chan_or_create_get:
  "hm_get (sv_chans (chan_or_create ck d st)) (norm_nick ck) = (case hm_get (sv_chans st) (norm_nick ck) of
     Some c \<Rightarrow> Some c | None \<Rightarrow> Some (chn_new (sv_unix st) d))"
  by (auto simp: chan_or_create_def Let_def hm_contains_get hm_simps split: option.splits)

lemma chan_or_create_same [simp]:
  "sv_users (chan_or_create ck d st) = sv_users st" "find_by_id (chan_or_create ck d st) i = find_by_id st i"
  by (simp_all add: chan_or_create_def Let_def find_by_id_def split: option.splits)

lemma live_create_channel:
  assumes live: "live i st" and ck: "norm_nick ck = ck" and none: "chan st ck = None"
    and room: "cx_opt (\<lambda>u. card (cx_chans u)) 0 st i < MAX_CHANNELS"
  shows "live i (create_channel i ck display st)"
proof -
  define st1 where "st1 = chan_or_create ck display st"
  define regd where "regd = is_registered (sv_chanreg st) ck"
  define topic where "topic = (if regd then (case reg_get (sv_chanreg st) ck of Some r \<Rightarrow> reg_topic r | None \<Rightarrow> []) else [])"
  define g1 where "g1 = (if regd then admit_plain i else admit_as_op i)"
  define g2 :: "chn \<Rightarrow> chn" where "g2 = (if regd \<and> topic \<noteq> [] then (\<lambda>c. c\<lparr>ch_topic := topic\<rparr>) else (\<lambda>c. c))"
  define g where "g = (\<lambda>c. g2 (g1 c))"
  define c where "c = chn_new (sv_unix st) display"
  have live1: "live i st1"
    using live state_inv_chan_or_create by (simp add: live_def reg_in_def st1_def)
  have c: "hm_get (sv_chans st1) ck = Some c"
    using none chan_or_create_get [of ck display st] ck by (simp add: chan_def st1_def c_def)
  have room1: "cx_opt (\<lambda>u. card (cx_chans u)) 0 st1 i < MAX_CHANNELS"
    using room by (simp add: st1_def cx_opt_def)
  have g: "ch_members (g c) = insert i (ch_members c)" "ch_ops (g c) \<subseteq> insert i (ch_ops c)"
    "ch_voices (g c) \<subseteq> ch_voices c"
    by (auto simp: g_def g1_def g2_def admit_plain_def admit_as_op_def)
  note joined = live_join [where g = g, OF live1 c room1 g]
  have twice: "upd_chan ck b (upd_chan ck a s) = upd_chan ck (\<lambda>c. b (a c)) s" for a b s
    by (simp add: upd_chan_def hm_simps split: option.splits)
  have same: "(if regd \<and> topic \<noteq> [] then upd_chan ck (\<lambda>c. c\<lparr>ch_topic := topic\<rparr>) s else s) = upd_chan ck g2 s" for s
    by (simp add: g2_def upd_chan_def update_triv split: option.splits)
  have "(if regd \<and> topic \<noteq> [] then upd_chan ck (\<lambda>c. c\<lparr>ch_topic := topic\<rparr>) (upd_chan ck g1 st1) else upd_chan ck g1 st1)
      = upd_chan ck g2 (upd_chan ck g1 st1)" by (rule same)
  also have "\<dots> = upd_chan ck g st1" unfolding g_def by (rule twice)
  finally have eq: "upd_by_id i (add_chan ck)
        (if regd \<and> topic \<noteq> [] then upd_chan ck (\<lambda>c. c\<lparr>ch_topic := topic\<rparr>) (upd_chan ck g1 st1) else upd_chan ck g1 st1)
      = upd_chan ck g (upd_by_id i (add_chan ck) st1)"
    by (simp only: upd_commute)
  show ?thesis
    unfolding create_channel_def Let_def regd_def [symmetric] topic_def [symmetric] g1_def [symmetric]
      st1_def [symmetric] eq
    using joined live_apply_founder by simp
qed

lemma live_join_one: "live i st \<Longrightarrow> live i (join_one i keys e st)"
  by (cases e) (auto simp: join_one_def Let_def live_join_existing live_create_channel not_le)

lemma live_handle_join: "live i st \<Longrightarrow> live i (handle_join i cmd st)"
  by (auto simp: handle_join_def Let_def live_join_one intro: live_fold split: option.splits)

lemma live_part_one:
  assumes live: "live i st"
  shows "live i (part_one i why raw st)"
proof -
  define ck where "ck = norm_nick raw"
  let ?g = "\<lambda>c. snd (eject i c)"
  let ?s2 = "uuid_to_links i ('' PART '' @ ck @ '' :'' @ str_default why) (upd_by_id i (del_chan ck) st)"
  have inv: "state_inv st" using live by (simp add: live_def)
  have ck: "norm_nick ck = ck" by (simp add: ck_def)
  have comm: "upd_chan ck g (uuid_to_links i t s) = uuid_to_links i t (upd_chan ck g s)" for g t s
    by (simp add: upd_chan_def uuid_to_links_def to_links_chans split: option.splits)
  have strip: "snd (eject i d) = strip_member i d" if "hm_get (sv_chans st) ck = Some d" for d
    using chan_shape(1,2) [OF inv that] by (auto simp: eject_def strip_member_def intro!: chn.equality)
  have "upd_chan ck ?g (upd_by_id i (del_chan ck) st) = upd_chan ck (strip_member i) (upd_by_id i (del_chan ck) st)"
    using strip ck by (simp add: upd_chan_def split: option.splits)
  moreover have "state_inv (upd_chan ck (strip_member i) (upd_by_id i (del_chan ck) st))"
    using inv ck by (rule state_inv_part) (simp_all add: strip_member_def)
  ultimately have "live i (upd_chan ck ?g (upd_by_id i (del_chan ck) st))"
    using live reg_in_upd_by_id [OF inv, of "del_chan ck" i i]
    by (simp add: live_def reg_in_users [OF upd_chan_same(1)])
  then have "live i (upd_chan ck ?g ?s2)" unfolding comm by simp
  then show ?thesis
    using live unfolding part_one_def Let_def ck_def [symmetric] by simp
qed

lemma live_drop_empty: "live i st \<Longrightarrow> live i (drop_empty_channels st)"
  by (simp add: live_def state_inv_drop_empty reg_in_def)

lemma live_handle_part: "live i st \<Longrightarrow> live i (handle_part i cmd st)"
  by (auto simp: handle_part_def live_part_one intro!: live_drop_empty live_fold split: option.splits)

lemma live_handle_topic:
  assumes "live i st"
  shows "live i (handle_topic i cmd st)"
proof -
  have "live i (upd_chan ck (\<lambda>c. c\<lparr>ch_topic := t, ch_topic_setter := n, ch_topic_time := u\<rparr>) st)" for ck t n u
    using assms by (rule live_upd_chan) (simp add: keeps_members_def)
  then have "live i (set_topic_by i ck raw t st)" for ck raw t
    by (simp add: set_topic_by_def Let_def ftopic_to_links_def split: prod.splits)
  with assms show ?thesis by (simp add: handle_topic_def Let_def split: option.splits)
qed

end
