(* ===== verification/Modes.thy ===== *)
theory Modes
  imports Membership
begin

text \<open>
  \<^verbatim>\<open>MODE\<close> (\<^verbatim>\<open>src/cmds.rs\<close>, \<^verbatim>\<open>handle_mode\<close> to \<^verbatim>\<open>mode_invex_list\<close> and
  \<^verbatim>\<open>mode_user\<close>). The index arithmetic of \<^verbatim>\<open>mode_channel\<close> over its list of terms
  becomes a recursion on the terms still to be read: \<open>args\<close> is what follows the current term, and
  the number of arguments consumed so far indexes it. A term either ends the command early
  (\<^const>\<open>Inl\<close>) or is applied (\<^const>\<open>Inr\<close>). Flags are ASCII, so a term is scanned by bytes;
  where a character itself is shown, by \<^const>\<open>utf8_chars\<close>.
\<close>

section \<open>Definitions\<close>

definition has_mode_sign :: "string \<Rightarrow> bool" where
  "has_mode_sign s = (case s of [] \<Rightarrow> False | c # _ \<Rightarrow> c = CHR ''+'' \<or> c = CHR ''-'')"

definition user_not_in_channel :: "nat \<Rightarrow> string \<Rightarrow> string \<Rightarrow> server \<Rightarrow> server" where
  "user_not_in_channel i nick ch st = numeric i ''441'' [nick, ch, ''They aren'' @ sq @ ''t on that channel''] st"

definition users_dont_match :: "nat \<Rightarrow> server \<Rightarrow> server" where
  "users_dont_match i st = numeric i ''502'' [''Cant change mode for other users''] st"

definition mode_501 :: "nat \<Rightarrow> string \<Rightarrow> server \<Rightarrow> server" where
  "mode_501 i t st = numeric i ''501''
     [if 1 < length (utf8_chars t) \<and> has_mode_sign t then utf8_chars t ! 1 else t,
      ''is unknown mode char to me''] st"

definition reply_221 :: "nat \<Rightarrow> server \<Rightarrow> server" where
  "reply_221 i st = (case find_by_id st i of
     None \<Rightarrow> st
   | Some u \<Rightarrow> deliver i (proto_line (sv_prefix st) ''221''
       (cx_nick u @ '' '' @ user_mode_string u @ '' :'' @ user_mode_text u)) st)"

subsection \<open>Queries\<close>

definition mode_channel_query :: "nat \<Rightarrow> string \<Rightarrow> server \<Rightarrow> server" where
  "mode_channel_query i raw st = (case chan st (norm_nick raw) of
     None \<Rightarrow> st
   | Some c \<Rightarrow>
       let ms = mode_string c;
           key = (if is_member c i then ch_chan_key c else None);
           parts = [raw, ms]
             @ (case key of Some k \<Rightarrow> if CHR ''k'' \<in> set ms then [k] else [] | None \<Rightarrow> [])
             @ (if 0 < ch_key_limit c then [show_int (ch_key_limit c)] else []);
           st1 = numeric i ''324'' parts st
       in if 0 < ch_created_at c then numeric i ''329'' [raw, show_nat (unat (ch_created_at c))] st1 else st1)"

definition mask_list :: "nat \<Rightarrow> string \<Rightarrow> string \<Rightarrow> string \<Rightarrow> string \<Rightarrow> string list \<Rightarrow> server \<Rightarrow> server" where
  "mask_list i raw item_code end_code end_text masks st =
     numeric i end_code [raw, end_text] (fold (\<lambda>m. numeric i item_code [raw, m]) masks st)"

definition mode_ban_list :: "nat \<Rightarrow> string \<Rightarrow> server \<Rightarrow> server" where
  "mode_ban_list i raw st =
     mask_list i raw ''367'' ''368'' ''End of channel ban list'' (chan_opt ch_bans [] st (norm_nick raw)) st"

definition mode_except_list :: "nat \<Rightarrow> string \<Rightarrow> server \<Rightarrow> server" where
  "mode_except_list i raw st =
     mask_list i raw ''348'' ''349'' ''End of channel exception list'' (chan_opt ch_excepts [] st (norm_nick raw)) st"

definition mode_invex_list :: "nat \<Rightarrow> string \<Rightarrow> server \<Rightarrow> server" where
  "mode_invex_list i raw st =
     mask_list i raw ''346'' ''347'' ''End of channel invite list'' (chan_opt ch_invex [] st (norm_nick raw)) st"

subsection \<open>Channel modes\<close>

definition perform_ban_change :: "string \<Rightarrow> bool \<Rightarrow> string \<Rightarrow> server \<Rightarrow> server" where
  "perform_ban_change ck on msk st = upd_chan ck (if on then add_ban msk else (\<lambda>c. snd (remove_ban msk c))) st"

definition priv_update :: "char \<Rightarrow> bool \<Rightarrow> nat \<Rightarrow> chn \<Rightarrow> chn" where
  "priv_update pflag on j c =
     (if pflag = CHR ''o'' then (if on then grant j True c else snd (revoke_op j c))
      else if pflag = CHR ''v'' then (if on then grant j False c else snd (revoke_voice j c))
      else c)"

definition perform_priv_change ::
    "nat \<Rightarrow> string \<Rightarrow> char \<Rightarrow> bool \<Rightarrow> string \<Rightarrow> server \<Rightarrow> string option \<times> server" where
  "perform_priv_change i ck pflag on target_nick st =
     (case map_option cx_id (lookup st (norm_nick target_nick)) of
        None \<Rightarrow> (None, st)
      | Some j \<Rightarrow>
          (if \<not> chan_opt (\<lambda>c. is_member c j) False st ck then (None, user_not_in_channel i target_nick ck st)
           else
             let st1 = upd_chan ck (priv_update pflag on j) st
             in (Some (proto_line (cx_opt cx_prefix [] st1 i) ''MODE''
                   (chan_opt ch_display ck st1 ck @ '' '' @ (if on then ''+'' else ''-'') @ [pflag] @ '' ''
                    @ cx_opt cx_nick target_nick st1 j)), st1)))"

text \<open>\<^verbatim>\<open>parse::<i32>()\<close>.\<close>

definition parse_i32 :: "string \<Rightarrow> int option" where
  "parse_i32 s = (case s of
     c # ds \<Rightarrow>
       (if c = CHR ''-'' then
          (if ds \<noteq> [] \<and> list_all is_digit ds \<and> digits_val ds \<le> 2 ^ 31 then Some (- int (digits_val ds)) else None)
        else map_option int (parse_uint (2 ^ 31) s))
   | [] \<Rightarrow> None)"

type_synonym consumed = "server + server \<times> nat"

definition mode_flags :: "string \<Rightarrow> bool \<Rightarrow> string \<Rightarrow> server \<Rightarrow> server" where
  "mode_flags ck on fl st = fold (\<lambda>f s. if f \<in> set ''inpstmR'' then upd_chan ck (set_flag f on) s else s) fl st"

definition mode_key :: "nat \<Rightarrow> string \<Rightarrow> string \<Rightarrow> string list \<Rightarrow> server \<Rightarrow> consumed" where
  "mode_key i ck fl args st =
     (if CHR ''k'' \<in> set fl then
        (case nth_opt args 0 of
           None \<Rightarrow> Inl (mode_501 i ''k'' st)
         | Some v \<Rightarrow> Inr (upd_chan ck (set_channel_key v) st, 1))
      else Inr (st, 0))"

definition mode_limit :: "nat \<Rightarrow> string \<Rightarrow> string \<Rightarrow> string list \<Rightarrow> nat \<Rightarrow> server \<Rightarrow> consumed" where
  "mode_limit i ck fl args ec st =
     (if CHR ''l'' \<in> set fl then
        (case nth_opt args ec of
           None \<Rightarrow> Inl (mode_501 i ''l'' st)
         | Some v \<Rightarrow> Inr (case parse_i32 v of
               Some n \<Rightarrow> upd_chan ck (\<lambda>c. c\<lparr>ch_key_limit := max n 0\<rparr>) st
             | None \<Rightarrow> mode_501 i ''l'' st, ec + 1))
      else Inr (st, ec))"

definition mode_bans :: "string \<Rightarrow> bool \<Rightarrow> string \<Rightarrow> string list \<Rightarrow> nat \<Rightarrow> server \<Rightarrow> server \<times> nat" where
  "mode_bans ck on fl args ec st =
     (if CHR ''b'' \<in> set fl then
        (let masks = takeWhile (\<lambda>m. \<not> has_mode_sign m) (take 3 args)
         in (fold (perform_ban_change ck on) masks st, ec + length masks))
      else (st, ec))"

definition mode_mask ::
    "char \<Rightarrow> (string \<Rightarrow> chn \<Rightarrow> chn) \<Rightarrow> string \<Rightarrow> string \<Rightarrow> string list \<Rightarrow> nat \<Rightarrow> server \<Rightarrow> server \<times> nat" where
  "mode_mask f upd ck fl args ec st =
     (if f \<in> set fl then
        (case nth_opt args ec of
           Some m \<Rightarrow> if has_mode_sign m then (st, ec) else (upd_chan ck (upd m) st, ec + 1)
         | None \<Rightarrow> (st, ec))
      else (st, ec))"

definition mode_priv ::
    "nat \<Rightarrow> string \<Rightarrow> bool \<Rightarrow> string \<Rightarrow> string list \<Rightarrow> nat \<Rightarrow> server \<Rightarrow> server + server \<times> nat \<times> string list" where
  "mode_priv i ck on fl args ec st =
     (case List.find (\<lambda>c. c = CHR ''o'' \<or> c = CHR ''v'') fl of
        None \<Rightarrow> Inr (st, ec, [])
      | Some pflag \<Rightarrow>
          (case nth_opt args ec of
             None \<Rightarrow> Inl (mode_501 i [pflag] st)
           | Some nick \<Rightarrow>
               (if has_mode_sign nick then Inr (st, ec, [])
                else case perform_priv_change i ck pflag on nick st of
                  (Some line, st1) \<Rightarrow> Inr (st1, ec + 1, [line])
                | (None, st1) \<Rightarrow> Inr (st1, ec, []))))"

definition mode_term ::
    "nat \<Rightarrow> string \<Rightarrow> string \<Rightarrow> string \<Rightarrow> string \<Rightarrow> string list \<Rightarrow> server
       \<Rightarrow> server + server \<times> nat \<times> string list" where
  "mode_term i ck raw pfx t args st =
     (let on = (hd t = CHR ''+''); fl = tl t
      in case mode_key i ck fl args (mode_flags ck on fl st) of
           Inl s \<Rightarrow> Inl s
         | Inr (st1, ec1) \<Rightarrow>
        (case mode_limit i ck fl args ec1 st1 of
           Inl s \<Rightarrow> Inl s
         | Inr (st2, ec2) \<Rightarrow>
        (case mode_bans ck on fl args ec2 st2 of (st3, ec3) \<Rightarrow>
        (case mode_mask (CHR ''e'') (\<lambda>m. if on then add_except m else (\<lambda>c. snd (remove_except m c))) ck fl args ec3 st3 of
           (st4, ec4) \<Rightarrow>
        (case mode_mask (CHR ''I'') (\<lambda>m. if on then add_invex m else (\<lambda>c. snd (remove_invex m c))) ck fl args ec4 st4 of
           (st5, ec5) \<Rightarrow>
        (case mode_priv i ck on fl args ec5 st5 of
           Inl s \<Rightarrow> Inl s
         | Inr (st6, ec6, ls) \<Rightarrow>
             Inr (st6, ec6, ls @
               (if CHR ''o'' \<in> set fl \<or> CHR ''v'' \<in> set fl then []
                else let as = join_with '' '' (take ec6 args)
                     in [proto_line pfx ''MODE''
                           (if as = [] then raw @ '' '' @ t else raw @ '' '' @ t @ '' '' @ as)]))))))))"

function mode_loop ::
    "nat \<Rightarrow> string \<Rightarrow> string \<Rightarrow> string \<Rightarrow> bool \<Rightarrow> string list \<Rightarrow> string list \<Rightarrow> server
       \<Rightarrow> server + server \<times> string list" where
  "mode_loop i ck raw pfx op [] lines st = Inr (st, lines)"
| "mode_loop i ck raw pfx op (t # ts) lines st =
     (if \<not> op then Inl (chanop_privs_needed i raw st)
      else if \<not> has_mode_sign t \<or> length t < 2 then Inl (mode_501 i t st)
      else case mode_term i ck raw pfx t ts st of
        Inl s \<Rightarrow> Inl s
      | Inr (s, ec, ls) \<Rightarrow> mode_loop i ck raw pfx op (drop ec ts) (lines @ ls) s)"
  by pat_completeness auto
termination by (relation "measure (\<lambda>(i, ck, raw, pfx, op, ts, lines, st). length ts)") auto

text \<open>The terms as \<^verbatim>\<open>FMODE\<close> carries them to linked servers: the flags run together, then
  the parameters, nicknames replaced by network identifiers.\<close>

definition priv_target :: "server \<Rightarrow> string \<Rightarrow> string option" where
  "priv_target st nick =
     (case (case lookup st (norm_nick nick) of
              Some u \<Rightarrow> local_uuid (sv_network st) (cx_id u) | None \<Rightarrow> None) of
        Some t \<Rightarrow> Some t
      | None \<Rightarrow> map_option ru_uuid (by_nick (sv_network st) (norm_nick nick)))"

definition is_sign :: "char \<Rightarrow> bool" where "is_sign c \<longleftrightarrow> c = CHR ''+'' \<or> c = CHR ''-''"
definition is_priv_flag :: "char \<Rightarrow> bool" where "is_priv_flag c \<longleftrightarrow> c = CHR ''o'' \<or> c = CHR ''v''"
definition takes_param :: "char \<Rightarrow> char \<Rightarrow> bool" where
  "takes_param sign c \<longleftrightarrow> c \<in> set ''klbeI'' \<and> (sign = CHR ''+'' \<or> c \<noteq> CHR ''l'')"

fun fmode_chars :: "server \<Rightarrow> char \<Rightarrow> string \<Rightarrow> string list \<Rightarrow> string \<times> string list \<times> string list" where
  "fmode_chars st sign [] rest = ([], [], rest)"
| "fmode_chars st sign (c # cs) rest =
     (if is_sign c then apfst (Cons c) (fmode_chars st c cs rest)
      else if is_priv_flag c then
        (case rest of
           [] \<Rightarrow> apfst (Cons c) (fmode_chars st sign cs rest)
         | nick # r \<Rightarrow> (case fmode_chars st sign cs r of (fs, ps, r') \<Rightarrow>
             (c # fs, (case priv_target st nick of Some t \<Rightarrow> t # ps | None \<Rightarrow> ps), r')))
      else if takes_param sign c then
        (case rest of
           [] \<Rightarrow> apfst (Cons c) (fmode_chars st sign cs rest)
         | p # r \<Rightarrow> (case fmode_chars st sign cs r of (fs, ps, r') \<Rightarrow> (c # fs, p # ps, r')))
      else apfst (Cons c) (fmode_chars st sign cs rest))"

lemma fmode_chars_rest: "length (snd (snd (fmode_chars st sign cs rest))) \<le> length rest"
proof (induction st sign cs rest rule: fmode_chars.induct)
  case (2 st sign c cs rest)
  then show ?case
    by (auto split: list.splits option.splits prod.splits) (fastforce simp: le_Suc_eq)+
qed simp

lemma fmode_chars_shorter: "(fs, ps, r) = fmode_chars st sign cs rest \<Longrightarrow> length r \<le> length rest"
  using fmode_chars_rest [of st sign cs rest] by (metis snd_conv)

function fmode_terms :: "server \<Rightarrow> string list \<Rightarrow> string \<times> string list" where
  "fmode_terms st [] = ([], [])"
| "fmode_terms st (t # ts) = (case fmode_chars st (CHR ''+'') t ts of (fs, ps, r) \<Rightarrow>
     (case fmode_terms st r of (fs', ps') \<Rightarrow> (fs @ fs', ps @ ps')))"
  by pat_completeness auto
termination
  by (relation "measure (\<lambda>(st, ts). length ts)") (auto simp: less_Suc_eq_le dest: fmode_chars_shorter)

definition fmode_to_links :: "nat \<Rightarrow> string \<Rightarrow> string \<Rightarrow> string list \<Rightarrow> server \<Rightarrow> server" where
  "fmode_to_links i ck raw terms st =
     (case uuid_for_local i (sv_network st) of (uuid, n1) \<Rightarrow>
        (let ts = chan_opt ch_created_at 0 st ck;
             st1 = st\<lparr>sv_network := n1\<rparr>;
             display = chan_opt ch_display raw st1 ck
         in case fmode_terms st1 terms of (flags, params) \<Rightarrow>
              (if flags = [] then st1
               else to_links ('':'' @ uuid @ '' FMODE '' @ display @ '' '' @ show_nat (unat ts) @ '' ''
                      @ (if params = [] then flags else flags @ '' '' @ join_with '' '' params)) st1)))"

definition mode_channel :: "nat \<Rightarrow> string \<Rightarrow> string list \<Rightarrow> server \<Rightarrow> server" where
  "mode_channel i raw terms st =
     (let ck = norm_nick raw; bare = dropWhile (\<lambda>c. c = CHR ''+'' \<or> c = CHR ''-'') (hd terms)
      in if chan st ck = None then nosuch_channel i raw st
         else if \<not> chan_opt (\<lambda>c. is_member c i) False st ck then not_on_channel i raw st
         else if terms = [] then mode_channel_query i raw st
         else if length terms = 1 \<and> bare = ''b'' then mode_ban_list i raw st
         else if length terms = 1 \<and> bare = ''e'' then mode_except_list i raw st
         else if length terms = 1 \<and> bare = ''I'' then mode_invex_list i raw st
         else case mode_loop i ck raw (cx_opt cx_prefix [] st i) (chan_opt (\<lambda>c. is_op c i) False st ck) terms [] st of
           Inl s \<Rightarrow> s
         | Inr (st1, lines) \<Rightarrow>
             let ms = members_list st1 ck;
                 st2 = fold (\<lambda>l s. fold (\<lambda>m. deliver m l) ms s) lines st1;
                 st3 = (if sv_links st2 \<noteq> [] \<and> lines \<noteq> [] then fmode_to_links i ck raw terms st2 else st2)
             in drop_empty_channels st3)"

subsection \<open>User modes\<close>

text \<open>The changes the terms ask for, or the text the refusal quotes.\<close>

definition user_flag :: "string \<Rightarrow> bool" where
  "user_flag ch \<longleftrightarrow> ch \<in> set [''i'', ''s'', ''w'', ''o'', ''B'']"

fun user_mode_chars :: "bool \<Rightarrow> string list \<Rightarrow> string + (char \<times> bool) list" where
  "user_mode_chars on [] = Inr []"
| "user_mode_chars on (ch # cs) =
     (if user_flag ch
      then (case user_mode_chars on cs of Inl e \<Rightarrow> Inl e | Inr r \<Rightarrow> Inr ((hd ch, on) # r))
      else Inl ch)"

fun user_mode_terms :: "string list \<Rightarrow> string + (char \<times> bool) list" where
  "user_mode_terms [] = Inr []"
| "user_mode_terms (t # ts) =
     (if length t < 2 \<or> \<not> has_mode_sign t then Inl t
      else case user_mode_chars (hd t = CHR ''+'') (utf8_chars (tl t)) of
        Inl e \<Rightarrow> Inl e
      | Inr a \<Rightarrow> (case user_mode_terms ts of Inl e \<Rightarrow> Inl e | Inr b \<Rightarrow> Inr (a @ b)))"

definition apply_user_mode :: "char \<times> bool \<Rightarrow> cx \<Rightarrow> cx" where
  "apply_user_mode e u = (case e of (ch, on) \<Rightarrow>
     (if ch = CHR ''i'' then u\<lparr>cx_invis := on\<rparr>
      else if ch = CHR ''s'' then u\<lparr>cx_srvnotice := on\<rparr>
      else if ch = CHR ''w'' then u\<lparr>cx_wallop := on\<rparr>
      else if ch = CHR ''B'' then u\<lparr>cx_bot := on\<rparr>
      else if ch = CHR ''o'' \<and> \<not> on then u\<lparr>cx_oper := False\<rparr>
      else u))"

definition mode_user :: "nat \<Rightarrow> command \<Rightarrow> string \<Rightarrow> server \<Rightarrow> server" where
  "mode_user i cmd nick_param st =
     (if map_option cx_nick_key (find_by_id st i) \<noteq> Some (norm_nick nick_param) then users_dont_match i st
      else
        let terms = tl (cmd_params cmd)
        in if terms = [] then reply_221 i st
           else case user_mode_terms terms of
             Inl e \<Rightarrow> mode_501 i e st
           | Inr changes \<Rightarrow> reply_221 i (upd_by_id i (fold apply_user_mode changes) st))"

definition handle_mode :: "nat \<Rightarrow> command \<Rightarrow> server \<Rightarrow> server" where
  "handle_mode i cmd st = (case first_opt (cmd_params cmd) of
     None \<Rightarrow> need_more_params i ''MODE'' st
   | Some target \<Rightarrow>
       (if valid_channel target then mode_channel i target (tl (cmd_params cmd)) st
        else mode_user i cmd target st))"

section \<open>The invariant is kept\<close>

lemma core_mode_replies [core_simps]:
  "core (user_not_in_channel i n c st) = core st" "core (users_dont_match i st) = core st"
  "core (mode_501 i t st) = core st" "core (reply_221 i st) = core st"
  "core (mode_channel_query i raw st) = core st" "core (mask_list i raw a b t ms st) = core st"
  by (simp_all add: user_not_in_channel_def users_dont_match_def mode_501_def reply_221_def
      mode_channel_query_def mask_list_def Let_def core_fold core_simps split: option.splits)

lemma core_mode_lists [core_simps]:
  "core (mode_ban_list i raw st) = core st" "core (mode_except_list i raw st) = core st"
  "core (mode_invex_list i raw st) = core st"
  by (simp_all add: mode_ban_list_def mode_except_list_def mode_invex_list_def core_simps)

lemma live_mode_replies [simp]:
  "live j (user_not_in_channel i n c st) = live j st" "live j (users_dont_match i st) = live j st"
  "live j (mode_501 i t st) = live j st" "live j (reply_221 i st) = live j st"
  "live j (mode_channel_query i raw st) = live j st" "live j (mode_ban_list i raw st) = live j st"
  "live j (mode_except_list i raw st) = live j st" "live j (mode_invex_list i raw st) = live j st"
  by (rule live_core, simp add: core_simps)+

lemma keeps_members_modes [simp]:
  "keeps_members (set_flag f on)" "keeps_members (set_channel_key k)"
  "keeps_members (\<lambda>c. c\<lparr>ch_key_limit := n\<rparr>)"
  "keeps_members (add_ban m)" "keeps_members (\<lambda>c. snd (remove_ban m c))"
  "keeps_members (add_except m)" "keeps_members (\<lambda>c. snd (remove_except m c))"
  "keeps_members (add_invex m)" "keeps_members (\<lambda>c. snd (remove_invex m c))"
  by (simp_all add: keeps_members_def set_flag_def set_channel_key_def add_ban_def remove_ban_def
      add_except_def remove_except_def add_invex_def remove_invex_def retain_not_def Let_def)

lemma live_mode_flags: "live j st \<Longrightarrow> live j (mode_flags ck on fl st)"
  unfolding mode_flags_def by (rule live_fold) (auto intro: live_upd_chan)

lemma live_mode_bans: "live j st \<Longrightarrow> live j (fst (mode_bans ck on fl args ec st))"
  by (auto simp: mode_bans_def Let_def perform_ban_change_def live_upd_chan intro!: live_fold split: if_splits)

lemma live_mode_mask:
  "live j st \<Longrightarrow> (\<And>m. keeps_members (upd m)) \<Longrightarrow> live j (fst (mode_mask f upd ck fl args ec st))"
  by (auto simp: mode_mask_def live_upd_chan split: if_splits option.splits)

lemma live_priv_update:
  assumes live: "live k st" and mem: "in_chan j ck st"
  shows "live k (upd_chan ck (priv_update pflag on j) st)"
  using live
proof (rule live_upd_chan_at)
  fix c
  assume c: "hm_get (sv_chans st) (norm_nick ck) = Some c"
  with mem have "j \<in> ch_members c" by (simp add: in_chan_def)
  with chan_shape [OF _ c] live
  show "ch_members (priv_update pflag on j c) = ch_members c \<and> ch_ops (priv_update pflag on j c) \<subseteq> ch_members c
      \<and> ch_voices (priv_update pflag on j c) \<subseteq> ch_members c"
    by (auto simp: priv_update_def grant_def revoke_op_def revoke_voice_def live_def)
qed

lemma in_chan_member: "chan_opt (\<lambda>c. is_member c j) d st ck \<Longrightarrow> in_chan j ck st"
  by (simp add: chan_opt_def chan_def is_member_def in_chan_def split: option.splits)

lemma live_priv_change:
  assumes "live j st" "perform_priv_change i ck pflag on nick st = (r, s)"
  shows "live j s"
  using assms
  by (auto simp: perform_priv_change_def Let_def split: option.splits if_splits
      intro: live_priv_update in_chan_member)

text \<open>The stages of a term in sequence.\<close>

definition alive :: "nat \<Rightarrow> server + server \<times> 'a \<Rightarrow> bool" where
  "alive j r = (case r of Inl s \<Rightarrow> live j s | Inr (s, _) \<Rightarrow> live j s)"

lemma alive_simps [simp]: "alive j (Inl s) = live j s" "alive j (Inr (s, x)) = live j s"
  by (simp_all add: alive_def)

lemma alive_bind:
  assumes "alive j r" "\<And>s x. r = Inr (s, x) \<Longrightarrow> live j s \<Longrightarrow> alive j (g s x)"
  shows "alive j (case r of Inl s \<Rightarrow> Inl s | Inr (s, x) \<Rightarrow> g s x)"
  using assms by (auto simp: alive_def split: sum.splits prod.splits)

lemma alive_pair:
  assumes "live j (fst r)" "\<And>s x. r = (s, x) \<Longrightarrow> live j s \<Longrightarrow> alive j (g s x)"
  shows "alive j (case r of (s, x) \<Rightarrow> g s x)"
  using assms by (cases r) simp

lemma alive_mode_key: "live j st \<Longrightarrow> alive j (mode_key i ck fl args st)"
  by (auto simp: mode_key_def live_upd_chan split: option.splits)

lemma alive_mode_limit: "live j st \<Longrightarrow> alive j (mode_limit i ck fl args ec st)"
  by (auto simp: mode_limit_def live_upd_chan split: option.splits)

lemma alive_mode_priv: "live j st \<Longrightarrow> alive j (mode_priv i ck on fl args ec st)"
  by (auto simp: mode_priv_def dest: live_priv_change split: option.splits prod.splits)

lemma alive_mode_term: "live j st \<Longrightarrow> alive j (mode_term i ck raw pfx t args st)"
  unfolding mode_term_def Let_def
  by (intro alive_bind alive_pair live_mode_flags alive_mode_key alive_mode_limit live_mode_bans live_mode_mask
      alive_mode_priv) (simp_all split: prod.splits)

lemma alive_mode_loop: "live j st \<Longrightarrow> alive j (mode_loop i ck raw pfx op ts lines st)"
proof (induction i ck raw pfx op ts lines st rule: mode_loop.induct)
  case (2 i ck raw pfx op t ts lines st)
  then show ?case
    using alive_mode_term [OF 2(2), of i ck raw pfx t ts] by (auto split: sum.splits)
qed simp


lemma live_fmode [simp]: "live j (fmode_to_links i ck raw terms st) = live j st"
  by (simp add: fmode_to_links_def Let_def split: prod.splits)

lemma core_mode_lines: "core (fold (\<lambda>l s. fold (\<lambda>m. deliver m l) ms s) lines st) = core st"
  by (intro core_fold) (simp add: core_simps)

lemma live_mode_channel:
  assumes "live j st"
  shows "live j (mode_channel i raw terms st)"
proof -
  have lines: "live j (fold (\<lambda>l s. fold (\<lambda>m. deliver m l) ms s) lines s) = live j s" for ms lines s
    by (rule live_core) (rule core_mode_lines)
  show ?thesis
    using assms alive_mode_loop [OF assms, of i "norm_nick raw" raw "cx_opt cx_prefix [] st i"
        "chan_opt (\<lambda>c. is_op c i) False st (norm_nick raw)" terms "[]"]
    unfolding mode_channel_def Let_def by (auto simp: lines intro!: live_drop_empty split: sum.splits)
qed

lemma apply_user_mode_same [simp]:
  "cx_id (apply_user_mode e u) = cx_id u" "cx_nick (apply_user_mode e u) = cx_nick u"
  "cx_nick_key (apply_user_mode e u) = cx_nick_key u" "cx_registered (apply_user_mode e u) = cx_registered u"
  "cx_chans (apply_user_mode e u) = cx_chans u"
  by (simp_all add: apply_user_mode_def split: prod.splits)

lemma keeps_identity_fold:
  "(\<And>e. keeps_identity (f e)) \<Longrightarrow> keeps_identity (fold f es)"
  by (induction es) (auto simp: keeps_identity_def)

lemma keeps_identity_user_modes [simp]: "keeps_identity (fold apply_user_mode es)"
  by (rule keeps_identity_fold) (simp add: keeps_identity_def)

lemma live_upd_by_id:
  assumes "live i st" "keeps_identity f"
  shows "live i (upd_by_id j f st)"
  using assms by (simp add: live_def state_inv_upd_by_id reg_in_upd_by_id keeps_identity_def)

lemma state_inv_mode_replies [simp]:
  "state_inv (users_dont_match i st) = state_inv st" "state_inv (mode_501 i t st) = state_inv st"
  "state_inv (reply_221 i st) = state_inv st"
  by (rule state_inv_same_core, simp add: core_simps)+

lemma live_mode_user: "live j st \<Longrightarrow> live j (mode_user i cmd n st)"
  by (auto simp: mode_user_def Let_def live_upd_by_id split: sum.splits)

lemma live_handle_mode: "live j st \<Longrightarrow> live j (handle_mode i cmd st)"
  by (auto simp: handle_mode_def live_mode_channel live_mode_user split: option.splits)

section \<open>Who may change what\<close>

lemma mode_loop_refused:
  "ts \<noteq> [] \<Longrightarrow> mode_loop i ck raw pfx False ts lines st = Inl (chanop_privs_needed i raw st)"
  by (cases ts) auto

lemma mode_channel_unprivileged:
  assumes "\<not> chan_opt (\<lambda>c. is_op c i) False st (norm_nick raw)"
  shows "core (mode_channel i raw terms st) = core st"
  using assms by (simp add: mode_channel_def Let_def mode_loop_refused core_simps)

lemma apply_user_mode_oper1: "cx_oper (apply_user_mode (ch, on) u) \<Longrightarrow> cx_oper u"
  by (simp add: apply_user_mode_def if_distrib [of cx_oper] split: if_split_asm cong: if_cong)

lemma apply_user_mode_oper: "cx_oper (fold apply_user_mode es u) \<Longrightarrow> cx_oper u"
proof (induction es arbitrary: u)
  case (Cons e es)
  then show ?case using apply_user_mode_oper1 [of "fst e" "snd e" u] by simp
qed simp

lemma find_by_id_upd:
  assumes "state_inv st" "\<And>u. cx_id (f u) = cx_id u"
  shows "find_by_id (upd_by_id i f st) j = (if j = i then map_option f (find_by_id st j) else find_by_id st j)"
proof (cases "hm_get (sv_unreg st) i")
  case None
  have "List.find (\<lambda>u. cx_id u = j) (hm_values (upd_first (\<lambda>u. cx_id u = i) f m)) =
      (if j = i then map_option f (List.find (\<lambda>u. cx_id u = j) (hm_values m))
       else List.find (\<lambda>u. cx_id u = j) (hm_values m))" for m :: "(string, cx) hmap"
    using assms(2) by (induction m) (auto simp: hm_values_def)
  from this [of "sv_users st"] None show ?thesis
    by (cases "j = i") (simp_all add: upd_by_id_def find_by_id_def split: option.splits)
next
  case (Some u)
  then show ?thesis by (simp add: upd_by_id_def find_by_id_def hm_simps split: option.splits)
qed

lemma mode_user_oper:
  assumes inv: "state_inv st" and op: "cx_opt cx_oper False (mode_user i cmd n st) j"
  shows "cx_opt cx_oper False st j"
proof -
  have out: "cx_opt cx_oper False s j = cx_opt cx_oper False s' j" if "core s = core s'" for s s'
    using that by (rule cx_opt_core) simp
  have upd: "cx_opt cx_oper False st j" if "cx_opt cx_oper False (upd_by_id i (fold apply_user_mode es) st) j" for es
  proof -
    have "cx_id (fold apply_user_mode es u) = cx_id u" for u
      using keeps_identity_user_modes [of es] by (simp add: keeps_identity_def)
    from find_by_id_upd [OF inv this] that show ?thesis
      by (auto simp: cx_opt_def dest: apply_user_mode_oper split: option.splits if_splits)
  qed
  show ?thesis
    using op upd
    by (auto simp: mode_user_def Let_def out [of "users_dont_match i st" st] out [of "mode_501 i e st" st for e]
        out [of "reply_221 i s" s for s] core_simps split: sum.splits if_splits)
qed

end
