(* ===== verification/Chanops.thy ===== *)
theory Chanops
  imports Modes
begin

text \<open>
  The remaining channel commands of \<^verbatim>\<open>src/cmds.rs\<close>: \<^verbatim>\<open>INVITE\<close>, \<^verbatim>\<open>NAMES\<close>,
  \<^verbatim>\<open>LIST\<close>, \<^verbatim>\<open>KICK\<close> and \<^verbatim>\<open>AWAY\<close>.
\<close>

section \<open>Definitions\<close>

definition nosuch_nick :: "nat \<Rightarrow> string \<Rightarrow> server \<Rightarrow> server" where
  "nosuch_nick i referenced st = numeric i ''401'' [referenced, ''No such nick/channel''] st"

definition already_on_channel :: "nat \<Rightarrow> string \<Rightarrow> server \<Rightarrow> server" where
  "already_on_channel i ch st = numeric i ''443'' [ch, ''They are already on that channel''] st"

definition comment_tail :: "string option \<Rightarrow> string" where
  "comment_tail cmt = (case cmt of Some c \<Rightarrow> if c \<noteq> [] then '' :'' @ c else [] | None \<Rightarrow> [])"

definition handle_invite :: "nat \<Rightarrow> command \<Rightarrow> server \<Rightarrow> server" where
  "handle_invite i cmd st = (case first_opt (cmd_params cmd) of
     None \<Rightarrow> need_more_params i ''INVITE'' st
   | Some raw_chan \<Rightarrow> (case nth_opt (cmd_params cmd) 1 of
       None \<Rightarrow> nosuch_nick i raw_chan st
     | Some target_param \<Rightarrow>
         let ck = norm_nick raw_chan
         in if chan st ck = None then nosuch_channel i raw_chan st
            else if \<not> chan_opt (\<lambda>c. is_member c i) False st ck then not_on_channel i raw_chan st
            else case lookup st (norm_nick target_param) of
              None \<Rightarrow> nosuch_nick i target_param st
            | Some t \<Rightarrow>
                (if \<not> (case find_by_id st i of Some req \<Rightarrow> visible req t | None \<Rightarrow> False)
                 then nosuch_nick i target_param st
                 else if chan_opt (\<lambda>c. is_member c (cx_id t)) False st ck
                 then already_on_channel i raw_chan st
                 else
                   let st1 = upd_chan ck (chn_invite (cx_id t)) st;
                       st2 = numeric i ''341'' [raw_chan, target_param] st1
                   in deliver (cx_id t) (proto_line (cx_opt cx_prefix [] st2 i) ''INVITE''
                        (target_param @ '' '' @ raw_chan @ comment_tail (nth_opt (cmd_params cmd) 2))) st2)))"

subsection \<open>Listings\<close>

definition hidden_from :: "server \<Rightarrow> nat \<Rightarrow> chn \<Rightarrow> bool" where
  "hidden_from st i c \<longleftrightarrow>
     (ch_private c \<or> ch_secret c) \<and> \<not> is_member c i \<and> \<not> cx_opt cx_oper False st i"

definition names_one :: "nat \<Rightarrow> string \<Rightarrow> server \<Rightarrow> server" where
  "names_one i raw st =
     (let ck = norm_nick raw
      in case chan st ck of
           None \<Rightarrow> st
         | Some c \<Rightarrow>
             (if hidden_from st i c then st
              else
                let st1 = numeric i ''353'' [names_symbol c, raw, '':'' @ join_with '' '' (names_listing st i ck)] st
                in numeric i ''366'' [raw, ''End of /NAMES list''] st1))"

definition handle_names :: "nat \<Rightarrow> command \<Rightarrow> server \<Rightarrow> server" where
  "handle_names i cmd st = (case first_opt (cmd_params cmd) of
     None \<Rightarrow> need_more_params i ''NAMES'' st
   | Some lst \<Rightarrow> fold (names_one i) (filter (\<lambda>c. c \<noteq> []) (split_on (CHR '','') lst)) st)"

definition visible_member_count :: "server \<Rightarrow> nat \<Rightarrow> nat list \<Rightarrow> nat" where
  "visible_member_count st req_id ids = (case find_by_id st req_id of
     Some req \<Rightarrow> length (filter (\<lambda>m. case find_by_id st m of Some u \<Rightarrow> visible req u | None \<Rightarrow> False) ids)
   | None \<Rightarrow> length ids)"

definition listed :: "server \<Rightarrow> nat \<Rightarrow> string \<Rightarrow> chn \<Rightarrow> bool" where
  "listed st i msk c \<longleftrightarrow>
     (wildcard_match msk (ch_display c) \<or> wildcard_match (norm_nick msk) (norm_nick (ch_display c)))
     \<and> \<not> hidden_from st i c"

definition list_line :: "nat \<Rightarrow> chn \<Rightarrow> server \<Rightarrow> server" where
  "list_line i c st = numeric i ''322''
     [ch_display c, show_nat (visible_member_count st i (sorted_list_of_set (ch_members c))),
      '':'' @ (if ch_topic c = [] then ''*'' else ch_topic c)] st"

definition handle_list :: "nat \<Rightarrow> command \<Rightarrow> server \<Rightarrow> server" where
  "handle_list i cmd st =
     (let msk = opt_default ''*'' (first_opt (cmd_params cmd));
          st1 = numeric i ''321'' [''Channel'', ''Users Name''] st;
          st2 = fold (list_line i) (filter (listed st1 i msk) (hm_values (sv_chans st1))) st1
      in numeric i ''323'' [''End of /LIST command''] st2)"

subsection \<open>Kick\<close>

definition remove_from_channel :: "nat \<Rightarrow> string \<Rightarrow> server \<Rightarrow> server" where
  "remove_from_channel j ck st = upd_by_id j (del_chan ck) (upd_chan ck (\<lambda>c. snd (eject j c)) st)"

definition handle_kick :: "nat \<Rightarrow> command \<Rightarrow> server \<Rightarrow> server" where
  "handle_kick i cmd st = (case first_opt (cmd_params cmd) of
     None \<Rightarrow> need_more_params i ''KICK'' st
   | Some raw_chan \<Rightarrow>
       let ck = norm_nick raw_chan
       in if chan st ck = None then nosuch_channel i raw_chan st
          else if \<not> chan_opt (\<lambda>c. is_member c i) False st ck then not_on_channel i raw_chan st
          else case nth_opt (cmd_params cmd) 1 of
            None \<Rightarrow> need_more_params i ''KICK'' st
          | Some target_param \<Rightarrow>
              let target = lookup st (norm_nick target_param);
                  target_id = (case target of Some u \<Rightarrow> cx_id u | None \<Rightarrow> 0);
                  target_nick = (case target of Some u \<Rightarrow> cx_nick u | None \<Rightarrow> [])
              in if target_id = 0 then user_not_in_channel i target_param raw_chan st
                 else if \<not> chan_opt (\<lambda>c. is_member c target_id) False st ck
                 then user_not_in_channel i target_param raw_chan st
                 else if target_id \<noteq> i \<and> \<not> chan_opt (\<lambda>c. is_op c i) False st ck
                 then chanop_privs_needed i raw_chan st
                 else
                   let before = members_list st ck;
                       why = (case nth_opt (cmd_params cmd) 2 of
                                Some c \<Rightarrow> if c \<noteq> [] then c else target_nick | None \<Rightarrow> target_nick);
                       st1 = remove_from_channel target_id ck st;
                       line = proto_line (cx_opt cx_prefix [] st1 i) ''KICK''
                                (raw_chan @ '' '' @ target_nick @ '' :'' @ why)
                   in drop_empty_channels (relay_all before line st1))"

subsection \<open>Away\<close>

text \<open>\<^verbatim>\<open>shared_channel_peers\<close> walks the same two loops as \<^const>\<open>channel_peers\<close>, and keeps an
  id it meets for the first time when its connection satisfies the predicate.\<close>

definition shared_channel_peers :: "server \<Rightarrow> nat \<Rightarrow> (cx \<Rightarrow> bool) \<Rightarrow> nat list" where
  "shared_channel_peers st i p =
     filter (\<lambda>m. case find_by_id st m of Some u \<Rightarrow> p u | None \<Rightarrow> False) (channel_peers st i)"

definition announce_away_change :: "nat \<Rightarrow> string option \<Rightarrow> server \<Rightarrow> server" where
  "announce_away_change i message st = (case find_by_id st i of
     None \<Rightarrow> st
   | Some u \<Rightarrow> relay_all (shared_channel_peers st i (\<lambda>u. away_notify (cx_caps u)))
       (proto_line (cx_prefix u) ''AWAY'' (case message of Some m \<Rightarrow> '':'' @ m | None \<Rightarrow> [])) st)"

definition handle_away :: "nat \<Rightarrow> command \<Rightarrow> server \<Rightarrow> server" where
  "handle_away i cmd st =
     (let note = str_default (first_opt (cmd_params cmd))
      in if note = [] then
           announce_away_change i None
             (numeric i ''305'' [''You are no longer marked as being away'']
               (upd_by_id i (\<lambda>u. u\<lparr>cx_away := None\<rparr>) st))
         else
           let truncated = concat (take 100 (utf8_chars note))
           in announce_away_change i (Some truncated)
                (numeric i ''306'' [''You have been marked as being away'']
                  (upd_by_id i (\<lambda>u. u\<lparr>cx_away := Some truncated\<rparr>) st)))"

section \<open>The invariant is kept\<close>

lemma core_chanop_replies [core_simps]:
  "core (nosuch_nick i r st) = core st" "core (already_on_channel i c st) = core st"
  "core (names_one i raw st) = core st" "core (list_line i ch st) = core st"
  "core (announce_away_change i m st) = core st"
  by (simp_all add: nosuch_nick_def already_on_channel_def names_one_def list_line_def
      announce_away_change_def Let_def core_simps split: option.splits)

lemma core_handle_names [core_simps]: "core (handle_names i cmd st) = core st"
  by (simp add: handle_names_def core_fold core_simps split: option.splits)

lemma core_handle_list [core_simps]: "core (handle_list i cmd st) = core st"
  by (simp add: handle_list_def Let_def core_fold core_simps)

lemma live_chanop_replies [simp]:
  "live j (nosuch_nick i r st) = live j st" "live j (already_on_channel i c st) = live j st"
  "live j (announce_away_change i m st) = live j st" "live j (handle_names i cmd st) = live j st"
  "live j (handle_list i cmd st) = live j st"
  by (rule live_core, simp add: core_simps)+

lemma keeps_members_invite [simp]: "keeps_members (chn_invite j)"
  by (simp add: keeps_members_def chn_invite_def)

lemma live_handle_invite: "live j st \<Longrightarrow> live j (handle_invite i cmd st)"
  by (simp add: handle_invite_def Let_def live_upd_chan split: option.splits)

lemma live_remove_from_channel:
  assumes live: "live k st" and ck: "norm_nick ck = ck"
  shows "live k (remove_from_channel j ck st)"
proof -
  have inv: "state_inv st" using live by (simp add: live_def)
  have strip: "snd (eject j d) = strip_member j d" if "hm_get (sv_chans st) ck = Some d" for d
    using chan_shape(1,2) [OF inv that] by (auto simp: eject_def strip_member_def intro!: chn.equality)
  have "remove_from_channel j ck st = upd_chan ck (strip_member j) (upd_by_id j (del_chan ck) st)"
    unfolding remove_from_channel_def upd_commute
    using strip ck by (simp add: upd_chan_def split: option.splits)
  moreover have "state_inv (upd_chan ck (strip_member j) (upd_by_id j (del_chan ck) st))"
    using inv ck by (rule state_inv_part) (simp_all add: strip_member_def)
  ultimately show ?thesis
    using live reg_in_upd_by_id [OF inv, of "del_chan ck" j k]
    by (simp add: live_def reg_in_users [OF upd_chan_same(1)])
qed

lemma live_handle_kick: "live j st \<Longrightarrow> live j (handle_kick i cmd st)"
  by (simp add: handle_kick_def Let_def live_drop_empty live_remove_from_channel split: option.splits)

lemma keeps_identity_away [simp]: "keeps_identity (\<lambda>u. u\<lparr>cx_away := a\<rparr>)"
  by (simp add: keeps_identity_def)

lemma live_handle_away: "live j st \<Longrightarrow> live j (handle_away i cmd st)"
  by (simp add: handle_away_def Let_def live_upd_by_id)

end
