(* ===== verification/Oper.thy ===== *)
theory Oper
  imports Chanops
begin

text \<open>
  Departures and the operators' commands (\<^verbatim>\<open>src/cmds.rs\<close>): \<^verbatim>\<open>QUIT\<close>,
  \<^verbatim>\<open>OPER\<close>, \<^verbatim>\<open>KILL\<close>, \<^verbatim>\<open>KLINE\<close>, \<^verbatim>\<open>UNKLINE\<close>, \<^verbatim>\<open>WALLOPS\<close>, the
  administrative queries, and \<^verbatim>\<open>announce_loss_and_evict\<close> of \<^verbatim>\<open>src/ops.rs\<close>. The
  structured log is not modelled.
\<close>

section \<open>Definitions\<close>

definition cx_list :: "server \<Rightarrow> cx list" where
  "cx_list st = hm_values (sv_users st)"

definition announce_loss_and_evict :: "nat \<Rightarrow> string \<Rightarrow> server \<Rightarrow> server" where
  "announce_loss_and_evict i why st =
     depart i (case find_by_id st i of
        None \<Rightarrow> st
      | Some u \<Rightarrow> fold (\<lambda>m. send_to m (proto_line (cx_prefix u) ''QUIT'' ('':'' @ why))) (channel_peers st i) st)"

definition handle_quit :: "nat \<Rightarrow> command \<Rightarrow> server \<Rightarrow> server" where
  "handle_quit i cmd st = (case find_by_id st i of
     None \<Rightarrow> st
   | Some u \<Rightarrow>
       (if \<not> cx_registered u then st
        else
          let t = str_default (first_opt (cmd_params cmd));
              why = (if t \<noteq> [] then t else cx_nick u);
              st1 = uuid_to_links i ('' QUIT :'' @ why) st
          in depart i (fold (\<lambda>m. deliver m (proto_line (cx_prefix u) ''QUIT'' ('':'' @ why))) (channel_peers st1 i) st1)))"

definition password_mismatch :: "nat \<Rightarrow> string \<Rightarrow> server \<Rightarrow> server" where
  "password_mismatch i user st = numeric i ''464'' [user, ''Password is incorrect''] st"

definition handle_oper :: "nat \<Rightarrow> command \<Rightarrow> server \<Rightarrow> server" where
  "handle_oper i cmd st = (case first_opt (cmd_params cmd) of
     None \<Rightarrow> need_more_params i ''OPER'' st
   | Some user \<Rightarrow>
       let pass = str_default (nth_opt (cmd_params cmd) 1)
       in if pass = [] then password_mismatch i user st
          else if \<not> (constant_time_eq (as_bytes user) (as_bytes (oper_user (sv_conf st)))
                   \<and> constant_time_eq (as_bytes pass) (as_bytes (oper_pass (sv_conf st))))
          then password_mismatch i user (snote (''Failed OPER attempt from '' @ cx_opt cx_real_host [] st i) st)
          else
            let st1 = snote (cx_opt cx_nick [] st i @ '' is now an IRC operator'') st;
                st2 = upd_by_id i (\<lambda>u. u\<lparr>cx_oper := True\<rparr>) st1;
                st3 = numeric i ''381'' [''You are now an IRC operator''] st2
            in deliver i (proto_line (sv_prefix st3) ''MODE'' (cx_opt cx_nick [] st3 i @ '' +o'')) st3)"

definition kill_pattern :: "nat \<Rightarrow> string \<Rightarrow> string \<Rightarrow> server \<Rightarrow> server" where
  "kill_pattern i target why st =
     (let hits = map cx_id (filter (\<lambda>u. \<not> cx_oper u \<and> glob_match (norm_nick target) (cx_nick_key u)) (cx_list st));
          actor = cx_opt cx_nick [] st i;
          total = user_count st
      in if total div 2 < length hits \<and> 4 < total then
           numeric i ''NOTICE'' [''Refusing KILL '' @ target @ '': would match '' @ show_nat (length hits)
             @ '' of '' @ show_nat total @ '' users. Narrow the pattern.''] st
         else
           let st1 = fold (\<lambda>h. announce_loss_and_evict h (''Killed by '' @ actor @ '': '' @ why)) hits st;
               st2 = snote (actor @ '' used KILL '' @ target @ '' ('' @ show_nat (length hits) @ '' killed)'') st1
           in deliver i (proto_line (sv_prefix st2) ''NOTICE''
                (actor @ '' :Killed '' @ show_nat (length hits) @ '' matching '' @ target)) st2)"

definition kill_one :: "nat \<Rightarrow> nat \<Rightarrow> string \<Rightarrow> server \<Rightarrow> server" where
  "kill_one i j why st =
     (let actor = cx_opt cx_nick [] st i;
          target_nick = cx_opt cx_nick [] st j;
          st1 = snote (actor @ '' used KILL on '' @ target_nick @ '' ('' @ why @ '')'') st;
          st2 = deliver j (proto_line (sv_prefix st1) ''NOTICE''
                  (target_nick @ '' :Killed by '' @ actor @ '': '' @ why)) st1;
          st3 = announce_loss_and_evict j (''Killed by '' @ actor @ '': '' @ why) st2
      in numeric i ''NOTICE'' [''Killed '' @ target_nick] st3)"

definition handle_kill :: "nat \<Rightarrow> command \<Rightarrow> server \<Rightarrow> server" where
  "handle_kill i cmd st = (case refuse_non_oper i st of (refused, st0) \<Rightarrow>
     (if refused then st0
      else case first_opt (cmd_params cmd) of
        None \<Rightarrow> need_more_params i ''KILL'' st0
      | Some target \<Rightarrow>
          let r = str_default (nth_opt (cmd_params cmd) 1);
              why = (if r \<noteq> [] then r else ''Killed by operator'')
          in if CHR ''*'' \<in> set target \<or> CHR ''?'' \<in> set target then kill_pattern i target why st0
             else case lookup st0 (norm_nick target) of
               None \<Rightarrow> nosuch_nick i target st0
             | Some u \<Rightarrow> kill_one i (cx_id u) why st0))"

definition handle_kline :: "nat \<Rightarrow> command \<Rightarrow> server \<Rightarrow> server" where
  "handle_kline i cmd st = (case refuse_non_oper i st of (refused, st0) \<Rightarrow>
     (if refused then st0
      else
        let msk = str_default (first_opt (cmd_params cmd))
        in if msk = [] then need_more_params i ''KLINE'' st0
           else
             let duration = (case nth_opt (cmd_params cmd) 1 of Some d \<Rightarrow> u64_or_zero d | None \<Rightarrow> 0);
                 r = str_default (nth_opt (cmd_params cmd) 2);
                 why = (if r \<noteq> [] then r else ''Banned'');
                 actor = cx_opt cx_nick [] st0 i;
                 st1 = st0\<lparr>sv_bans := ban_add (sv_unix st0) (w_ban_write (sv_world st0)) msk duration actor why (sv_bans st0)\<rparr>;
                 st2 = snote (actor @ '' added K-line for '' @ msk @ '' ('' @ why @ '')'') st1;
                 hits = map cx_id (filter (\<lambda>u. glob_match msk (cx_real_host u)) (each_connection st2));
                 st3 = fold (\<lambda>h. announce_loss_and_evict h (''Banned: '' @ why)) hits st2
             in deliver i (proto_line (sv_prefix st3) ''NOTICE''
                  (actor @ '' :Added K-line for '' @ msk @ '' ('' @ show_nat (length hits) @ '' killed)'')) st3))"

definition handle_unkline :: "nat \<Rightarrow> command \<Rightarrow> server \<Rightarrow> server" where
  "handle_unkline i cmd st = (case refuse_non_oper i st of (refused, st0) \<Rightarrow>
     (if refused then st0
      else
        let msk = str_default (first_opt (cmd_params cmd))
        in if msk = [] then need_more_params i ''UNKLINE'' st0
           else case ban_remove (w_ban_write (sv_world st0)) msk (sv_bans st0) of (removed, store) \<Rightarrow>
             let st1 = st0\<lparr>sv_bans := store\<rparr>;
                 text = (if removed then ''Removed K-line for '' else ''No K-line for '') @ msk
             in deliver i (proto_line (sv_prefix st1) ''NOTICE'' (cx_opt cx_nick [] st1 i @ '' :'' @ text)) st1))"

definition no_privileges :: "nat \<Rightarrow> server \<Rightarrow> server" where
  "no_privileges i st = numeric i ''481'' [''Permission Denied- You'' @ sq @ ''re not an IRC operator''] st"

definition handle_wallops :: "nat \<Rightarrow> command \<Rightarrow> server \<Rightarrow> server" where
  "handle_wallops i cmd st =
     (if \<not> cx_opt cx_oper False st i then no_privileges i st
      else
        let text = str_default (first_opt (cmd_params cmd))
        in if text = [] then need_more_params i ''WALLOPS'' st
           else fold (\<lambda>r. deliver r (proto_line (cx_opt cx_prefix [] st i) ''WALLOPS'' ('':'' @ text)))
                  (map cx_id (filter cx_wallop (cx_list st))) st)"

subsection \<open>Administrative queries\<close>

definition handle_admin :: "nat \<Rightarrow> server \<Rightarrow> server" where
  "handle_admin i st =
     (let c = sv_conf st;
          line = (\<lambda>code v s. if v \<noteq> [] then numeric i code ['':'' @ v] s else s)
      in if admin_loc1 c = [] \<and> admin_loc2 c = [] \<and> admin_email c = []
         then numeric i ''423'' [''No admin info available''] st
         else line ''259'' (admin_email c) (line ''258'' (admin_loc2 c) (line ''257'' (admin_loc1 c)
                (numeric i ''256'' [''Administrative info about '' @ cf_name c] st))))"

definition handle_links :: "nat \<Rightarrow> command \<Rightarrow> server \<Rightarrow> server" where
  "handle_links i cmd st =
     (let st1 = numeric i ''364'' [sv_name st, sv_name st, '':0 '' @ VERSION] st
      in numeric i ''365'' [opt_default ''*'' (last_opt (cmd_params cmd)), ''End of /LINKS list''] st1)"

definition handle_trace :: "nat \<Rightarrow> command \<Rightarrow> server \<Rightarrow> server" where
  "handle_trace i cmd st =
     (let dest = opt_default ''*'' (first_opt (cmd_params cmd))
      in if \<not> (dest = ''*'' \<or> eq_ignore_case dest (sv_name st)) \<and> lookup st (norm_nick dest) = None
         then numeric i ''402'' [dest, ''No such server''] st
         else numeric i ''262'' [sv_name st, VERSION, ''End of TRACE''] st)"

definition handle_rehash_restart :: "nat \<Rightarrow> server \<Rightarrow> server" where
  "handle_rehash_restart i st = (if cx_opt cx_oper False st i then st else no_privileges i st)"

definition handle_connect_squit :: "nat \<Rightarrow> server \<Rightarrow> server" where
  "handle_connect_squit i st = (if cx_opt cx_oper False st i then st else no_privileges i st)"

definition unknown_command :: "nat \<Rightarrow> command \<Rightarrow> server \<Rightarrow> server" where
  "unknown_command i cmd st = numeric i ''421'' [cmd_name cmd, ''Unknown command''] st"

section \<open>The invariant is kept\<close>

lemma core_oper_replies [core_simps]:
  "core (password_mismatch i u st) = core st" "core (no_privileges i st) = core st"
  "core (handle_wallops i cmd st) = core st" "core (handle_admin i st) = core st"
  "core (handle_links i cmd st) = core st" "core (handle_trace i cmd st) = core st"
  "core (handle_rehash_restart i st) = core st" "core (handle_connect_squit i st) = core st"
  "core (unknown_command i cmd st) = core st"
  by (simp_all add: password_mismatch_def no_privileges_def handle_wallops_def handle_admin_def
      handle_links_def handle_trace_def handle_rehash_restart_def handle_connect_squit_def
      unknown_command_def Let_def core_fold core_simps)

lemma state_inv_oper_replies [simp]:
  "state_inv (password_mismatch i u st) = state_inv st" "state_inv (no_privileges i st) = state_inv st"
  "state_inv (handle_wallops i cmd st) = state_inv st" "state_inv (handle_admin i st) = state_inv st"
  "state_inv (handle_links i cmd st) = state_inv st" "state_inv (handle_trace i cmd st) = state_inv st"
  "state_inv (handle_rehash_restart i st) = state_inv st"
  "state_inv (handle_connect_squit i st) = state_inv st" "state_inv (unknown_command i cmd st) = state_inv st"
  "state_inv (nosuch_nick i r st) = state_inv st"
  by (rule state_inv_same_core, simp add: core_simps)+

lemma core_announce_lines:
  "core (fold (\<lambda>m. send_to m l) ms st) = core st" "core (fold (\<lambda>m. deliver m l) ms st) = core st"
  by (rule core_fold, simp add: core_simps)+

lemma state_inv_announce [inv_intros]:
  assumes "state_inv st"
  shows "state_inv (announce_loss_and_evict i why st)"
proof -
  have "state_inv (fold (\<lambda>m. send_to m l) ms st)" for l ms
    using assms state_inv_same_core [OF core_announce_lines(1)] by blast
  with assms show ?thesis
    unfolding announce_loss_and_evict_def by (auto intro!: state_inv_depart split: option.splits)
qed

lemma state_inv_handle_quit [inv_intros]:
  assumes "state_inv st"
  shows "state_inv (handle_quit i cmd st)"
proof -
  have "state_inv (fold (\<lambda>m. deliver m l) ms (uuid_to_links i t st))" for l ms t
    using assms state_inv_same_core [OF core_announce_lines(2)] by simp
  with assms show ?thesis
    unfolding handle_quit_def Let_def by (auto intro!: state_inv_depart split: option.splits)
qed

lemma keeps_identity_oper [simp]: "keeps_identity (\<lambda>u. u\<lparr>cx_oper := b\<rparr>)"
  by (simp add: keeps_identity_def)

lemma state_inv_handle_oper [inv_intros]: "state_inv st \<Longrightarrow> state_inv (handle_oper i cmd st)"
  by (simp add: handle_oper_def Let_def state_inv_upd_by_id split: option.splits)

lemma state_inv_announce_all: "state_inv st \<Longrightarrow> state_inv (fold (\<lambda>h. announce_loss_and_evict h why) hits st)"
  by (rule state_inv_fold) (rule state_inv_announce)

lemma state_inv_refuse: "refuse_non_oper i st = (b, s) \<Longrightarrow> state_inv s = state_inv st"
  using state_inv_output(12) [of i st] by (metis snd_conv)

lemma state_inv_handle_kill [inv_intros]: "state_inv st \<Longrightarrow> state_inv (handle_kill i cmd st)"
  by (auto simp: handle_kill_def kill_pattern_def kill_one_def Let_def state_inv_refuse
      state_inv_announce_all state_inv_announce split: prod.splits option.splits)

lemma state_inv_handle_kline [inv_intros]: "state_inv st \<Longrightarrow> state_inv (handle_kline i cmd st)"
  by (auto simp: handle_kline_def Let_def state_inv_refuse state_inv_announce_all split: prod.splits option.splits)

lemma state_inv_handle_unkline [inv_intros]: "state_inv st \<Longrightarrow> state_inv (handle_unkline i cmd st)"
  by (auto simp: handle_unkline_def Let_def state_inv_refuse split: prod.splits)

end
