(* ===== verification/Services.thy ===== *)
theory Services
  imports Oper
begin

text \<open>
  The services pseudo-users of \<^verbatim>\<open>src/cmds.rs\<close>: NickServ (accounts, passwords, ghosting,
  certificates) and ChanServ (registered channels), the account cloak, and the announcements that
  follow a login or logout. Subcommands are compared after \<^verbatim>\<open>to_uppercase\<close>, a Unicode
  operation: \<open>uppercase\<close> has every character whose upper case is ASCII.
\<close>

section \<open>Definitions\<close>

definition upper_char :: "string \<Rightarrow> string" where
  "upper_char c = (case c of
     [b] \<Rightarrow> [to_upper b]
   | _ \<Rightarrow>
       let n = map byte_val c
       in if n = [0xC3, 0x9F] then ''SS''
          else if n = [0xC4, 0xB1] then ''I''
          else if n = [0xC5, 0xBF] then ''S''
          else if n = [0xEF, 0xAC, 0x80] then ''FF''
          else if n = [0xEF, 0xAC, 0x81] then ''FI''
          else if n = [0xEF, 0xAC, 0x82] then ''FL''
          else if n = [0xEF, 0xAC, 0x83] then ''FFI''
          else if n = [0xEF, 0xAC, 0x84] then ''FFL''
          else if n = [0xEF, 0xAC, 0x85] \<or> n = [0xEF, 0xAC, 0x86] then ''ST''
          else c)"

definition uppercase :: "string \<Rightarrow> string" where
  "uppercase s = concat (map upper_char (utf8_chars s))"

definition bold :: "string \<Rightarrow> string" where
  "bold s = [CHR 0x02] @ s @ [CHR 0x02]"

definition services_notice :: "nat \<Rightarrow> string \<Rightarrow> string \<Rightarrow> server \<Rightarrow> server" where
  "services_notice i who text st =
     deliver i (proto_line ('':'' @ who @ ''!services@'' @ sv_name st) ''NOTICE''
       (sender_nick st i @ '' :'' @ text)) st"

definition nickserv_notice :: "nat \<Rightarrow> string \<Rightarrow> server \<Rightarrow> server" where
  "nickserv_notice i text st = services_notice i ''NickServ'' text st"

definition chanserv_notice :: "nat \<Rightarrow> string \<Rightarrow> server \<Rightarrow> server" where
  "chanserv_notice i text st = services_notice i ''ChanServ'' text st"

subsection \<open>Cloaks and announcements\<close>

definition cloak_suffix :: "environ \<Rightarrow> string" where
  "cloak_suffix env = opt_default ''chonkbase.net'' (env ''IRC_CLOAK_SUFFIX'')"

text \<open>\<^verbatim>\<open>cloak_host\<close> of \<^verbatim>\<open>src/ops.rs\<close>.\<close>

definition cloak_host :: "environ \<Rightarrow> string \<Rightarrow> string" where
  "cloak_host env real =
     (let secret = opt_default ''chonkline-default-cloak-secret'' (env ''IRC_CLOAK_SECRET'');
          mac = hmac_sha256 (as_bytes secret) (as_bytes real)
      in hex (take 4 mac) @ ''.'' @ cloak_suffix env)"

definition safe_char :: "string \<Rightarrow> char" where
  "safe_char c = (case c of
     [b] \<Rightarrow> if is_alphabetic b \<or> is_digit b \<or> b = CHR ''-'' then to_lower b else CHR ''-''
   | _ \<Rightarrow> CHR ''-'')"

definition account_host :: "environ \<Rightarrow> string \<Rightarrow> string" where
  "account_host env account = map safe_char (utf8_chars account) @ ''.user.'' @ cloak_suffix env"

definition apply_host_change :: "nat \<Rightarrow> string \<Rightarrow> server \<Rightarrow> server" where
  "apply_host_change i new_host st = (case find_by_id st i of
     None \<Rightarrow> st
   | Some u \<Rightarrow>
       (if cx_host u = new_host then st
        else
          let st1 = upd_by_id i (\<lambda>u. u\<lparr>cx_host := new_host\<rparr>) st
          in if \<not> cx_registered u then st1
             else
               let line = proto_line (cx_prefix u) ''CHGHOST'' (cx_user u @ '' '' @ new_host);
                   targets = shared_channel_peers st1 i (\<lambda>v. chghost (cx_caps v))
                     @ (if cx_opt (\<lambda>v. chghost (cx_caps v)) False st1 i then [i] else [])
               in fold (\<lambda>r. deliver r line) targets st1))"

definition announce_account_change :: "nat \<Rightarrow> string option \<Rightarrow> server \<Rightarrow> server" where
  "announce_account_change i account st = (case find_by_id st i of
     None \<Rightarrow> st
   | Some u \<Rightarrow>
       let line = proto_line (cx_prefix u) ''ACCOUNT'' (opt_default ''*'' account);
           st1 = fold (\<lambda>r. deliver r line) (shared_channel_peers st i (\<lambda>v. account_notify (cx_caps v))) st
       in if account \<noteq> None
          then fold (apply_founder_status i) (cx_opt (\<lambda>v. sorted_list_of_set (cx_chans v)) [] st1 i) st1
          else st1)"

definition set_account :: "nat \<Rightarrow> string option \<Rightarrow> server \<Rightarrow> server" where
  "set_account i acct st = upd_by_id i (\<lambda>u. u\<lparr>cx_account := acct\<rparr>) st"

subsection \<open>NickServ\<close>

definition ns_logged_in :: "nat \<Rightarrow> string \<Rightarrow> string \<Rightarrow> server \<Rightarrow> server" where
  "ns_logged_in i name text st =
     announce_account_change i (Some name)
       (apply_host_change i (account_host (sv_env st) name)
         (nickserv_notice i text (set_account i (Some name) st)))"

definition ns_register :: "nat \<Rightarrow> string list \<Rightarrow> server \<Rightarrow> server" where
  "ns_register i parts st =
     (let pass = str_default (first_opt parts); nick = cx_opt cx_nick [] st i
      in if pass = [] then nickserv_notice i ''Syntax: REGISTER <password>'' st
         else case acct_register (w_write_ok (sv_world st)) (w_salt (sv_world st)) nick pass (sv_accounts st) of
           Inr accts \<Rightarrow> ns_logged_in i nick (''Account '' @ bold nick @ '' registered; you are now identified.'')
             (st\<lparr>sv_accounts := accts\<rparr>)
         | Inl e \<Rightarrow> nickserv_notice i (''Registration failed: '' @ e @ ''.'') st)"

definition ns_identify :: "nat \<Rightarrow> string list \<Rightarrow> server \<Rightarrow> server" where
  "ns_identify i parts st =
     (let a = str_default (first_opt parts)
      in case (case nth_opt parts 1 of Some p \<Rightarrow> (a, p) | None \<Rightarrow> (cx_opt cx_nick [] st i, a)) of
           (acct, pass) \<Rightarrow>
             (if pass = [] then nickserv_notice i ''Syntax: IDENTIFY [account] <password>'' st
              else if acct_verify (sv_accounts st) acct pass then
                let disp = opt_default acct (acct_display_name (sv_accounts st) acct)
                in ns_logged_in i disp (''You are now identified for '' @ bold disp @ ''.'') st
              else nickserv_notice i ''Invalid account or password.'' st))"

definition ns_logout :: "nat \<Rightarrow> server \<Rightarrow> server" where
  "ns_logout i st =
     (let was = cx_opt cx_account None st i;
          real = cx_opt cx_real_host [] st i;
          st1 = set_account i None st;
          st2 = (if was \<noteq> None
                 then announce_account_change i None (apply_host_change i (cloak_host (sv_env st1) real) st1)
                 else st1)
      in nickserv_notice i ''You are now logged out.'' st2)"

definition ns_ghost :: "nat \<Rightarrow> string list \<Rightarrow> server \<Rightarrow> server" where
  "ns_ghost i parts st =
     (let target = str_default (first_opt parts); pass = str_default (nth_opt parts 1)
      in if target = [] then nickserv_notice i ''Syntax: GHOST <nick> [password]'' st
         else if \<not> acct_exists (sv_accounts st) target
         then nickserv_notice i (bold target @ '' is not a registered nick.'') st
         else if \<not> ((case cx_opt cx_account None st i of
                      Some a \<Rightarrow> norm_nick a = norm_nick target | None \<Rightarrow> False)
                   \<or> (pass \<noteq> [] \<and> acct_verify (sv_accounts st) target pass))
         then nickserv_notice i ''Access denied. Identify to the account or supply its password.'' st
         else case lookup st (norm_nick target) of
           Some u \<Rightarrow>
             (if cx_id u \<noteq> i
              then nickserv_notice i (''Session holding '' @ bold target @ '' has been disconnected. It is now free.'')
                     (announce_loss_and_evict (cx_id u) ''Ghosted by services'' st)
              else nickserv_notice i (''No other session is currently using '' @ bold target @ ''.'') st)
         | None \<Rightarrow> nickserv_notice i (''No other session is currently using '' @ bold target @ ''.'') st)"

definition ns_set :: "nat \<Rightarrow> string list \<Rightarrow> server \<Rightarrow> server" where
  "ns_set i parts st =
     (let syntax = nickserv_notice i ''Syntax: SET PASSWORD <current> <new>'';
          cur = str_default (nth_opt parts 1); new_pass = str_default (nth_opt parts 2)
      in if uppercase (str_default (first_opt parts)) \<noteq> ''PASSWORD'' then syntax st
         else if cur = [] \<or> new_pass = [] then syntax st
         else case cx_opt cx_account None st i of
           None \<Rightarrow> nickserv_notice i ''You must be identified to change your password.'' st
         | Some account \<Rightarrow>
             (if \<not> acct_verify (sv_accounts st) account cur
              then nickserv_notice i ''Current password incorrect.'' st
              else case set_password (w_write_ok (sv_world st)) (w_salt (sv_world st)) account new_pass (sv_accounts st) of
                Inr accts \<Rightarrow> nickserv_notice i ''Password updated.'' (st\<lparr>sv_accounts := accts\<rparr>)
              | Inl e \<Rightarrow> nickserv_notice i (''Password change failed: '' @ e @ ''.'') st))"

definition em_dash :: string where "em_dash = [CHR 0xE2, CHR 0x80, CHR 0x94]"

definition ns_cert_add :: "nat \<Rightarrow> string \<Rightarrow> string list \<Rightarrow> server \<Rightarrow> server" where
  "ns_cert_add i account parts st =
     (if parts \<noteq> []
      then nickserv_notice i (''Syntax: CERT ADD '' @ em_dash
             @ '' enrolls the certificate on this TLS connection, not a fingerprint you type.'') st
      else case cx_opt cx_cert_fp None st i of
        None \<Rightarrow> nickserv_notice i
          ''This connection has no client certificate. Connect with TLS, present one, identify, then CERT ADD.'' st
      | Some fp \<Rightarrow>
          (case add_cert (w_write_ok (sv_world st)) account fp (sv_accounts st) of (r, accts) \<Rightarrow>
             nickserv_notice i
               (case r of
                  Inr Enrolled \<Rightarrow> ''Certificate enrolled. Your password and any other certificates still work. The next connection can use SASL EXTERNAL.''
                | Inr Already \<Rightarrow> ''That certificate is already enrolled.''
                | Inl e \<Rightarrow> ''Certificate not enrolled: '' @ e @ ''.'')
               (st\<lparr>sv_accounts := accts\<rparr>)))"

definition ns_cert_del :: "nat \<Rightarrow> string \<Rightarrow> string list \<Rightarrow> server \<Rightarrow> server" where
  "ns_cert_del i account parts st =
     (let fp = str_default (first_opt parts)
      in if fp = [] \<or> 1 < length parts then nickserv_notice i ''Syntax: CERT DEL <fingerprint>'' st
         else case remove_cert (w_write_ok (sv_world st)) account fp (sv_accounts st) of (r, accts) \<Rightarrow>
           nickserv_notice i
             (case r of
                Inr _ \<Rightarrow> ''Certificate removed. Sessions already logged in stay logged in. The next SASL EXTERNAL login with that certificate will fail. Your password and any other certificates are unchanged.''
              | Inl e \<Rightarrow> ''Certificate not removed: '' @ e @ ''.'')
             (st\<lparr>sv_accounts := accts\<rparr>))"

definition nickserv_cert :: "nat \<Rightarrow> string list \<Rightarrow> server \<Rightarrow> server" where
  "nickserv_cert i parts st =
     (let action = uppercase (str_default (first_opt parts))
      in case cx_opt cx_account None st i of
           None \<Rightarrow> nickserv_notice i ''You must be identified to manage certificates.'' st
         | Some account \<Rightarrow>
             (if action = ''LIST'' then
                (case opt_default [] (certs_of (sv_accounts st) account) of
                   [] \<Rightarrow> nickserv_notice i ''No certificates enrolled.'' st
                 | certs \<Rightarrow> fold (nickserv_notice i) certs st)
              else if action = ''ADD'' then ns_cert_add i account (tl parts) st
              else if action = ''DEL'' then ns_cert_del i account (tl parts) st
              else nickserv_notice i ''Syntax: CERT LIST | CERT ADD | CERT DEL <fingerprint>'' st))"

definition ns_help :: "nat \<Rightarrow> server \<Rightarrow> server" where
  "ns_help i st = nickserv_notice i ''NickServ: CERT LIST | CERT ADD | CERT DEL <fingerprint>''
     (nickserv_notice i
       ''NickServ: REGISTER <password> | IDENTIFY [account] <password> | SET PASSWORD <current> <new> | GHOST <nick> [password] | LOGOUT'' st)"

definition handle_nickserv :: "nat \<Rightarrow> string \<Rightarrow> bool \<Rightarrow> server \<Rightarrow> server" where
  "handle_nickserv i text is_priv st =
     (if \<not> is_priv \<or> \<not> cx_opt cx_registered False st i then st
      else
        let parts = split_whitespace text;
            sub = uppercase (str_default (first_opt parts));
            args = tl parts
        in if sub = ''REGISTER'' then ns_register i args st
           else if sub = ''IDENTIFY'' \<or> sub = ''LOGIN'' then ns_identify i args st
           else if sub = ''LOGOUT'' then ns_logout i st
           else if sub = ''GHOST'' \<or> sub = ''RECOVER'' then ns_ghost i args st
           else if sub = ''SET'' then ns_set i args st
           else if sub = ''CERT'' then nickserv_cert i args st
           else if sub = [] \<or> sub = ''HELP'' then ns_help i st
           else nickserv_notice i ''Unknown command. Try HELP.'' st)"

subsection \<open>ChanServ\<close>

definition cs_register :: "nat \<Rightarrow> string \<Rightarrow> server \<Rightarrow> server" where
  "cs_register i ch st = (case cx_opt cx_account None st i of
     None \<Rightarrow> chanserv_notice i ''You must be logged in (see NickServ) to register a channel.'' st
   | Some account \<Rightarrow>
       let key = norm_nick ch
       in if \<not> valid_channel ch then chanserv_notice i ''Syntax: REGISTER #channel'' st
          else if is_registered (sv_chanreg st) key
          then chanserv_notice i (bold ch @ '' is already registered.'') st
          else if \<not> chan_opt (\<lambda>c. is_op c i) False st key
          then chanserv_notice i (''You must be a channel operator on '' @ bold ch @ '' to register it.'') st
          else
            let display = chan_opt ch_display ch st key; ok = w_write_ok (sv_world st)
            in case reg_register ok key display account (sv_chanreg st) of
                 Inl e \<Rightarrow> chanserv_notice i (''Registration failed: '' @ e @ ''.'') st
               | Inr regs \<Rightarrow>
                   let topic_now = chan_opt ch_topic [] st key;
                       regs' = (if topic_now \<noteq> [] then reg_set_topic ok key topic_now regs else regs)
                   in chanserv_notice i (''Channel '' @ bold display @ '' registered to '' @ bold account @ ''.'')
                        (st\<lparr>sv_chanreg := regs'\<rparr>))"

definition cs_drop :: "nat \<Rightarrow> string \<Rightarrow> server \<Rightarrow> server" where
  "cs_drop i ch st =
     (let account = str_default (cx_opt cx_account None st i); key = norm_nick ch
      in if \<not> is_registered (sv_chanreg st) key then chanserv_notice i ''That channel is not registered.'' st
         else if \<not> is_founder (sv_chanreg st) key account
         then chanserv_notice i ''Only the channel founder may drop it.'' st
         else chanserv_notice i (''Channel '' @ bold ch @ '' dropped.'')
           (st\<lparr>sv_chanreg := snd (drop_channel (w_write_ok (sv_world st)) key (sv_chanreg st))\<rparr>))"

definition cs_info :: "nat \<Rightarrow> string \<Rightarrow> server \<Rightarrow> server" where
  "cs_info i ch st = (case reg_get (sv_chanreg st) (norm_nick ch) of
     Some r \<Rightarrow> chanserv_notice i (bold (reg_display r) @ '' -- founder: '' @ bold (founder_display r)) st
   | None \<Rightarrow> chanserv_notice i ''That channel is not registered.'' st)"

definition cs_op :: "nat \<Rightarrow> string \<Rightarrow> server \<Rightarrow> server" where
  "cs_op i ch st = (case cx_opt cx_account None st i of
     None \<Rightarrow> chanserv_notice i ''You must be logged in (see NickServ) to request ops.'' st
   | Some account \<Rightarrow>
       let key = norm_nick ch
       in if \<not> valid_channel ch then chanserv_notice i ''Syntax: OP #channel'' st
          else if \<not> is_registered (sv_chanreg st) key then chanserv_notice i ''That channel is not registered.'' st
          else if \<not> is_founder (sv_chanreg st) key account
          then chanserv_notice i ''Only the channel founder may do that.'' st
          else if \<not> chan_opt (\<lambda>c. is_member c i) False st key
          then chanserv_notice i (''You are not on '' @ bold ch @ ''.'') st
          else if chan_opt (\<lambda>c. is_op c i) False st key
          then chanserv_notice i (''You are already an operator on '' @ bold ch @ ''.'') st
          else chanserv_notice i (''You have been opped on '' @ bold ch @ ''.'') (apply_founder_status i key st))"

definition handle_chanserv :: "nat \<Rightarrow> string \<Rightarrow> bool \<Rightarrow> server \<Rightarrow> server" where
  "handle_chanserv i text is_priv st =
     (if \<not> is_priv \<or> \<not> cx_opt cx_registered False st i then st
      else
        let parts = split_whitespace text;
            sub = uppercase (str_default (first_opt parts));
            ch = str_default (nth_opt parts 1)
        in if sub = ''REGISTER'' then cs_register i ch st
           else if sub = ''DROP'' then cs_drop i ch st
           else if sub = ''INFO'' then cs_info i ch st
           else if sub = ''OP'' then cs_op i ch st
           else if sub = [] \<or> sub = ''HELP''
           then chanserv_notice i ''ChanServ: REGISTER #channel | INFO #channel | DROP #channel | OP #channel'' st
           else chanserv_notice i ''Unknown command. Try HELP.'' st)"

section \<open>The invariant is kept\<close>

lemma core_services_notice [core_simps]:
  "core (services_notice i w t st) = core st" "core (nickserv_notice i t st) = core st"
  "core (chanserv_notice i t st) = core st"
  by (simp_all add: services_notice_def nickserv_notice_def chanserv_notice_def core_simps)

lemma state_inv_services_notice [simp]:
  "state_inv (nickserv_notice i t st) = state_inv st" "state_inv (chanserv_notice i t st) = state_inv st"
  by (rule state_inv_same_core, simp add: core_simps)+

lemma keeps_identity_login [simp]:
  "keeps_identity (\<lambda>u. u\<lparr>cx_host := h\<rparr>)" "keeps_identity (\<lambda>u. u\<lparr>cx_account := a\<rparr>)"
  by (simp_all add: keeps_identity_def)

lemma state_inv_set_account [simp, intro]: "state_inv st \<Longrightarrow> state_inv (set_account i a st)"
  by (simp add: set_account_def state_inv_upd_by_id)

lemma state_inv_deliver_all [simp]: "state_inv (fold (\<lambda>r. deliver r l) rs st) = state_inv st"
  by (rule state_inv_same_core) (rule core_announce_lines)

lemma state_inv_host_change [intro]: "state_inv st \<Longrightarrow> state_inv (apply_host_change i h st)"
  by (simp add: apply_host_change_def Let_def state_inv_upd_by_id split: option.splits)

lemma state_inv_apply_founder:
  assumes inv: "state_inv st" and mem: "in_chan i ck st"
  shows "state_inv (apply_founder_status i ck st)"
proof -
  have "state_inv (upd_chan ck (grant i True) st)"
    using inv
  proof (rule state_inv_upd_chan_at)
    fix c
    assume c: "hm_get (sv_chans st) (norm_nick ck) = Some c"
    with mem have "i \<in> ch_members c" by (simp add: in_chan_def)
    with chan_shape [OF inv c]
    show "ch_members (grant i True c) = ch_members c \<and> ch_ops (grant i True c) \<subseteq> ch_members c
        \<and> ch_voices (grant i True c) \<subseteq> ch_members c"
      by (auto simp: grant_def)
  qed
  with inv show ?thesis
    by (simp add: apply_founder_status_def Let_def split: option.splits)
qed

lemma in_chan_relay_all [simp]: "in_chan j ck (relay_all ids l st) = in_chan j ck st"
  by (rule in_chan_core) (simp add: core_simps)

lemma in_chan_apply_founder: "in_chan j ck st \<Longrightarrow> in_chan j ck (apply_founder_status i ck' st)"
proof -
  assume "in_chan j ck st"
  then have "in_chan j ck (upd_chan ck' (grant i True) st)"
    by (auto simp: in_chan_def upd_chan_get grant_def split: if_splits)
  with \<open>in_chan j ck st\<close> show ?thesis
    by (simp add: apply_founder_status_def Let_def split: option.splits)
qed

lemma in_chan_joined:
  assumes inv: "state_inv st" and u: "find_by_id st i = Some u" "ck \<in> cx_chans u"
  shows "in_chan i ck st"
proof -
  note at = find_by_id_Some [OF inv u(1)]
  have "cx_registered u"
    using at u(2) state_invD(4) [OF inv] unfolding ids_ok_def by (metis empty_iff)
  with at have user: "hm_get (sv_users st) (cx_nick_key u) = Some u" and i: "cx_id u = i" by auto
  from user u(2) state_invD(5) [OF inv] obtain c where c: "hm_get (sv_chans st) ck = Some c" "cx_id u \<in> ch_members c"
    unfolding memb_ok_def by blast
  with i chan_shape(4) [OF inv c(1)] show ?thesis by (simp add: in_chan_def)
qed

lemma set_sorted_list: "x \<in> set (sorted_list_of_set A) \<Longrightarrow> x \<in> A"
  by (cases "finite A") auto

lemma state_inv_found_all:
  "state_inv st \<Longrightarrow> (\<And>ck. ck \<in> set cks \<Longrightarrow> in_chan i ck st) \<Longrightarrow> state_inv (fold (apply_founder_status i) cks st)"
  by (induction cks arbitrary: st) (auto simp: state_inv_apply_founder in_chan_apply_founder)

lemma state_inv_account_change:
  assumes inv: "state_inv st"
  shows "state_inv (announce_account_change i a st)"
proof -
  have found: "state_inv (fold (apply_founder_status i) (cx_opt (\<lambda>v. sorted_list_of_set (cx_chans v)) [] s i) s)"
    if s: "state_inv s" for s
  proof (cases "find_by_id s i")
    case (Some u)
    have "state_inv (fold (apply_founder_status i) (sorted_list_of_set (cx_chans u)) s)"
      using s by (rule state_inv_found_all) (rule in_chan_joined [OF s Some], rule set_sorted_list)
    with Some show ?thesis by (simp add: cx_opt_def)
  qed (simp add: cx_opt_def s)
  with inv show ?thesis
    by (simp add: announce_account_change_def Let_def found split: option.splits)
qed

lemma state_inv_logged_in: "state_inv st \<Longrightarrow> state_inv (ns_logged_in i n t st)"
  by (simp add: ns_logged_in_def state_inv_account_change state_inv_host_change)

lemma state_inv_ns:
  assumes "state_inv st"
  shows "state_inv (ns_register i ps st)" "state_inv (ns_identify i ps st)" "state_inv (ns_logout i st)"
    "state_inv (ns_ghost i ps st)" "state_inv (ns_set i ps st)" "state_inv (ns_help i st)"
  using assms
  by (auto simp: ns_register_def ns_identify_def ns_logout_def ns_ghost_def ns_set_def ns_help_def Let_def
      state_inv_logged_in state_inv_account_change state_inv_host_change state_inv_announce
      split: sum.splits option.splits)

lemma state_inv_ns_cert:
  assumes "state_inv st"
  shows "state_inv (nickserv_cert i ps st)"
  using assms
  by (auto simp: nickserv_cert_def ns_cert_add_def ns_cert_del_def Let_def state_inv_fold
      split: option.splits prod.splits list.splits)

lemma state_inv_handle_nickserv [inv_intros]: "state_inv st \<Longrightarrow> state_inv (handle_nickserv i t p st)"
  by (simp add: handle_nickserv_def Let_def state_inv_ns state_inv_ns_cert)

lemma state_inv_cs:
  assumes "state_inv st"
  shows "state_inv (cs_register i ch st)" "state_inv (cs_drop i ch st)" "state_inv (cs_info i ch st)"
    "state_inv (cs_op i ch st)"
  using assms
  by (auto simp: cs_register_def cs_drop_def cs_info_def cs_op_def Let_def
      intro!: state_inv_apply_founder in_chan_member split: sum.splits option.splits)

lemma state_inv_handle_chanserv [inv_intros]: "state_inv st \<Longrightarrow> state_inv (handle_chanserv i t p st)"
  by (simp add: handle_chanserv_def Let_def state_inv_cs)

end
