(* ===== verification/Messages.thy ===== *)
theory Messages
  imports Services
begin

text \<open>
  \<^verbatim>\<open>PRIVMSG\<close> and \<^verbatim>\<open>NOTICE\<close> (\<^verbatim>\<open>src/cmds.rs\<close>, \<^verbatim>\<open>handle_privmsg\<close> to
  \<^verbatim>\<open>deliver_to_userhost\<close>): the target list with its cap, and each kind of recipient.
\<close>

section \<open>Definitions\<close>

abbreviation MAX_TARGETS :: nat where "MAX_TARGETS \<equiv> 4"

definition verb :: "bool \<Rightarrow> string" where
  "verb is_priv = (if is_priv then ''PRIVMSG'' else ''NOTICE'')"

definition reply_missing_recipient :: "nat \<Rightarrow> bool \<Rightarrow> server \<Rightarrow> server" where
  "reply_missing_recipient i is_priv st = (if is_priv then numeric i ''411'' [''No recipient given''] st else st)"

definition reply_missing_text :: "nat \<Rightarrow> server \<Rightarrow> server" where
  "reply_missing_text i st = numeric i ''412'' [''No text to send''] st"

text \<open>\<^verbatim>\<open>chars.next()\<close> then \<^verbatim>\<open>chars.nth(1)\<close>: the first and the third character.\<close>

definition dollar_mask_now :: "string \<Rightarrow> bool" where
  "dollar_mask_now token \<longleftrightarrow>
     first_opt (utf8_chars token) = Some ''$'' \<and> nth_opt (utf8_chars token) 2 \<noteq> None"

definition split_statusmsg :: "string \<Rightarrow> (char \<times> string) option" where
  "split_statusmsg raw = (case raw of
     c # rest \<Rightarrow> if (c = CHR ''@'' \<or> c = CHR ''+'') \<and> valid_channel rest then Some (c, rest) else None
   | [] \<Rightarrow> None)"

definition split_user_at_host :: "string \<Rightarrow> (string \<times> string) option" where
  "split_user_at_host token =
     (let host = rev (takeWhile (\<lambda>c. c \<noteq> CHR ''@'') (rev token));
          user = take (length token - length host - 1) token
      in if CHR ''@'' \<in> set token \<and> user \<noteq> [] \<and> host \<noteq> []
         then Some (norm_nick user, norm_nick host) else None)"

definition relay_to_links :: "nat \<Rightarrow> string \<Rightarrow> string \<Rightarrow> bool \<Rightarrow> server \<Rightarrow> server" where
  "relay_to_links i target text is_priv st =
     (if sv_links st = [] then st
      else case uuid_for_local i (sv_network st) of (uuid, n1) \<Rightarrow>
        to_links ('':'' @ uuid @ '' '' @ verb is_priv @ '' '' @ target @ '' :'' @ text) (st\<lparr>sv_network := n1\<rparr>))"

definition bypass_capture :: "bool \<Rightarrow> server \<Rightarrow> server" where
  "bypass_capture b st = upd_reply (\<lambda>r. r\<lparr>bypass_reply_capture := b\<rparr>) st"

definition mark_self_msg :: "server \<Rightarrow> server" where
  "mark_self_msg st = upd_reply (\<lambda>r. r\<lparr>reply_self_msg := True\<rparr>) st"

definition away_reply :: "nat \<Rightarrow> nat \<Rightarrow> bool \<Rightarrow> server \<Rightarrow> server" where
  "away_reply i j is_priv st =
     (if is_priv then
        (case cx_opt cx_away None st j of
           Some note \<Rightarrow> numeric i ''301'' [cx_opt cx_nick [] st j, '':'' @ note] st
         | None \<Rightarrow> st)
      else st)"

definition relay_user_message :: "nat \<Rightarrow> string \<Rightarrow> string \<Rightarrow> bool \<Rightarrow> nat \<Rightarrow> server \<Rightarrow> server" where
  "relay_user_message i raw text is_priv j st =
     (let line = proto_line (cx_opt cx_prefix [] st i) (verb is_priv) (raw @ '' :'' @ text);
          st1 = (if j = i then bypass_capture True (mark_self_msg st) else st);
          st2 = relay_tagged j line st1;
          st3 = (if j = i then bypass_capture False st2 else st2)
      in away_reply i j is_priv st3)"

definition server_mask_one :: "nat \<Rightarrow> string \<Rightarrow> nat \<Rightarrow> server \<Rightarrow> server" where
  "server_mask_one i line m st =
     (if m = i then bypass_capture False (deliver m line (bypass_capture True (mark_self_msg st)))
      else deliver m line st)"

definition deliver_to_server_mask :: "nat \<Rightarrow> string \<Rightarrow> string \<Rightarrow> bool \<Rightarrow> server \<Rightarrow> server" where
  "deliver_to_server_mask i raw text is_priv st =
     (if \<not> cx_opt cx_oper False st i then no_privileges i st
      else if \<not> wildcard_match (tl raw) (norm_nick (sv_prefix st))
      then (if is_priv then nosuch_nick i raw st else st)
      else fold (server_mask_one i (proto_line (cx_opt cx_prefix [] st i) (verb is_priv) (raw @ '' :'' @ text)))
             (map cx_id (cx_list st)) st)"

definition channel_send_denied :: "server \<Rightarrow> nat \<Rightarrow> string \<Rightarrow> bool" where
  "channel_send_denied st i ck = (case chan st ck of
     None \<Rightarrow> True
   | Some c \<Rightarrow>
       let banned = (case find_by_id st i of Some u \<Rightarrow> ban_match c u \<noteq> None \<and> \<not> except_match c u | None \<Rightarrow> True);
           member = is_member c i
       in banned \<or> (ch_nomsg c \<and> \<not> member) \<or> (ch_moderated c \<and> \<not> is_op c i \<and> \<not> is_voiced c i)
          \<or> (ch_invite_only c \<and> \<not> member))"

definition cannot_send :: "nat \<Rightarrow> string \<Rightarrow> server \<Rightarrow> server" where
  "cannot_send i target st = numeric i ''404'' [target, ''Cannot send to channel''] st"

definition status_ok :: "chn \<Rightarrow> char \<Rightarrow> nat \<Rightarrow> bool" where
  "status_ok c needed m =
     (if needed = CHR ''@'' then is_op c m
      else if needed = CHR ''+'' then is_op c m \<or> is_voiced c m else False)"

definition deliver_to_channel_status ::
    "nat \<Rightarrow> char \<Rightarrow> string \<Rightarrow> string \<Rightarrow> string \<Rightarrow> bool \<Rightarrow> server \<Rightarrow> server" where
  "deliver_to_channel_status i needed ch full_target text is_priv st =
     (let ck = norm_nick ch
      in if chan st ck = None then (if is_priv then nosuch_channel i full_target st else st)
         else if channel_send_denied st i ck then (if is_priv then cannot_send i full_target st else st)
         else relay_all (filter (\<lambda>m. m \<noteq> i \<and> chan_opt (\<lambda>c. status_ok c needed m) False st ck) (members_list st ck))
                (proto_line (cx_opt cx_prefix [] st i) (verb is_priv) (full_target @ '' :'' @ text)) st)"

definition deliver_to_channel :: "nat \<Rightarrow> string \<Rightarrow> string \<Rightarrow> bool \<Rightarrow> server \<Rightarrow> bool \<times> server" where
  "deliver_to_channel i raw text is_priv st =
     (let ck = norm_nick raw
      in if chan st ck = None then (False, if is_priv then nosuch_channel i raw st else st)
         else if channel_send_denied st i ck then (False, if is_priv then cannot_send i raw st else st)
         else (True, relay_all (filter (\<lambda>m. m \<noteq> i) (members_list st ck))
                (proto_line (cx_opt cx_prefix [] st i) (verb is_priv) (raw @ '' :'' @ text)) st))"

definition deliver_to_userhost :: "nat \<Rightarrow> string \<Rightarrow> string \<Rightarrow> string \<Rightarrow> bool \<Rightarrow> server \<Rightarrow> server" where
  "deliver_to_userhost i user_part host_mask text is_priv st =
     (case map cx_id (filter (\<lambda>u. norm_nick (cx_user u) = user_part
             \<and> wildcard_match host_mask (norm_nick (cx_host u))) (cx_list st)) of
        [] \<Rightarrow> (if is_priv then nosuch_nick i (user_part @ ''@'' @ host_mask) st else st)
      | [j] \<Rightarrow> away_reply i j is_priv (deliver j
          (proto_line (cx_opt cx_prefix [] st i) (verb is_priv) (user_part @ '' :'' @ text)) st)
      | _ \<Rightarrow> (if is_priv then numeric i ''407'' [user_part, ''Too many targets''] st else st))"

definition deliver_one_recipient :: "nat \<Rightarrow> string \<Rightarrow> string \<Rightarrow> bool \<Rightarrow> server \<Rightarrow> server" where
  "deliver_one_recipient i raw text is_priv st =
     (if dollar_mask_now raw then deliver_to_server_mask i raw text is_priv st
      else if norm_nick raw = ''nickserv'' then handle_nickserv i text is_priv st
      else if norm_nick raw = ''chanserv'' then handle_chanserv i text is_priv st
      else case split_statusmsg raw of
        Some (needed, ch) \<Rightarrow> deliver_to_channel_status i needed ch raw text is_priv st
      | None \<Rightarrow>
          (if valid_channel raw then
             (case deliver_to_channel i raw text is_priv st of (sent, st1) \<Rightarrow>
                (if sent then relay_to_links i raw text is_priv st1 else st1))
           else case split_user_at_host raw of
             Some (user, host) \<Rightarrow> deliver_to_userhost i user host text is_priv st
           | None \<Rightarrow>
               (case lookup st (norm_nick raw) of
                  Some t \<Rightarrow> relay_user_message i raw text is_priv (cx_id t) st
                | None \<Rightarrow>
                    (case by_nick (sv_network st) (norm_nick raw) of
                       Some u \<Rightarrow> note_message (relay_to_links i (ru_uuid u) text is_priv st)
                     | None \<Rightarrow> (if is_priv then nosuch_nick i raw st else st)))))"

text \<open>The loop over the targets: what it has sent to so far, and whether it stopped at the cap.\<close>

fun privmsg_loop :: "nat \<Rightarrow> string \<Rightarrow> bool \<Rightarrow> string list \<Rightarrow> string list \<Rightarrow> server \<Rightarrow> bool \<times> server" where
  "privmsg_loop i text is_priv [] seen st = (False, st)"
| "privmsg_loop i text is_priv (raw # rs) seen st =
     (if norm_nick raw \<in> set seen then privmsg_loop i text is_priv rs seen st
      else if MAX_TARGETS \<le> length seen then (True, st)
      else privmsg_loop i text is_priv rs (seen @ [norm_nick raw])
             (deliver_one_recipient i raw text is_priv (note_message st)))"

definition handle_privmsg :: "nat \<Rightarrow> command \<Rightarrow> bool \<Rightarrow> server \<Rightarrow> server" where
  "handle_privmsg i cmd is_priv st = (case first_opt (cmd_params cmd) of
     None \<Rightarrow> reply_missing_recipient i is_priv st
   | Some recips_raw \<Rightarrow>
       let text = str_default (nth_opt (cmd_params cmd) 1)
       in if text = [] then (if is_priv then reply_missing_text i st else st)
          else case privmsg_loop i text is_priv (filter (\<lambda>c. c \<noteq> []) (split_on (CHR '','') recips_raw)) [] st of
            (over, st1) \<Rightarrow>
              (if over then numeric i ''407'' [recips_raw, ''Too many recipients''] st1 else st1))"

section \<open>The invariant is kept\<close>

lemma core_message_output [core_simps]:
  "core (bypass_capture b st) = core st" "core (mark_self_msg st) = core st"
  "core (cannot_send i t st) = core st" "core (away_reply i j p st) = core st"
  by (simp_all add: bypass_capture_def mark_self_msg_def cannot_send_def away_reply_def core_simps split: option.splits)

lemma core_deliver_to [core_simps]:
  "core (relay_user_message i raw text p j st) = core st"
  "core (server_mask_one i l m st) = core st"
  "core (deliver_to_server_mask i raw text p st) = core st"
  "core (deliver_to_channel_status i n ch full text p st) = core st"
  "core (snd (deliver_to_channel i raw text p st)) = core st"
  "core (deliver_to_userhost i u h text p st) = core st"
  by (simp_all add: relay_user_message_def server_mask_one_def deliver_to_server_mask_def
      deliver_to_channel_status_def deliver_to_channel_def deliver_to_userhost_def Let_def core_simps
      core_fold split: list.splits)

lemma state_inv_deliver_to [simp]:
  "state_inv (relay_user_message i raw text p j st) = state_inv st"
  "state_inv (deliver_to_server_mask i raw text p st) = state_inv st"
  "state_inv (deliver_to_channel_status i n ch full text p st) = state_inv st"
  "state_inv (snd (deliver_to_channel i raw text p st)) = state_inv st"
  "state_inv (deliver_to_userhost i u h text p st) = state_inv st"
  by (rule state_inv_same_core, simp add: core_simps)+

lemma state_inv_relay_to_links [simp]: "state_inv (relay_to_links i t x p st) = state_inv st"
  by (simp add: relay_to_links_def split: prod.splits)

lemma state_inv_note_message [simp]: "state_inv (note_message st) = state_inv st"
  by (simp add: note_message_def)

lemma state_inv_to_channel: "deliver_to_channel i raw x p st = (sent, s) \<Longrightarrow> state_inv s = state_inv st"
  using state_inv_deliver_to(4) [of i raw x p st] by (metis snd_conv)

lemma state_inv_one_recipient: "state_inv st \<Longrightarrow> state_inv (deliver_one_recipient i raw x p st)"
  by (auto simp: deliver_one_recipient_def state_inv_handle_nickserv state_inv_handle_chanserv
      state_inv_to_channel split: option.splits prod.splits)

lemma state_inv_privmsg_loop: "state_inv st \<Longrightarrow> state_inv (snd (privmsg_loop i x p rs seen st))"
  by (induction i x p rs seen st rule: privmsg_loop.induct) (auto simp: state_inv_one_recipient)

lemma state_inv_handle_privmsg [inv_intros]:
  assumes "state_inv st"
  shows "state_inv (handle_privmsg i cmd p st)"
  using assms state_inv_privmsg_loop [OF assms]
  by (auto simp: handle_privmsg_def reply_missing_recipient_def reply_missing_text_def Let_def
      split: option.splits prod.splits) (metis snd_conv)+

section \<open>Who receives a line\<close>

lemma find_by_id_send:
  assumes "state_inv st"
  shows "find_by_id (send_to j l st) k =
    (if k = j then map_option (enqueue l) (find_by_id st k) else find_by_id st k)"
proof (cases "find_by_id st j")
  case None
  then show ?thesis by (simp add: send_to_def)
next
  case (Some u)
  then show ?thesis
    using find_by_id_upd [OF assms, of "enqueue l" j k] by (simp add: send_to_def enqueue_def)
qed

lemma send_to_reply [simp]: "sv_reply (send_to j l st) = sv_reply st"
  by (simp add: send_to_def upd_by_id_def split: option.splits)

lemma lookup_loop_core: "map_option erase (lookup_loop n st k) = lookup_loop n (core st) k"
proof (induction n arbitrary: k)
  case 0
  show ?case by (simp add: core_get)
next
  case (Suc n)
  have hop: "rename_hop (core st) k = rename_hop st k" by (simp add: rename_hop_def)
  show ?case using Suc.IH by (auto simp: core_get hop split: option.splits)
qed

lemma lookup_core:
  assumes "core st' = core st"
  shows "map_option erase (lookup st' k) = map_option erase (lookup st k)"
  using assms by (simp add: lookup_def lookup_loop_core)

lemma find_values_core:
  assumes "\<And>u. P (erase u) = P u"
  shows "List.find P (hm_values (sv_users (core st))) = map_option erase (List.find P (hm_values (sv_users st)))"
proof -
  have "List.find P (hm_values (map (apsnd erase) m)) = map_option erase (List.find P (hm_values m))"
    for m :: "(string, cx) hmap"
    using assms by (induction m) (auto simp: hm_values_def)
  then show ?thesis by (simp add: core_def)
qed

lemma erase_more [simp]: "cx_user (erase u) = cx_user u" "cx_host (erase u) = cx_host u"
  "cx_caps (erase u) = cx_caps u" "cx_bot (erase u) = cx_bot u"
  by (simp_all add: erase_def)

lemma map_option_erase_id:
  "map_option erase a = map_option erase b \<Longrightarrow> map_option cx_id a = map_option cx_id b"
  by (metis (no_types, lifting) erase_fields(1) option.map_comp option.map_cong0 comp_apply)

lemma sender_id_core:
  assumes "core st' = core st"
  shows "sender_id_from_line st' l = sender_id_from_line st l"
proof -
  have look: "map_option cx_id (lookup st' k) = map_option cx_id (lookup st k)" for k
    by (rule map_option_erase_id) (rule lookup_core [OF assms])
  have val: "map_option cx_id (List.find (\<lambda>u. cx_user u = a \<and> cx_host u = b) (hm_values (sv_users st')))
      = map_option cx_id (List.find (\<lambda>u. cx_user u = a \<and> cx_host u = b) (hm_values (sv_users st)))" for a b
    using find_values_core [of "\<lambda>u. cx_user u = a \<and> cx_host u = b" st]
      find_values_core [of "\<lambda>u. cx_user u = a \<and> cx_host u = b" st'] assms
    by (intro map_option_erase_id) simp
  have "(case lookup s (norm_nick n) of Some u \<Rightarrow> Some (cx_id u) | None \<Rightarrow> x)
      = (case map_option cx_id (lookup s (norm_nick n)) of Some j \<Rightarrow> Some j | None \<Rightarrow> x)" for s n x
    by (cases "lookup s (norm_nick n)") simp_all
  then show ?thesis unfolding sender_id_from_line_def Let_def by (simp only: look val)
qed

lemma relay_tags_core:
  assumes "core st' = core st"
  shows "relay_tags st' t l = relay_tags st t l"
proof -
  have find: "map_option erase (find_by_id st' j) = map_option erase (find_by_id st j)" for j
    using find_by_id_core assms by metis
  have world: "sv_world st' = sv_world st" using core_fields(4) assms by metis
  have caps: "(case find_by_id s t of
        Some u \<Rightarrow> (server_time (cx_caps u), message_tags (cx_caps u), account_tag (cx_caps u))
      | None \<Rightarrow> (False, False, False))
    = (case map_option erase (find_by_id s t) of
        Some u \<Rightarrow> (server_time (cx_caps u), message_tags (cx_caps u), account_tag (cx_caps u))
      | None \<Rightarrow> (False, False, False))" for s
    by (simp split: option.splits)
  have bot: "(case find_by_id s j of Some u \<Rightarrow> (cx_bot u, Some (cx_account u)) | None \<Rightarrow> (False, None))
    = (case map_option erase (find_by_id s j) of
        Some u \<Rightarrow> (cx_bot u, Some (cx_account u)) | None \<Rightarrow> (False, None))" for s j
    by (simp split: option.splits)
  show ?thesis
    unfolding relay_tags_def caps bot find sender_id_core [OF assms] world ..
qed

text \<open>The line as it reaches one recipient of a relay.\<close>

definition tagged :: "server \<Rightarrow> nat \<Rightarrow> string \<Rightarrow> string" where
  "tagged st k l = (if relay_tags st k l = [] then l else ''@'' @ join_with '';'' (relay_tags st k l) @ '' '' @ l)"

lemma relay_tagged_send:
  "reply_for (sv_reply st) \<noteq> Some k \<Longrightarrow> relay_tagged k l st = send_to k (tagged st k l) st"
  by (simp add: relay_tagged_def tagged_def deliver_def Let_def)

lemma relay_all_receives:
  assumes "state_inv st" "distinct ids" "\<And>k. k \<in> set ids \<Longrightarrow> reply_for (sv_reply st) \<noteq> Some k"
  shows "find_by_id (relay_all ids l st) k =
    (if k \<in> set ids then map_option (enqueue (tagged st k l)) (find_by_id st k) else find_by_id st k)"
  using assms
proof (induction ids arbitrary: st)
  case Nil
  then show ?case by (simp add: relay_all_def)
next
  case (Cons j ids)
  let ?s = "send_to j (tagged st j l) st"
  have step: "relay_all (j # ids) l st = relay_all ids l ?s"
    using Cons.prems by (simp add: relay_all_def relay_tagged_send)
  have inv: "state_inv ?s" using Cons.prems by simp
  have tag: "tagged ?s k l = tagged st k l"
    unfolding tagged_def by (simp only: relay_tags_core [OF core_send_to])
  show ?case
    unfolding step using Cons.IH [OF inv] Cons.prems
    by (auto simp: tag find_by_id_send [OF Cons.prems(1)])
qed

lemma members_list_distinct: "distinct (members_list st ck)"
  by (simp add: members_list_def chan_opt_def split: option.splits)

lemma members_list_set:
  assumes "state_inv st"
  shows "set (members_list st ck) = chan_opt ch_members {} st ck"
proof (cases "chan st ck")
  case (Some c)
  then have "finite (ch_members c)" using chan_shape(3) [OF assms] by (simp add: chan_def)
  with Some show ?thesis by (simp add: members_list_def chan_opt_def)
qed (simp add: members_list_def chan_opt_def)

text \<open>A message the channel accepts is queued for every other member and for nobody else.\<close>

lemma channel_message_receives:
  assumes inv: "state_inv st" and c: "chan st (norm_nick raw) = Some c"
    and ok: "\<not> channel_send_denied st i (norm_nick raw)"
    and own: "reply_for (sv_reply st) = Some i"
  shows "find_by_id (snd (deliver_to_channel i raw t p st)) k =
    (if k \<noteq> i \<and> k \<in> ch_members c
     then map_option (enqueue (tagged st k (proto_line (cx_opt cx_prefix [] st i) (verb p) (raw @ '' :'' @ t))))
            (find_by_id st k)
     else find_by_id st k)"
proof -
  let ?ids = "filter (\<lambda>m. m \<noteq> i) (members_list st (norm_nick raw))"
  have ids: "set (members_list st (norm_nick raw)) = ch_members c"
    using members_list_set [OF inv, of "norm_nick raw"] c by (simp add: chan_opt_def)
  have "distinct ?ids" by (simp add: members_list_distinct)
  moreover have "reply_for (sv_reply st) \<noteq> Some m" if "m \<in> set ?ids" for m using own that by auto
  ultimately show ?thesis
    using relay_all_receives [OF inv, of ?ids] c ok ids
    by (simp add: deliver_to_channel_def Let_def)
qed

lemma find_by_id_capture [simp]: "find_by_id (upd_reply f st) k = find_by_id st k"
  by (simp add: upd_reply_def find_by_id_def split: option.split)

lemma numeric_own: "reply_for (sv_reply st) = Some i \<Longrightarrow> \<not> bypass_reply_capture (sv_reply st) \<Longrightarrow>
    find_by_id (numeric i c as st) k = find_by_id st k"
  by (simp add: numeric_def deliver_def push_reply_def find_by_id_def split: option.split)

text \<open>A message the channel refuses reaches no connection; the refusal is part of the reply.\<close>

lemma channel_message_refused:
  assumes "channel_send_denied st i (norm_nick raw)"
    and "reply_for (sv_reply st) = Some i" "\<not> bypass_reply_capture (sv_reply st)"
  shows "fst (deliver_to_channel i raw t p st) = False"
    and "find_by_id (snd (deliver_to_channel i raw t p st)) k = find_by_id st k"
  using assms by (simp_all add: deliver_to_channel_def Let_def cannot_send_def nosuch_channel_def numeric_own)

section \<open>The cap on targets\<close>

text \<open>The targets the loop serves: the first four distinct ones.\<close>

fun served :: "string list \<Rightarrow> string list \<Rightarrow> string list" where
  "served [] seen = []"
| "served (raw # rs) seen =
     (if norm_nick raw \<in> set seen then served rs seen
      else if MAX_TARGETS \<le> length seen then []
      else raw # served rs (seen @ [norm_nick raw]))"

lemma privmsg_loop_served:
  "snd (privmsg_loop i x p rs seen st) =
     fold (\<lambda>raw s. deliver_one_recipient i raw x p (note_message s)) (served rs seen) st"
  by (induction i x p rs seen st rule: privmsg_loop.induct) auto

lemma served_bound: "length seen \<le> MAX_TARGETS \<Longrightarrow> length (served rs seen) + length seen \<le> MAX_TARGETS"
proof (induction rs seen rule: served.induct)
  case (2 raw rs seen)
  then show ?case by (cases "norm_nick raw \<in> set seen"; cases "MAX_TARGETS \<le> length seen") simp_all
qed simp

lemma served_distinct:
  "distinct (map norm_nick (served rs seen)) \<and> set (map norm_nick (served rs seen)) \<inter> set seen = {}"
  by (induction rs seen rule: served.induct) auto

lemma served_subset: "set (served rs seen) \<subseteq> set rs"
  by (induction rs seen rule: served.induct) auto

end
