(* ===== verification/Queries.thy ===== *)
theory Queries
  imports Messages
begin

text \<open>
  The queries of \<^verbatim>\<open>src/cmds.rs\<close>: \<^verbatim>\<open>USERHOST\<close>, \<^verbatim>\<open>ISON\<close>, \<^verbatim>\<open>WHOIS\<close>,
  \<^verbatim>\<open>WHOWAS\<close>, \<^verbatim>\<open>WHO\<close> with its extended form, \<^verbatim>\<open>PING\<close> and the informational
  replies. None of them changes the state: their replies are output only.
\<close>

section \<open>Definitions\<close>

text \<open>The connection a nickname resolves to, when the requester may see it.\<close>

definition visible_target :: "server \<Rightarrow> nat \<Rightarrow> string \<Rightarrow> cx option" where
  "visible_target st i nick = (case lookup st (norm_nick nick) of
     None \<Rightarrow> None
   | Some t \<Rightarrow> (case (find_by_id st i, find_by_id st (cx_id t)) of
       (Some req, Some u) \<Rightarrow> if visible req u then Some u else None
     | _ \<Rightarrow> None))"

definition userhost_entry :: "cx \<Rightarrow> string" where
  "userhost_entry u = cx_nick u @ ''='' @ (if cx_away u \<noteq> None then ''-'' else ''+'') @ cx_user u @ ''@'' @ cx_host u"

definition handle_userhost :: "nat \<Rightarrow> command \<Rightarrow> server \<Rightarrow> server" where
  "handle_userhost i cmd st = numeric i ''302'' ['':'' @ join_with '' ''
     (map userhost_entry (List.map_filter (visible_target st i) (take 5 (cmd_params cmd))))] st"

definition handle_ison :: "nat \<Rightarrow> command \<Rightarrow> server \<Rightarrow> server" where
  "handle_ison i cmd st = numeric i ''303'' ['':'' @ join_with '' ''
     (map cx_nick (List.map_filter (visible_target st i) (cmd_params cmd)))] st"

subsection \<open>WHOIS and WHOWAS\<close>

fun chunks :: "nat \<Rightarrow> 'a list \<Rightarrow> 'a list list" where
  "chunks n [] = []"
| "chunks n (x # xs) = (if n = 0 then [] else take n (x # xs) # chunks n (drop (n - 1) xs))"

definition whois_remote :: "nat \<Rightarrow> remote_user \<Rightarrow> server \<Rightarrow> server" where
  "whois_remote i u st =
     (let srv = (case net_server (sv_network st) (ru_sid u) of
                   Some s \<Rightarrow> (rs_name s, rs_desc s) | None \<Rightarrow> (ru_sid u, []));
          chans = sorted_list_of_set (ru_chans u)
      in numerics i
           ([(''311'', [ru_nick u, ru_user u, ru_host u, ''*'', ru_realname u]),
             (''312'', [ru_nick u, fst srv, snd srv])]
            @ (case ru_away u of Some r \<Rightarrow> [(''301'', [ru_nick u, r])] | None \<Rightarrow> [])
            @ (if chans \<noteq> [] then [(''319'', [ru_nick u, join_with '' '' chans])] else [])
            @ [(''318'', [ru_nick u, ''End of /WHOIS list''])]) st)"

definition idle_secs :: "server \<Rightarrow> cx \<Rightarrow> nat" where
  "idle_secs st u = (sv_now st - cx_last_rx u) div 1000000000"

definition whois_local :: "nat \<Rightarrow> cx \<Rightarrow> server \<Rightarrow> server" where
  "whois_local i u st =
     (let chans = List.map_filter (\<lambda>ck. map_option ch_display (chan st ck)) (sorted_list_of_set (cx_chans u))
      in numerics i
           ([(''311'', [cx_nick u, cx_user u, cx_host u, ''*'', '':'' @ sv_name st])]
            @ (case cx_account u of Some a \<Rightarrow> [(''330'', [cx_nick u, a, ''is logged in as''])] | None \<Rightarrow> [])
            @ (if cx_opt cx_oper False st i \<or> i = cx_id u
               then [(''338'', [cx_nick u, cx_user u @ ''@'' @ cx_real_host u, ''is actually using host''])] else [])
            @ (if cx_oper u then [(''313'', [cx_nick u @ '' is operating as an IRC Operator''])] else [])
            @ (if cx_bot u then [(''335'', [cx_nick u, ''is a bot''])] else [])
            @ (case cx_away u of Some n \<Rightarrow> [(''301'', [cx_nick u, '':'' @ n])] | None \<Rightarrow> [])
            @ [(''317'', [cx_nick u, show_nat (idle_secs st u), ''seconds idle''])]
            @ map (\<lambda>ch. (''319'', [cx_nick u, show_nat (length chans), ''is on :'' @ join_with '' '' ch])) (chunks 10 chans)
            @ [(''318'', [cx_nick u, ''End of /WHOIS list''])]) st)"

definition handle_whois :: "nat \<Rightarrow> command \<Rightarrow> server \<Rightarrow> server" where
  "handle_whois i cmd st = (case first_opt (cmd_params cmd) of
     None \<Rightarrow> nosuch_nick i ''*'' st
   | Some target \<Rightarrow> (case find_by_id st i of
       None \<Rightarrow> st
     | Some req \<Rightarrow> (case lookup st (norm_nick target) of
         None \<Rightarrow> (case by_nick (sv_network st) (norm_nick target) of
             Some u \<Rightarrow> whois_remote i u st
           | None \<Rightarrow> nosuch_nick i target st)
       | Some t \<Rightarrow> (case find_by_id st (cx_id t) of
             Some u \<Rightarrow> if visible req u then whois_local i u st else nosuch_nick i target st
           | None \<Rightarrow> nosuch_nick i target st))))"

definition parse_i64 :: "string \<Rightarrow> int option" where
  "parse_i64 s = (case s of
     c # ds \<Rightarrow>
       (if c = CHR ''-'' then
          (if ds \<noteq> [] \<and> list_all is_digit ds \<and> digits_val ds \<le> 2 ^ 63 then Some (- int (digits_val ds)) else None)
        else map_option int (parse_uint (2 ^ 63) s))
   | [] \<Rightarrow> None)"

definition whowas_hits :: "server \<Rightarrow> string \<Rightarrow> int option \<Rightarrow> (string \<times> string) list" where
  "whowas_hits st target cap =
     (let found = map (\<lambda>h. (new_key h, cx_opt cx_user [] st (hist_cx h) @ '' ''
                     @ cx_opt cx_host [] st (hist_cx h) @ '' '' @ sv_name st))
                   (filter (\<lambda>h. target = norm_nick (old_key h)) (rev (sv_history st)))
      in case cap of Some n \<Rightarrow> if 0 < n then take (nat n) found else found | None \<Rightarrow> found)"

definition handle_whowas :: "nat \<Rightarrow> command \<Rightarrow> server \<Rightarrow> server" where
  "handle_whowas i cmd st = (case first_opt (cmd_params cmd) of
     None \<Rightarrow> nosuch_nick i ''*'' st
   | Some nick \<Rightarrow>
       let cap = (case nth_opt (cmd_params cmd) 1 of Some v \<Rightarrow> parse_i64 v | None \<Rightarrow> None);
           hits = whowas_hits st (norm_nick nick) cap
       in if hits = [] then numeric i ''406'' [nick, ''No such nick''] st
          else numerics i (map (\<lambda>(n, trail). (''314'', [n, ''*'', trail])) hits
                 @ [(''369'', [nick, ''End of /WHOWAS list''])]) st)"

subsection \<open>WHO\<close>

definition who_marker_for :: "server \<Rightarrow> nat \<Rightarrow> cx \<Rightarrow> string" where
  "who_marker_for st req_id u =
     (if cx_away u \<noteq> None then ''G'' else ''H'') @ (if cx_oper u then ''*'' else [])
     @ (if cx_bot u then ''B'' else [])
     @ (case (case find_by_id st req_id of
                None \<Rightarrow> None
              | Some req \<Rightarrow> List.find (\<lambda>ck. ck \<in> cx_chans req) (sorted_list_of_set (cx_chans u))) of
          None \<Rightarrow> []
        | Some ck \<Rightarrow>
            (if chan_opt (\<lambda>c. is_op c (cx_id u)) False st ck then ''@''
             else if chan_opt (\<lambda>c. is_voiced c (cx_id u)) False st ck then ''+'' else []))"

definition whox_field :: "server \<Rightarrow> nat \<Rightarrow> cx \<Rightarrow> string \<Rightarrow> string option \<Rightarrow> char \<Rightarrow> string" where
  "whox_field st req_id u ch token f =
     (if f = CHR ''t'' then opt_default ''0'' token
      else if f = CHR ''c'' then ch
      else if f = CHR ''u'' then cx_user u
      else if f = CHR ''i'' \<or> f = CHR ''h'' then cx_host u
      else if f = CHR ''s'' then sv_name st
      else if f = CHR ''n'' then cx_nick u
      else if f = CHR ''f'' then who_marker_for st req_id u
      else if f = CHR ''d'' then ''0''
      else if f = CHR ''l'' then show_nat (idle_secs st u)
      else if f = CHR ''a'' then opt_default ''0'' (cx_account u)
      else cx_realname u)"

definition whox_fields :: "server \<Rightarrow> nat \<Rightarrow> cx \<Rightarrow> string \<Rightarrow> string \<Rightarrow> string option \<Rightarrow> string list" where
  "whox_fields st req_id u ch letters token =
     map (whox_field st req_id u ch token) (filter (\<lambda>f. f \<in> set letters) ''tcuihsnfdlar'')"

definition who_candidates :: "server \<Rightarrow> string \<Rightarrow> bool \<Rightarrow> nat list" where
  "who_candidates st msk oper_only =
     (let masked = norm_nick msk
      in if valid_channel msk then members_list st masked
         else map cx_id (filter (\<lambda>u. (wildcard_match masked (cx_nick u) \<or> wildcard_match masked (cx_user u)
                \<or> wildcard_match masked (cx_host u)) \<and> (oper_only \<longrightarrow> cx_oper u)) (cx_list st)))"

definition who_rows :: "server \<Rightarrow> nat \<Rightarrow> string list \<Rightarrow> string \<Rightarrow> cx list \<Rightarrow> (string \<times> string list) list" where
  "who_rows st i params who_chan us =
     (case List.find (\<lambda>p. CHR ''%'' \<in> set p) params of
        Some spec \<Rightarrow>
          let after = (case split_once (CHR ''%'') spec of Some (_, r) \<Rightarrow> r | None \<Rightarrow> []);
              letters = (case split_once (CHR '','') after of Some (f, _) \<Rightarrow> f | None \<Rightarrow> after);
              token = (case split_once (CHR '','') after of Some (_, t) \<Rightarrow> Some t | None \<Rightarrow> None)
          in map (\<lambda>u. (''354'', whox_fields st i u who_chan letters token)) us
      | None \<Rightarrow> map (\<lambda>u. (''352'', [who_chan, cx_user u, cx_host u, sv_name st, cx_nick u,
                  who_marker_for st i u, '':0 '' @ cx_realname u])) us)"

definition handle_who :: "nat \<Rightarrow> command \<Rightarrow> server \<Rightarrow> server" where
  "handle_who i cmd st = (case first_opt (cmd_params cmd) of
     None \<Rightarrow> nosuch_nick i ''*'' st
   | Some msk \<Rightarrow> (case find_by_id st i of
       None \<Rightarrow> st
     | Some req \<Rightarrow>
         let oper_only = (case nth_opt (cmd_params cmd) 1 of Some v \<Rightarrow> eq_ignore_case v ''o'' | None \<Rightarrow> False);
             us = filter (visible req) (List.map_filter (find_by_id st) (who_candidates st msk oper_only));
             who_chan = (if valid_channel msk then msk else ''*'')
         in numerics i (who_rows st i (cmd_params cmd) who_chan us @ [(''315'', [msk, ''End of /WHO list''])]) st))"

subsection \<open>Informational replies\<close>

definition handle_ping :: "nat \<Rightarrow> command \<Rightarrow> server \<Rightarrow> server" where
  "handle_ping i cmd st = (case first_opt (cmd_params cmd) of
     None \<Rightarrow> numeric i ''409'' [''No origin specified''] st
   | Some token \<Rightarrow> deliver i (proto_line (sv_prefix st) ''PONG'' (sv_name st @ '' :'' @ token)) st)"

definition lusers_replies :: "server \<Rightarrow> (string \<times> string list) list" where
  "lusers_replies st =
     (let users = show_nat (user_count st)
      in [(''251'', [''There are '' @ users @ '' users and '' @ show_nat (invis_count st) @ '' invisible on 1 servers'']),
          (''254'', [show_nat (chan_count st), ''channels formed'']),
          (''255'', [''I have '' @ users @ '' clients and 0 servers'']),
          (''265'', [users, users, ''Current local users '' @ users @ '', max '' @ users]),
          (''266'', [users, users, ''Current global users '' @ users @ '', max '' @ users])])"

definition local_clock_now :: "u64 \<Rightarrow> string" where
  "local_clock_now secs =
     (let r = unat secs mod 86400
      in pad_zero 2 (int (r div 3600)) @ '':'' @ pad_zero 2 (int (r mod 3600 div 60)) @ '':''
           @ pad_zero 2 (int (r mod 60)))"

definition klines_rows :: "server \<Rightarrow> (string \<times> string list) list" where
  "klines_rows st = map (\<lambda>b. (''216'', [''K'', ban_mask b, ''- '' @ reason b @ '' (''
     @ (if expiry b = 0 then ''permanent'' else ''expires '' @ show_nat (unat (expiry b))) @ '')''])) (bans (sv_bans st))"

definition limits_rows :: "server \<Rightarrow> (string \<times> string list) list" where
  "limits_rows st =
     (let l = sv_limits st
      in map (\<lambda>r. (''215'', [''I'', ''- '' @ r]))
           [''max_clients '' @ show_nat (max_clients l), ''clones_per_ip '' @ show_nat (max_clones_per_ip l),
            ''connects_per_window '' @ show_nat (max_connects_per_window l),
            ''messages_per_window '' @ show_nat (max_messages_per_window l),
            ''flood_violations '' @ show_nat (max_violations l), ''exempt '' @ join_with '','' (exempt l)])"

definition sources_rows :: "server \<Rightarrow> (string \<times> string list) list" where
  "sources_rows st =
     (''211'', [''*'', ''- '' @ show_nat (active_total (sv_sources st)) @ '' connections from ''
        @ show_nat (tracked_sources (sv_sources st)) @ '' sources''])
     # map (\<lambda>(src, n). (''211'', [src, ''- '' @ show_nat n @ '' connections''])) (top_sources (sv_sources st) 15)"

definition stats_letter :: "nat \<Rightarrow> char \<Rightarrow> server \<Rightarrow> server" where
  "stats_letter i ch st =
     (let priv = (\<lambda>rows. if cx_opt cx_oper False st i then numerics i rows st else no_privileges i st)
      in if ch = CHR ''u'' then numeric i ''242'' [sv_name st, ''- Server uptime '' @ show_nat (uptime_secs st) @ ''s''] st
         else if ch = CHR ''b'' then numeric i ''213'' [sv_name st, ''- CLINE 0''] st
         else if ch = CHR ''o'' then numeric i ''243'' [sv_name st, ''*'', ''operator''] st
         else if ch = CHR ''K'' \<or> ch = CHR ''k'' then priv (klines_rows st)
         else if ch = CHR ''I'' \<or> ch = CHR ''i'' then priv (limits_rows st)
         else if ch = CHR ''L'' \<or> ch = CHR ''l'' then priv (sources_rows st)
         else st)"

definition handle_info_reply :: "nat \<Rightarrow> command \<Rightarrow> server \<Rightarrow> server" where
  "handle_info_reply i cmd st =
     (let n = cmd_name cmd
      in if n = ''MOTD'' then numerics i
           [(''375'', [''- Message of the day (server: '' @ sv_name st @ '')'']),
            (''372'', [''- Welcome to this deployment.'']), (''376'', [''End of /MOTD command''])] st
         else if n = ''LUSERS'' then numerics i (lusers_replies st) st
         else if n = ''STATS'' then numeric i ''219'' [''- End of /STATS report'']
           (fold (stats_letter i) (opt_default ''ubo'' (first_opt (cmd_params cmd))) st)
         else if n = ''VERSION'' then numeric i ''351'' [sv_name st, VERSION] st
         else if n = ''INFO'' then numerics i
           [(''371'', [''- '' @ VERSION @ '' deployment.'']), (''374'', [''- End of /INFO list''])] st
         else if n = ''TIME'' then numeric i ''391'' [''- '' @ local_clock_now (sv_unix st)] st
         else st)"

section \<open>Queries are output only\<close>

lemma core_queries [core_simps]:
  "core (handle_userhost i cmd st) = core st" "core (handle_ison i cmd st) = core st"
  "core (whois_remote i r st) = core st" "core (whois_local i u st) = core st"
  "core (handle_whowas i cmd st) = core st" "core (handle_ping i cmd st) = core st"
  by (simp_all add: handle_userhost_def handle_ison_def whois_remote_def whois_local_def
      handle_whowas_def handle_ping_def Let_def core_simps split: option.splits)

lemma core_whois [core_simps]: "core (handle_whois i cmd st) = core st"
  by (simp add: handle_whois_def core_simps split: option.splits)

lemma core_who [core_simps]: "core (handle_who i cmd st) = core st"
  by (simp add: handle_who_def Let_def core_simps split: option.splits)

lemma core_stats_letter [core_simps]: "core (stats_letter i ch st) = core st"
  by (simp add: stats_letter_def Let_def core_simps)

lemma core_info [core_simps]: "core (handle_info_reply i cmd st) = core st"
  by (simp add: handle_info_reply_def Let_def core_simps core_fold)

end
