(* ===== verification/Utf8.thy ===== *)
theory Utf8
  imports Prelude
begin

text \<open>
  \<^verbatim>\<open>String::from_utf8_lossy\<close>, which the reader applies to every line from a client and
  SASL to a password: a maximal ill-formed sequence becomes one \<^verbatim>\<open>U+FFFD\<close>. The result is
  always well-formed, and well-formed text is left alone.
\<close>

definition cont_byte :: "nat \<Rightarrow> bool" where
  "cont_byte b \<longleftrightarrow> 128 \<le> b \<and> b \<le> 191"

definition second_ok :: "nat \<Rightarrow> nat \<Rightarrow> bool" where
  "second_ok a b \<longleftrightarrow>
     (if a = 224 then 160 else if a = 240 then 144 else 128) \<le> b
     \<and> b \<le> (if a = 237 then 159 else if a = 244 then 143 else 191)"

text \<open>Whether the sequence at the front is well-formed, and the number of bytes it takes; past
  the end a byte reads as zero.\<close>

definition byte_at :: "nat list \<Rightarrow> nat \<Rightarrow> nat" where
  "byte_at r k = (if k < length r then r ! k else 0)"

definition lossy_step :: "nat \<Rightarrow> nat list \<Rightarrow> bool \<times> nat" where
  "lossy_step a r =
     (if a < 128 then (True, 1)
      else if 194 \<le> a \<and> a \<le> 223 then (if cont_byte (byte_at r 0) then (True, 2) else (False, 1))
      else if 224 \<le> a \<and> a \<le> 239 then
        (if \<not> second_ok a (byte_at r 0) then (False, 1)
         else if \<not> cont_byte (byte_at r 1) then (False, 2) else (True, 3))
      else if 240 \<le> a \<and> a \<le> 244 then
        (if \<not> second_ok a (byte_at r 0) then (False, 1)
         else if \<not> cont_byte (byte_at r 1) then (False, 2)
         else if \<not> cont_byte (byte_at r 2) then (False, 3) else (True, 4))
      else (False, 1))"

function lossy :: "nat list \<Rightarrow> nat list" where
  "lossy [] = []"
| "lossy (a # r) = (case lossy_step a r of (ok, n) \<Rightarrow>
     (if ok then take n (a # r) else [239, 191, 189]) @ lossy (drop (n - 1) r))"
  by pat_completeness auto
termination by (relation "measure length") auto

definition utf8_lossy :: "string \<Rightarrow> string" where
  "utf8_lossy s = map char_of (lossy (map byte_val s))"

lemma byte_at_cont: "cont_byte (byte_at r k) \<Longrightarrow> k < length r"
  by (auto simp: byte_at_def cont_byte_def split: if_splits)

lemma byte_at_second: "second_ok a (byte_at r k) \<Longrightarrow> k < length r"
  by (auto simp: byte_at_def second_ok_def split: if_splits)

lemma byte_at_Cons [simp]: "byte_at (b # r) 0 = b" "byte_at (b # r) (Suc k) = byte_at r k" "byte_at [] k = 0"
  by (simp_all add: byte_at_def)

lemma not_cont_zero [simp]: "\<not> cont_byte 0" "\<not> second_ok a 0"
  by (simp_all add: cont_byte_def second_ok_def)

lemmas utf8_byte_defs = cont_byte_def second_ok_def

lemma lossy_step_cases:
  assumes "lossy_step a r = (True, n)"
  obtains (ascii) "a < 128" "n = 1"
    | (two) b r' where "194 \<le> a" "a \<le> 223" "r = b # r'" "cont_byte b" "n = 2"
    | (three) b c r' where "224 \<le> a" "a \<le> 239" "r = b # c # r'" "second_ok a b" "cont_byte c" "n = 3"
    | (four) b c d r' where "240 \<le> a" "a \<le> 244" "r = b # c # d # r'" "second_ok a b" "cont_byte c" "cont_byte d" "n = 4"
proof -
  have l1: "\<exists>b r'. r = b # r'" if "0 < length r" using that by (cases r) auto
  have l2: "\<exists>b c r'. r = b # c # r'" if "1 < length r"
    using that by (cases r; cases "tl r") auto
  have l3: "\<exists>b c d r'. r = b # c # d # r'" if "2 < length r"
    using that by (cases r; cases "tl r"; cases "tl (tl r)") auto
  consider "a < 128" | "194 \<le> a \<and> a \<le> 223" | "224 \<le> a \<and> a \<le> 239" | "240 \<le> a \<and> a \<le> 244"
    using assms by (auto simp: lossy_step_def split: if_splits)
  then show thesis
  proof cases
    case 1
    with assms ascii show thesis by (simp add: lossy_step_def)
  next
    case 2
    with assms have "cont_byte (byte_at r 0)" "n = 2" by (auto simp: lossy_step_def split: if_splits)
    with l1 byte_at_cont 2 two show thesis by fastforce
  next
    case 3
    with assms have "second_ok a (byte_at r 0)" "cont_byte (byte_at r 1)" "n = 3"
      by (auto simp: lossy_step_def split: if_splits)
    with l2 [OF byte_at_cont] 3 three show thesis by fastforce
  next
    case 4
    with assms have "second_ok a (byte_at r 0)" "cont_byte (byte_at r 1)" "cont_byte (byte_at r 2)" "n = 4"
      by (auto simp: lossy_step_def split: if_splits)
    with l3 [OF byte_at_cont] 4 four show thesis by (fastforce simp: numeral_2_eq_2)
  qed
qed

lemma utf8_wf_front:
  assumes "lossy_step a r = (True, n)" "utf8_wf s"
  shows "utf8_wf (take n (a # r) @ s)"
  using assms(1)
proof (cases rule: lossy_step_cases)
qed (use assms(2) in \<open>auto simp: utf8_byte_defs split: if_splits\<close>)

lemma lossy_wf: "utf8_wf (lossy bs)"
proof (induction bs rule: lossy.induct)
  case (2 a r)
  obtain ok n where step: "lossy_step a r = (ok, n)" by (cases "lossy_step a r")
  with 2 have rest: "utf8_wf (lossy (drop (n - 1) r))" by auto
  show ?case
  proof (cases ok)
    case True
    with step rest utf8_wf_front show ?thesis by simp
  next
    case False
    with step rest show ?thesis by simp
  qed
qed simp

lemma utf8_wf_step:
  assumes "utf8_wf (a # r)"
  shows "\<exists>n. lossy_step a r = (True, n) \<and> utf8_wf (drop (n - 1) r)"
  using assms
  by (auto simp: lossy_step_def utf8_byte_defs numeral_2_eq_2 split: if_splits list.splits)

lemma lossy_id: "utf8_wf bs \<Longrightarrow> lossy bs = bs"
proof (induction bs rule: lossy.induct)
  case (2 a r)
  then obtain n where step: "lossy_step a r = (True, n)" and rest: "utf8_wf (drop (n - 1) r)"
    using utf8_wf_step by blast
  have n: "0 < n" using step by (cases rule: lossy_step_cases) auto
  with 2(1) [OF step [symmetric]] step rest show ?case by (cases n) auto
qed simp

lemma byte_val_lossy: "map byte_val (utf8_lossy s) = lossy (map byte_val s)"
proof -
  have "list_all (\<lambda>b. b < 256) bs \<Longrightarrow> list_all (\<lambda>b. b < 256) (lossy bs)" for bs
  proof (induction bs rule: lossy.induct)
    case (2 a r)
    obtain ok n where step: "lossy_step a r = (ok, n)" by (cases "lossy_step a r")
    have "list_all (\<lambda>b. b < 256) (drop (n - 1) r)" "list_all (\<lambda>b. b < 256) (take n (a # r))"
      using 2(2) set_take_subset [of n "a # r"] set_drop_subset [of "n - 1" r] by (auto simp: list_all_iff)
    with 2(1) [OF step [symmetric]] step show ?case by simp
  qed simp
  moreover have "list_all (\<lambda>b. b < 256) (map byte_val s)" by (simp add: list_all_iff byte_val_bound)
  ultimately have "list_all (\<lambda>b. b < 256) (lossy (map byte_val s))" by blast
  then show ?thesis
    by (simp add: utf8_lossy_def list_all_iff map_idI)
qed

lemma is_utf8_lossy: "is_utf8 (utf8_lossy s)"
  by (simp add: is_utf8_def byte_val_lossy lossy_wf)

lemma utf8_lossy_id: "is_utf8 s \<Longrightarrow> utf8_lossy s = s"
  by (simp add: is_utf8_def utf8_lossy_def lossy_id map_idI)

lemma utf8_wf_ascii: "list_all (\<lambda>b. b < 128) bs \<Longrightarrow> utf8_wf bs"
  by (induction bs) auto

end
