(* ===== verification/Sasl.thy ===== *)
theory Sasl
  imports Messages Utf8
begin

text \<open>
  Capability negotiation and SASL (\<^verbatim>\<open>src/cmds.rs\<close>, \<^verbatim>\<open>handle_cap\<close> and
  \<^verbatim>\<open>handle_authenticate\<close>): what \<^verbatim>\<open>CAP\<close> advertises and enables, and the two mechanisms
  PLAIN (a password) and EXTERNAL (the certificate of the connection).
\<close>

section \<open>Definitions\<close>

definition SUPPORTED_CAPS :: "string list" where
  "SUPPORTED_CAPS = [''sasl'', ''message-tags'', ''server-time'', ''account-tag'', ''away-notify'',
     ''extended-join'', ''account-notify'', ''multi-prefix'', ''userhost-in-names'', ''chghost'',
     ''cap-notify'', ''batch'', ''labeled-response'']"

definition has_cert :: "server \<Rightarrow> nat \<Rightarrow> bool" where
  "has_cert st i = (case cx_opt cx_cert_fp None st i of Some fp \<Rightarrow> fp \<noteq> [] | None \<Rightarrow> False)"

definition sasl_mechanism_list :: "server \<Rightarrow> nat \<Rightarrow> string" where
  "sasl_mechanism_list st i = (if has_cert st i then ''EXTERNAL,PLAIN'' else ''PLAIN'')"

definition cap_token :: "bool \<Rightarrow> string \<Rightarrow> string \<Rightarrow> string" where
  "cap_token with_values mechs c = (if with_values \<and> c = ''sasl'' then ''sasl='' @ mechs else c)"

definition set_cap :: "string \<Rightarrow> bool \<Rightarrow> caps \<Rightarrow> caps" where
  "set_cap name on c =
     (if name = ''server-time'' then c\<lparr>server_time := on\<rparr>
      else if name = ''away-notify'' then c\<lparr>away_notify := on\<rparr>
      else if name = ''extended-join'' then c\<lparr>extended_join := on\<rparr>
      else if name = ''account-notify'' then c\<lparr>account_notify := on\<rparr>
      else if name = ''multi-prefix'' then c\<lparr>multi_prefix := on\<rparr>
      else if name = ''userhost-in-names'' then c\<lparr>userhost_in_names := on\<rparr>
      else if name = ''chghost'' then c\<lparr>chghost := on\<rparr>
      else if name = ''cap-notify'' then c\<lparr>cap_notify := on\<rparr>
      else if name = ''sasl'' then c\<lparr>sasl := on\<rparr>
      else if name = ''message-tags'' then c\<lparr>message_tags := on\<rparr>
      else if name = ''account-tag'' then c\<lparr>account_tag := on\<rparr>
      else if name = ''batch'' then c\<lparr>batch := on\<rparr>
      else if name = ''labeled-response'' then c\<lparr>labeled_response := on\<rparr>
      else c)"

definition cap_line :: "nat \<Rightarrow> string \<Rightarrow> server \<Rightarrow> server" where
  "cap_line i t st = deliver i (proto_line (sv_prefix st) ''CAP'' t) st"

definition negotiating :: "nat \<Rightarrow> bool \<Rightarrow> server \<Rightarrow> server" where
  "negotiating i b st = upd_by_id i (\<lambda>u. u\<lparr>cx_cap_negotiating := b\<rparr>) st"

definition cap_name :: "string \<Rightarrow> string" where
  "cap_name t = dropWhile (\<lambda>c. c = CHR ''-'') t"

definition cap_req_ok :: "string list \<Rightarrow> bool" where
  "cap_req_ok tokens \<longleftrightarrow> tokens \<noteq> [] \<and> list_all (\<lambda>t. cap_name t \<in> set SUPPORTED_CAPS) tokens"

definition enable_cap :: "string \<Rightarrow> cx \<Rightarrow> cx" where
  "enable_cap t u = u\<lparr>cx_caps := set_cap (cap_name t) (\<not> starts_with ''-'' t) (cx_caps u)\<rparr>"

definition cap_ls :: "nat \<Rightarrow> command \<Rightarrow> server \<Rightarrow> server" where
  "cap_ls i cmd st =
     (let with_values = (nth_opt (cmd_params cmd) 1 = Some ''302''); mechs = sasl_mechanism_list st i
      in cap_line i (''* LS :'' @ join_with '' '' (map (cap_token with_values mechs) SUPPORTED_CAPS))
           (negotiating i True st))"

definition cap_req :: "nat \<Rightarrow> command \<Rightarrow> server \<Rightarrow> server" where
  "cap_req i cmd st =
     (let req = (case nth_opt (cmd_params cmd) 1 of
                   Some s \<Rightarrow> trim (dropWhile (\<lambda>c. c = CHR '':'') s) | None \<Rightarrow> []);
          tokens = split_whitespace req;
          st1 = negotiating i True st
      in if cap_req_ok tokens
         then cap_line i (''* ACK :'' @ req) (fold (\<lambda>t. upd_by_id i (enable_cap t)) tokens st1)
         else cap_line i (''* NAK :'' @ req) st1)"

definition handle_cap :: "nat \<Rightarrow> command \<Rightarrow> server \<Rightarrow> server" where
  "handle_cap i cmd st =
     (let sub = uppercase (str_default (first_opt (cmd_params cmd)))
      in if sub = ''LS'' then cap_ls i cmd st
         else if sub = ''LIST'' then cap_line i (''* LIST :'' @ cx_opt (\<lambda>u. enabled_list (cx_caps u)) [] st i) st
         else if sub = ''REQ'' then cap_req i cmd st
         else if sub = ''END'' then flush_cap_gated_welcome i (negotiating i False st)
         else st)"

subsection \<open>SASL\<close>

text \<open>The name and the password in the argument of PLAIN.\<close>

definition plain_message :: "string \<Rightarrow> (string \<times> string) option" where
  "plain_message arg =
     (if 400 < length arg then None
      else case base64_decode arg of
        None \<Rightarrow> None
      | Some decoded \<Rightarrow> (case split_on 0 decoded of
          [_, a, p] \<Rightarrow> Some (utf8_lossy (of_bytes a), utf8_lossy (of_bytes p))
        | _ \<Rightarrow> None))"

definition authenticate_plain :: "server \<Rightarrow> string \<Rightarrow> string option" where
  "authenticate_plain st arg = (case plain_message arg of
     None \<Rightarrow> None
   | Some (authcid, passwd) \<Rightarrow>
       (if acct_verify (sv_accounts st) authcid passwd
        then Some (opt_default authcid (acct_display_name (sv_accounts st) authcid)) else None))"

text \<open>The authorization identity EXTERNAL names: none, a name, or an argument that is refused.\<close>

definition external_authzid :: "string \<Rightarrow> string option" where
  "external_authzid arg =
     (if arg = ''+'' \<or> arg = [] then Some []
      else if 400 < length arg then None
      else case base64_decode arg of
        None \<Rightarrow> None
      | Some decoded \<Rightarrow>
          (if 128 < length decoded \<or> 0 \<in> set decoded then None
           else if is_utf8 (of_bytes decoded) then Some (of_bytes decoded) else None))"

definition authenticate_external :: "server \<Rightarrow> nat \<Rightarrow> string \<Rightarrow> string option" where
  "authenticate_external st i arg = (case cx_opt cx_cert_fp None st i of
     None \<Rightarrow> None
   | Some fp \<Rightarrow> (case account_for_cert (sv_accounts st) fp of
       None \<Rightarrow> None
     | Some bound \<Rightarrow> (case external_authzid arg of
         None \<Rightarrow> None
       | Some authzid \<Rightarrow>
           (if authzid \<noteq> [] \<and> norm_nick authzid \<noteq> norm_nick bound then None else Some bound))))"

definition star_if_empty :: "string \<Rightarrow> string" where
  "star_if_empty s = (if s = [] then ''*'' else s)"

definition finish_sasl_login :: "nat \<Rightarrow> string \<Rightarrow> server \<Rightarrow> server" where
  "finish_sasl_login i disp st =
     (let st1 = upd_by_id i (\<lambda>u. u\<lparr>cx_account := Some disp, cx_sasl_mech := None\<rparr>) st;
          st2 = apply_host_change i (account_host (sv_env st1) disp) st1;
          ident = cx_opt (\<lambda>u. star_if_empty (cx_nick u) @ ''!'' @ star_if_empty (cx_user u) @ ''@'' @ cx_host u)
                    ''*!*@*'' st2 i;
          st3 = numeric i ''900'' [ident, disp, '':You are now logged in as '' @ disp] st2
      in numeric i ''903'' [''SASL authentication successful''] st3)"

definition set_mech :: "nat \<Rightarrow> string option \<Rightarrow> server \<Rightarrow> server" where
  "set_mech i m st = upd_by_id i (\<lambda>u. u\<lparr>cx_sasl_mech := m\<rparr>) st"

definition sasl_failed :: "nat \<Rightarrow> server \<Rightarrow> server" where
  "sasl_failed i st = numeric i ''904'' [''SASL authentication failed''] st"

definition sasl_aborted :: "nat \<Rightarrow> server \<Rightarrow> server" where
  "sasl_aborted i st = numeric i ''906'' [''SASL authentication aborted''] st"

definition select_mechanism :: "nat \<Rightarrow> string \<Rightarrow> server \<Rightarrow> server" where
  "select_mechanism i arg st =
     (let chosen = (if eq_ignore_case arg ''PLAIN'' then Some ''PLAIN''
                    else if eq_ignore_case arg ''EXTERNAL'' \<and> has_cert st i then Some ''EXTERNAL'' else None)
      in case chosen of
           Some mech \<Rightarrow> deliver i (proto_line [] ''AUTHENTICATE'' ''+'') (set_mech i (Some mech) st)
         | None \<Rightarrow> sasl_failed i
             (numeric i ''908'' [sasl_mechanism_list st i, ''are the available SASL mechanisms''] st))"

definition check_credentials :: "server \<Rightarrow> nat \<Rightarrow> string \<Rightarrow> string \<Rightarrow> string option" where
  "check_credentials st i mech arg =
     (if mech = ''EXTERNAL'' then authenticate_external st i arg else authenticate_plain st arg)"

definition handle_authenticate :: "nat \<Rightarrow> command \<Rightarrow> server \<Rightarrow> server" where
  "handle_authenticate i cmd st =
     (let closed = cx_opt (\<lambda>u. cx_registered u \<and> \<not> cx_cap_negotiating u) False st i;
          already = cx_opt (\<lambda>u. cx_account u \<noteq> None) False st i;
          arg = str_default (first_opt (cmd_params cmd))
      in if closed \<or> already then numeric i ''907'' [''You have already authenticated using SASL''] st
         else if \<not> cx_opt (\<lambda>u. sasl (cx_caps u)) False st i then sasl_aborted i st
         else if arg = ''*'' then sasl_aborted i (set_mech i None st)
         else case cx_opt cx_sasl_mech None st i of
           None \<Rightarrow> select_mechanism i arg st
         | Some mech \<Rightarrow> (case check_credentials st i mech arg of
             Some disp \<Rightarrow> finish_sasl_login i disp st
           | None \<Rightarrow> sasl_failed i (set_mech i None st)))"

section \<open>The invariant is kept\<close>

lemma core_sasl_replies [core_simps]:
  "core (cap_line i t st) = core st" "core (sasl_failed i st) = core st" "core (sasl_aborted i st) = core st"
  by (simp_all add: cap_line_def sasl_failed_def sasl_aborted_def core_simps)

lemma state_inv_sasl_replies [simp]:
  "state_inv (cap_line i t st) = state_inv st" "state_inv (sasl_failed i st) = state_inv st"
  "state_inv (sasl_aborted i st) = state_inv st"
  by (rule state_inv_same_core, simp add: core_simps)+

lemma keeps_identity_sasl [simp]:
  "keeps_identity (\<lambda>u. u\<lparr>cx_cap_negotiating := b\<rparr>)" "keeps_identity (enable_cap t)"
  "keeps_identity (\<lambda>u. u\<lparr>cx_account := a, cx_sasl_mech := m\<rparr>)" "keeps_identity (\<lambda>u. u\<lparr>cx_sasl_mech := m\<rparr>)"
  by (simp_all add: keeps_identity_def enable_cap_def)

lemma state_inv_sasl_upd [intro]:
  "state_inv st \<Longrightarrow> state_inv (negotiating i b st)" "state_inv st \<Longrightarrow> state_inv (set_mech i m st)"
  by (simp_all add: negotiating_def set_mech_def state_inv_upd_by_id)

lemma state_inv_handle_cap [inv_intros]:
  assumes "state_inv st"
  shows "state_inv (handle_cap i cmd st)"
proof -
  have "state_inv (fold (\<lambda>t. upd_by_id i (enable_cap t)) ts (negotiating i True st))" for ts
    using assms by (intro state_inv_fold) (auto intro: state_inv_upd_by_id)
  with assms show ?thesis
    by (auto simp: handle_cap_def cap_ls_def cap_req_def Let_def intro!: state_inv_flush)
qed

lemma state_inv_handle_authenticate [inv_intros]:
  assumes "state_inv st"
  shows "state_inv (handle_authenticate i cmd st)"
  using assms
  by (auto simp: handle_authenticate_def finish_sasl_login_def select_mechanism_def Let_def
      state_inv_upd_by_id intro!: state_inv_host_change split: option.splits)

section \<open>Who is logged in\<close>

lemma cx_opt_numeric: "(\<And>u. f (erase u) = f u) \<Longrightarrow> cx_opt f d (numeric i c as st) k = cx_opt f d st k"
  by (rule cx_opt_core) (rule core_numeric)

lemma cx_opt_upd:
  assumes "state_inv st" "\<And>u. cx_id (g u) = cx_id u"
  shows "cx_opt f d (upd_by_id i g st) k = cx_opt (\<lambda>u. f (if k = i then g u else u)) d st k"
  using find_by_id_upd [where f = g, OF assms] by (simp add: cx_opt_def split: option.splits)

lemma account_output [simp]:
  "cx_opt cx_account None (numeric i c as st) k = cx_opt cx_account None st k"
  "cx_opt cx_account None (deliver i l st) k = cx_opt cx_account None st k"
  "cx_opt cx_account None (sasl_failed i st) k = cx_opt cx_account None st k"
  "cx_opt cx_account None (sasl_aborted i st) k = cx_opt cx_account None st k"
  by (rule cx_opt_core, simp add: core_simps, simp)+

lemma account_fold_deliver [simp]:
  "cx_opt cx_account None (fold (\<lambda>r. deliver r l) rs st) k = cx_opt cx_account None st k"
  by (induction rs arbitrary: st) simp_all

lemma account_upd:
  assumes "state_inv st" "keeps_identity g" "\<And>u. cx_account (g u) = cx_account u"
  shows "cx_opt cx_account None (upd_by_id i g st) k = cx_opt cx_account None st k"
proof -
  have "\<And>u. cx_id (g u) = cx_id u" using assms(2) by (simp add: keeps_identity_def)
  from find_by_id_upd [where f = g, OF assms(1) this] assms(3) show ?thesis
    by (cases "find_by_id st k") (auto simp: cx_opt_def)
qed

lemma account_host_change:
  assumes "state_inv st"
  shows "cx_opt cx_account None (apply_host_change i h st) k = cx_opt cx_account None st k"
  using account_upd [OF assms, of "\<lambda>u. u\<lparr>cx_host := h\<rparr>" i k]
  by (simp add: apply_host_change_def Let_def split: option.split)

lemma account_set_mech:
  assumes "state_inv st"
  shows "cx_opt cx_account None (set_mech i m st) k = cx_opt cx_account None st k"
  unfolding set_mech_def by (rule account_upd [OF assms]) simp_all

lemma account_finish_sasl:
  assumes inv: "state_inv st"
  shows "cx_opt cx_account None (finish_sasl_login i disp st) k =
    (if k = i \<and> find_by_id st i \<noteq> None then Some disp else cx_opt cx_account None st k)"
proof -
  let ?g = "\<lambda>u. u\<lparr>cx_account := Some disp, cx_sasl_mech := None\<rparr>"
  have "state_inv (upd_by_id i ?g st)" using inv by (simp add: state_inv_upd_by_id)
  moreover have "cx_opt cx_account None (upd_by_id i ?g st) k =
      (if k = i \<and> find_by_id st i \<noteq> None then Some disp else cx_opt cx_account None st k)"
    using cx_opt_upd [OF inv, of ?g cx_account None i k] by (auto simp: cx_opt_def split: option.splits)
  ultimately show ?thesis by (simp add: finish_sasl_login_def Let_def account_host_change)
qed

text \<open>The account of a connection changes only when its own credentials are good.\<close>

lemma authenticate_account:
  assumes inv: "state_inv st"
    and changed: "cx_opt cx_account None (handle_authenticate i cmd st) k \<noteq> cx_opt cx_account None st k"
  shows "k = i \<and> (\<exists>mech disp. cx_opt cx_sasl_mech None st i = Some mech
     \<and> check_credentials st i mech (str_default (first_opt (cmd_params cmd))) = Some disp
     \<and> cx_opt cx_account None (handle_authenticate i cmd st) i = Some disp)"
proof -
  let ?arg = "str_default (first_opt (cmd_params cmd))"
  have "cx_opt cx_account None (select_mechanism i ?arg st) k = cx_opt cx_account None st k"
    by (simp add: select_mechanism_def Let_def account_set_mech [OF inv] split: option.split)
  with changed obtain mech disp where m: "cx_opt cx_sasl_mech None st i = Some mech"
    and c: "check_credentials st i mech ?arg = Some disp"
    and h: "handle_authenticate i cmd st = finish_sasl_login i disp st"
    by (auto simp: handle_authenticate_def Let_def account_set_mech [OF inv] split: if_splits option.splits)
  with changed show ?thesis
    by (auto simp: account_finish_sasl [OF inv] split: if_splits)
qed

text \<open>What a login with SASL rests on: the certificate of the connection, or the name and password in the
  message.\<close>

definition sasl_login :: "server \<Rightarrow> nat \<Rightarrow> string \<Rightarrow> string \<Rightarrow> bool" where
  "sasl_login st i arg a \<longleftrightarrow>
     (case cx_opt cx_cert_fp None st i of Some fp \<Rightarrow> account_for_cert (sv_accounts st) fp = Some a | None \<Rightarrow> False)
     \<or> (case plain_message arg of
          Some (name, pass) \<Rightarrow> acct_verify (sv_accounts st) name pass \<and> acct_display_name (sv_accounts st) name = Some a
        | None \<Rightarrow> False)"

lemma acct_verify_known: "acct_verify s n p \<Longrightarrow> \<exists>a. acct_display_name s n = Some a"
  by (auto simp: acct_verify_def acct_display_name_def split: option.splits)

lemma check_credentials_sound:
  assumes "check_credentials st i mech arg = Some disp"
  shows "sasl_login st i arg disp"
  using assms acct_verify_known [of "sv_accounts st"]
  by (fastforce simp: check_credentials_def sasl_login_def authenticate_external_def authenticate_plain_def
      split: option.splits if_splits prod.splits)

end
