(* ===== verification/Dispatch.thy ===== *)
theory Dispatch
  imports Queries Sasl
begin

text \<open>
  The dispatcher of \<^verbatim>\<open>src/cmds.rs\<close>: one command of a connection against the server
  state. The result says whether the session closes.
\<close>

definition continue :: "server \<Rightarrow> bool \<times> server" where
  "continue st = (False, st)"

definition dispatch :: "nat \<Rightarrow> command \<Rightarrow> server \<Rightarrow> bool \<times> server" where
  "dispatch i cmd st =
     (let n = cmd_name cmd
      in if n = ''NICK'' then continue (handle_nick i cmd st)
         else if n = ''USER'' then continue (handle_user i cmd st)
         else if n = ''JOIN'' then continue (handle_join i cmd st)
         else if n = ''PART'' then continue (handle_part i cmd st)
         else if n = ''TOPIC'' then continue (handle_topic i cmd st)
         else if n = ''MODE'' then continue (handle_mode i cmd st)
         else if n = ''INVITE'' then continue (handle_invite i cmd st)
         else if n = ''NAMES'' then continue (handle_names i cmd st)
         else if n = ''LIST'' then continue (handle_list i cmd st)
         else if n = ''KICK'' then continue (handle_kick i cmd st)
         else if n = ''AWAY'' then continue (handle_away i cmd st)
         else if n = ''USERHOST'' then continue (handle_userhost i cmd st)
         else if n = ''ISON'' then continue (handle_ison i cmd st)
         else if n = ''PRIVMSG'' then continue (handle_privmsg i cmd True st)
         else if n = ''NOTICE'' then continue (handle_privmsg i cmd False st)
         else if n = ''WHOIS'' then continue (handle_whois i cmd st)
         else if n = ''WHOWAS'' then continue (handle_whowas i cmd st)
         else if n = ''WHO'' then continue (handle_who i cmd st)
         else if n = ''QUIT'' then (True, handle_quit i cmd st)
         else if n = ''ERROR'' then (True, st)
         else if n = ''CAP'' then continue (handle_cap i cmd st)
         else if n = ''AUTHENTICATE'' then continue (handle_authenticate i cmd st)
         else if n = ''PING'' then continue (handle_ping i cmd st)
         else if n = ''PONG'' then continue st
         else if n = ''OPER'' then continue (handle_oper i cmd st)
         else if n = ''KILL'' then continue (handle_kill i cmd st)
         else if n = ''KLINE'' then continue (handle_kline i cmd st)
         else if n = ''UNKLINE'' then continue (handle_unkline i cmd st)
         else if n = ''ADMIN'' then continue (handle_admin i st)
         else if n = ''PASS'' then continue (handle_pass i cmd st)
         else if n \<in> {''LINKS'', ''LINK''} then continue (handle_links i cmd st)
         else if n = ''TRACE'' then continue (handle_trace i cmd st)
         else if n \<in> {''REHASH'', ''RESTART''} then continue (handle_rehash_restart i st)
         else if n \<in> {''CONNECT'', ''SQUIT''} then continue (handle_connect_squit i st)
         else if n \<in> {''MOTD'', ''LUSERS'', ''STATS'', ''VERSION'', ''INFO'', ''TIME''}
           then continue (handle_info_reply i cmd st)
         else if n = ''WALLOPS'' then continue (handle_wallops i cmd st)
         else if n = ''SUMMON'' then continue (numeric i ''445'' [''SUMMON has been disabled''] st)
         else if n = ''USERS'' then continue (numeric i ''446'' [''USERS has been disabled''] st)
         else continue (unknown_command i cmd st))"

text \<open>The commands accepted before registration.\<close>

definition open_command :: "string \<Rightarrow> bool" where
  "open_command n \<longleftrightarrow> n \<in> {''NICK'', ''USER'', ''PASS'', ''CAP'', ''AUTHENTICATE'', ''PING'', ''PONG''}"

lemma snd_continue [simp]: "snd (continue st) = st" "fst (continue st) = False"
  by (simp_all add: continue_def)

lemma state_inv_queries [simp]:
  "state_inv (handle_userhost i cmd st) = state_inv st" "state_inv (handle_ison i cmd st) = state_inv st"
  "state_inv (handle_whois i cmd st) = state_inv st" "state_inv (handle_whowas i cmd st) = state_inv st"
  "state_inv (handle_who i cmd st) = state_inv st" "state_inv (handle_ping i cmd st) = state_inv st"
  "state_inv (handle_info_reply i cmd st) = state_inv st" "state_inv (handle_names i cmd st) = state_inv st"
  "state_inv (handle_list i cmd st) = state_inv st"
  by (rule state_inv_same_core, simp add: core_simps)+

lemma live_inv: "live i st \<Longrightarrow> state_inv st"
  by (simp add: live_def)

lemma live_iff: "state_inv st \<Longrightarrow> live i st \<longleftrightarrow> cx_opt cx_registered False st i"
  using reg_in_iff by (simp add: live_def)

lemma if_inv:
  "P (snd a) \<Longrightarrow> P (snd b) \<Longrightarrow> P (snd (if c then a else b))"
  by simp

lemma state_inv_dispatch_live:
  assumes "live i st"
  shows "state_inv (snd (dispatch i cmd st))"
proof -
  note inv = live_inv [OF assms]
  show ?thesis
    unfolding dispatch_def Let_def
    by (intro if_inv [where P = state_inv])
      (simp_all only: snd_continue snd_conv state_inv_queries state_inv_oper_replies state_inv_output inv
        inv_intros [OF inv] live_inv [OF live_handle_join [OF assms]]
        live_inv [OF live_handle_part [OF assms]] live_inv [OF live_handle_topic [OF assms]]
        live_inv [OF live_handle_mode [OF assms]] live_inv [OF live_handle_invite [OF assms]]
        live_inv [OF live_handle_kick [OF assms]] live_inv [OF live_handle_away [OF assms]])
qed

lemma state_inv_dispatch_open:
  assumes inv: "state_inv st" and "open_command (cmd_name cmd)"
  shows "state_inv (snd (dispatch i cmd st))"
  using assms(2) unfolding open_command_def
  by (elim insertE emptyE) (simp_all add: dispatch_def inv inv_intros [OF inv])

lemma state_inv_dispatch:
  assumes "state_inv st" and "open_command (cmd_name cmd) \<or> cx_opt cx_registered False st i"
  shows "state_inv (snd (dispatch i cmd st))"
  using assms state_inv_dispatch_open state_inv_dispatch_live live_iff by blast

end
