(* ===== verification/Framing.thy ===== *)
theory Framing
  imports Proto Utf8 Limits
begin

text \<open>
  The byte stream of a client (\<^verbatim>\<open>src/ops.rs\<close>, \<^verbatim>\<open>run_reader\<close>): lines are cut at CR,
  LF or CR-LF and dropped when longer than 512 bytes, and every line is charged to the burst
  window of the connection. The commands read from a stream are those of its CR- and
  LF-separated segments, and so do not depend on how the stream arrives in reads.
\<close>

section \<open>Lines\<close>

definition is_terminator :: "char \<Rightarrow> bool" where
  "is_terminator b \<longleftrightarrow> b = CHR 0x0A \<or> b = CHR 0x0D"

fun find_terminator :: "string \<Rightarrow> nat option" where
  "find_terminator [] = None"
| "find_terminator (b # buf) = (if is_terminator b then Some 0 else map_option Suc (find_terminator buf))"

definition term_end :: "string \<Rightarrow> nat \<Rightarrow> nat" where
  "term_end buf pos =
     (if buf ! pos = CHR 0x0D \<and> pos + 1 < length buf \<and> buf ! (pos + 1) = CHR 0x0A
      then pos + 2 else pos + 1)"

text \<open>One round of the framing loop: no terminator, a line that is dropped, or a line, and the
  bytes left in the buffer.\<close>

datatype framed = Overlong | Content string

definition next_line :: "string \<Rightarrow> (framed \<times> string) option" where
  "next_line buf = (case find_terminator buf of
     None \<Rightarrow> None
   | Some pos \<Rightarrow>
       Some (if MAX_LINE_WITH_CRLF < term_end buf pos then Overlong else Content (take pos buf),
             drop (term_end buf pos) buf))"

lemma find_terminator_split:
  "find_terminator buf = Some pos \<Longrightarrow> \<exists>c r. buf = take pos buf @ c # r \<and> length (take pos buf) = pos
     \<and> is_terminator c \<and> list_all (\<lambda>b. \<not> is_terminator b) (take pos buf)"
proof (induction buf arbitrary: pos)
  case (Cons b buf)
  then show ?case
    by (cases "is_terminator b") (fastforce split: if_splits)+
qed simp

lemma find_terminator_None: "find_terminator buf = None \<longleftrightarrow> list_all (\<lambda>b. \<not> is_terminator b) buf"
  by (induction buf) auto

lemma next_line_shorter: "next_line buf = Some (l, rest) \<Longrightarrow> length rest < length buf"
  by (cases buf) (auto simp: next_line_def term_end_def split: option.splits if_splits)

function frame_lines :: "string \<Rightarrow> string list \<times> string" where
  "frame_lines buf = (case next_line buf of
     None \<Rightarrow> ([], buf)
   | Some (Overlong, rest) \<Rightarrow> frame_lines rest
   | Some (Content l, rest) \<Rightarrow> (case frame_lines rest of (ls, r) \<Rightarrow> (l # ls, r)))"
  by pat_completeness auto
termination by (relation "measure length") (auto simp: next_line_shorter)

declare frame_lines.simps [simp del]

text \<open>What the reader makes of a line, and the commands of a stream.\<close>

definition parse_segment :: "string \<Rightarrow> command option" where
  "parse_segment seg = (if seg = [] then None else proto_parse (utf8_lossy seg))"

definition commands_of :: "string \<Rightarrow> command list" where
  "commands_of buf = List.map_filter parse_segment (fst (frame_lines buf))"

section \<open>The burst window\<close>

abbreviation FLOOD_BURST :: nat where "FLOOD_BURST \<equiv> 6"
definition from_millis :: "nat \<Rightarrow> nat" where "from_millis n = n * 1000000"
definition FAKELAG_STEP :: nat where "FAKELAG_STEP = from_millis 300"
definition FAKELAG_MAX :: nat where "FAKELAG_MAX = from_millis 2000"

definition flood_window :: "environ \<Rightarrow> nat" where
  "flood_window env = from_millis (max (env_usize env ''CHONKLINE_FLOOD_WINDOW_MS'' 2000) 1)"

definition charge_burst :: "environ \<Rightarrow> instant \<Rightarrow> instant list \<Rightarrow> bool \<times> instant list" where
  "charge_burst env now flood =
     (let fl = dropWhile (\<lambda>t. flood_window env < now - t) (flood @ [now])
      in (FLOOD_BURST < length fl, fl))"

definition add_lag :: "nat \<Rightarrow> nat" where
  "add_lag throttle = min (throttle + FAKELAG_STEP) FAKELAG_MAX"

section \<open>The reference: segments between terminators\<close>

fun segments :: "string \<Rightarrow> string list" where
  "segments [] = [[]]"
| "segments (c # s) = (if is_terminator c then [] # segments s
     else (c # hd (segments s)) # tl (segments s))"

lemma segments_nonempty [simp]: "segments s \<noteq> []"
  by (induction s) auto

lemma segments_plain: "list_all (\<lambda>b. \<not> is_terminator b) s \<Longrightarrow> segments s = [s]"
  by (induction s) auto

lemma segments_cut:
  "list_all (\<lambda>b. \<not> is_terminator b) p \<Longrightarrow> is_terminator c \<Longrightarrow> segments (p @ c # r) = p # segments r"
  by (induction p) auto

lemma segments_append: "segments (a @ b) = butlast (segments a) @ segments (last (segments a) @ b)"
proof (induction a)
  case (Cons c a)
  show ?case
  proof (cases "is_terminator c")
    case False
    obtain s ss where s: "segments a = s # ss" by (cases "segments a") auto
    with Cons False show ?thesis by (cases ss) auto
  qed (use Cons in auto)
qed simp

text \<open>A dropped line is one no command could be parsed from.\<close>

lemma lossy_step_bound:
  assumes "lossy_step a r = (ok, n)"
  shows "0 < n \<and> (\<not> ok \<longrightarrow> n \<le> 3) \<and> n - 1 \<le> length r"
proof -
  have "0 < length r" if "cont_byte (byte_at r 0) \<or> second_ok a (byte_at r 0)"
    using that byte_at_cont byte_at_second by blast
  moreover have "1 < length r" if "cont_byte (byte_at r 1)" using that byte_at_cont by blast
  moreover have "2 < length r" if "cont_byte (byte_at r 2)" using that byte_at_cont by blast
  ultimately show ?thesis using assms by (auto simp: lossy_step_def Suc_le_eq split: if_splits)
qed

lemma lossy_length: "length b \<le> length (lossy b)"
proof (induction b rule: lossy.induct)
  case (2 a r)
  obtain ok n where step: "lossy_step a r = (ok, n)" by (cases "lossy_step a r")
  with 2 have "length (drop (n - 1) r) \<le> length (lossy (drop (n - 1) r))" by auto
  with lossy_step_bound [OF step] step show ?case by auto
qed simp

lemma utf8_lossy_length: "length s \<le> length (utf8_lossy s)"
  using lossy_length [of "map byte_val s"] by (simp add: utf8_lossy_def)

lemma parse_segment_long: "MAX_CONTENT_BYTES < length s \<Longrightarrow> parse_segment s = None"
  using utf8_lossy_length [of s] by (simp add: parse_segment_def proto_parse_def)

lemma next_line_segments:
  assumes "next_line buf = Some (l, rest)"
  shows "\<exists>p. list_all (\<lambda>b. \<not> is_terminator b) p
     \<and> (segments buf = p # segments rest \<or> segments buf = p # [] # segments rest)
     \<and> (case l of Content s \<Rightarrow> s = p \<and> length p < MAX_LINE_WITH_CRLF | Overlong \<Rightarrow> MAX_CONTENT_BYTES < length p)"
proof -
  from assms obtain pos where pos: "find_terminator buf = Some pos"
    and rest: "rest = drop (term_end buf pos) buf"
    and l: "l = (if MAX_LINE_WITH_CRLF < term_end buf pos then Overlong else Content (take pos buf))"
    by (auto simp: next_line_def split: option.splits)
  from find_terminator_split [OF pos] obtain p c r where buf: "buf = p @ c # r" "take pos buf = p"
    "length p = pos" "is_terminator c" "list_all (\<lambda>b. \<not> is_terminator b) p" by metis
  have seg: "segments buf = p # segments r" unfolding buf(1) using buf(5,4) by (rule segments_cut)
  show ?thesis
  proof (cases "c = CHR 0x0D \<and> r \<noteq> [] \<and> hd r = CHR 0x0A")
    case True
    then obtain r' where r: "r = CHR 0x0A # r'" by (cases r) auto
    have e: "term_end buf pos = pos + 2"
      using True r unfolding term_end_def buf(1) buf(3) [symmetric] by (simp add: nth_append)
    moreover have "rest = r'" unfolding rest e using buf(3) unfolding buf(1) r by simp
    moreover have "segments r = [] # segments r'" using r by (simp add: is_terminator_def)
    ultimately show ?thesis using buf(2,3,5) l seg assms by auto
  next
    case False
    then have e: "term_end buf pos = pos + 1"
      unfolding term_end_def buf(1) buf(3) [symmetric] by (cases r) (auto simp: nth_append)
    moreover have "rest = r" unfolding rest e using buf(3) unfolding buf(1) by simp
    ultimately show ?thesis using buf(2,3,5) l seg assms by auto
  qed
qed

lemma map_filter_Cons: "List.map_filter f (x # xs) = (case f x of None \<Rightarrow> [] | Some y \<Rightarrow> [y]) @ List.map_filter f xs"
  by (simp add: List.map_filter_def split: option.split)

lemma frame_lines_segments:
  "List.map_filter parse_segment (fst (frame_lines buf)) = List.map_filter parse_segment (butlast (segments buf))
   \<and> snd (frame_lines buf) = last (segments buf)"
proof (induction buf rule: frame_lines.induct)
  case (1 buf)
  show ?case
  proof (cases "next_line buf")
    case None
    then have "list_all (\<lambda>b. \<not> is_terminator b) buf"
      by (simp add: next_line_def find_terminator_None split: option.splits)
    with None show ?thesis by (simp add: frame_lines.simps [of buf] segments_plain)
  next
    case (Some lr)
    obtain l rest where lr: "lr = (l, rest)" by (cases lr)
    from next_line_segments [of buf l rest] Some lr obtain p where
      seg: "segments buf = p # segments rest \<or> segments buf = p # [] # segments rest"
      and l: "case l of Content s \<Rightarrow> s = p \<and> length p < MAX_LINE_WITH_CRLF | Overlong \<Rightarrow> MAX_CONTENT_BYTES < length p"
      by auto
    have empty: "parse_segment [] = None" by (simp add: parse_segment_def)
    show ?thesis
    proof (cases l)
      case Overlong
      with l parse_segment_long have "parse_segment p = None" by auto
      with 1(1) [OF Some [unfolded lr Overlong] refl refl] seg Some lr Overlong empty show ?thesis
        by (auto simp: frame_lines.simps [of buf] map_filter_Cons)
    next
      case (Content s)
      with l have s: "s = p" by simp
      from 1(2) [OF Some [unfolded lr Content] refl refl] seg Some lr Content empty s show ?thesis
        by (auto simp: frame_lines.simps [of buf] map_filter_Cons split: prod.splits option.splits)
    qed
  qed
qed

lemma commands_of_segments: "commands_of buf = List.map_filter parse_segment (butlast (segments buf))"
  using frame_lines_segments by (simp add: commands_of_def)

lemma commands_of_append:
  "commands_of (a @ b) = commands_of a @ commands_of (snd (frame_lines a) @ b)"
  using segments_append [of a b] frame_lines_segments [of a]
  by (simp add: commands_of_segments butlast_append List.map_filter_def)

lemma frame_rest_append: "snd (frame_lines (a @ b)) = snd (frame_lines (snd (frame_lines a) @ b))"
  using segments_append [of a b] frame_lines_segments by simp

section \<open>The burst window holds the recent lines\<close>

lemma add_lag_bounds: "throttle = 0 \<Longrightarrow> add_lag throttle = FAKELAG_STEP" "add_lag throttle \<le> FAKELAG_MAX"
  by (simp_all add: add_lag_def FAKELAG_STEP_def FAKELAG_MAX_def from_millis_def)

lemma dropWhile_sorted_filter:
  "sorted ts \<Longrightarrow> dropWhile (\<lambda>t. w < now - t) ts = filter (\<lambda>t. now - t \<le> (w :: nat)) ts"
proof (induction ts)
  case (Cons t ts)
  then show ?case by (cases "w < now - t") (auto intro!: filter_True [symmetric])
qed simp

text \<open>A connection is over budget when more than six of its lines, this one included, fall in the
  window.\<close>

lemma charge_burst_counts:
  assumes "sorted flood" "\<forall>t\<in>set flood. t \<le> now"
  shows "charge_burst env now flood =
    (FLOOD_BURST < length (filter (\<lambda>t. now - t \<le> flood_window env) flood) + 1,
     filter (\<lambda>t. now - t \<le> flood_window env) flood @ [now])"
proof -
  have "sorted (flood @ [now])" using assms by (auto simp: sorted_append)
  then show ?thesis by (simp add: charge_burst_def dropWhile_sorted_filter)
qed

end
