(* ===== verification/Session.thy ===== *)
theory Session
  imports Dispatch Framing
begin

text \<open>
  Sessions (\<^verbatim>\<open>src/ops.rs\<close>): the gates every command passes before dispatch, the reply that
  is queued after it, the end of a connection, and the periodic sweeps over the state.
\<close>

section \<open>The state of a reader\<close>

record session =
  ss_buf :: string
  ss_flood :: "instant list"
  ss_throttle :: nat
  ss_src :: string
  ss_exempt :: bool

definition session_new :: "string \<Rightarrow> bool \<Rightarrow> session" where
  "session_new src ex = \<lparr>ss_buf = [], ss_flood = [], ss_throttle = 0, ss_src = src, ss_exempt = ex\<rparr>"

definition charge_line :: "bool \<Rightarrow> server \<Rightarrow> session \<Rightarrow> session" where
  "charge_line spared st s = (case charge_burst (sv_env st) (sv_now st) (ss_flood s) of
     (over, fl) \<Rightarrow> s\<lparr>ss_flood := fl,
       ss_throttle := (if over \<and> \<not> spared then add_lag (ss_throttle s) else ss_throttle s)\<rparr>)"

section \<open>The reply to a command\<close>

text \<open>\<^verbatim>\<open>take_pending\<close>: the reply that did not fit in the queue, if any.\<close>

definition take_pending :: "nat \<Rightarrow> string \<Rightarrow> server \<Rightarrow> string option \<times> server" where
  "take_pending i blob st =
     (if blob = [] then (None, st)
      else case find_by_id st i of
        None \<Rightarrow> (None, st)
      | Some u \<Rightarrow>
          (if tx_closed (cx_tx u) then (Some crlf, st)
           else if tx_capacity (cx_tx u) \<le> length (tx_queue (cx_tx u)) then (Some blob, st)
           else (None, upd_by_id i (enqueue blob) st)))"

definition settle :: "nat \<Rightarrow> bool \<Rightarrow> server \<Rightarrow> (bool \<times> string option) \<times> server" where
  "settle i quit st = (case finish_reply i st of (blob, st1) \<Rightarrow>
     (case take_pending i blob st1 of (pending, st2) \<Rightarrow> ((quit, pending), st2)))"

text \<open>\<^verbatim>\<open>flush_pending\<close> and \<^verbatim>\<open>write_reply\<close>: how the wait for a slot ended, and whether the
  session is gone. The queue has a slot again when the send completes.\<close>

datatype wait = Notified | Sent | SendFailed

definition flush_pending :: "wait \<Rightarrow> nat \<Rightarrow> string option \<Rightarrow> server \<Rightarrow> bool \<times> server" where
  "flush_pending w i pending st = (case pending of
     None \<Rightarrow> (False, st)
   | Some blob \<Rightarrow>
       (if blob = [] then (False, st)
        else case w of
          Notified \<Rightarrow> (True, st)
        | SendFailed \<Rightarrow> (True, st)
        | Sent \<Rightarrow> (False, send_to i blob st)))"

section \<open>Routing\<close>

definition is_numeric_reply :: "string \<Rightarrow> bool" where
  "is_numeric_reply n \<longleftrightarrow> length n = 3 \<and> list_all is_digit n"

definition authentic :: "server \<Rightarrow> nat \<Rightarrow> command \<Rightarrow> bool" where
  "authentic st i cmd = (case cmd_prefix cmd of
     None \<Rightarrow> True
   | Some pfx \<Rightarrow> cx_opt (\<lambda>u. cx_registered u \<and> cx_nick_key u = norm_nick pfx) False st i)"

definition deliver_not_registered :: "nat \<Rightarrow> server \<Rightarrow> server" where
  "deliver_not_registered i st =
     deliver i (proto_line (sv_prefix st) ''451'' (cx_opt cx_nick ''*'' st i @ '' :You have not registered'')) st"

text \<open>What an inbound \<^verbatim>\<open>PONG\<close> settles: the registration challenge, and the ping of a reclaim.\<close>

definition pong_challenge :: "nat \<Rightarrow> server \<Rightarrow> server" where
  "pong_challenge i st =
     (if cx_opt (\<lambda>u. \<not> cx_registered u \<and> cx_reg_challenged u \<and> \<not> cx_reg_verified u) False st i
      then complete_pairing_if_ready i (upd_by_id i (\<lambda>u. u\<lparr>cx_reg_verified := True\<rparr>) st)
      else st)"

definition pong_reclaim :: "nat \<Rightarrow> server \<Rightarrow> server" where
  "pong_reclaim i st =
     (if \<not> hm_contains (sv_ping st) i then st
      else
        let st1 = st\<lparr>sv_ping := hm_remove i (sv_ping st)\<rparr>
        in case hm_get (sv_reclaim st1) i of
             None \<Rightarrow> st1
           | Some mark \<Rightarrow> fold (\<lambda>(rid, ref_now). nickname_in_use rid ref_now)
               (rc_pairings mark @ rc_renames mark)
               (st1\<lparr>sv_reclaim := hm_remove i (sv_reclaim st1)\<rparr>))"

definition on_pong :: "nat \<Rightarrow> command \<Rightarrow> server \<Rightarrow> server" where
  "on_pong i cmd st = (if cmd_name cmd = ''PONG'' then pong_reclaim i (pong_challenge i st) else st)"

definition gate_open :: "server \<Rightarrow> nat \<Rightarrow> command \<Rightarrow> bool" where
  "gate_open st i cmd \<longleftrightarrow> open_command (cmd_name cmd) \<or> cx_opt cx_registered False st i"

definition run_command :: "nat \<Rightarrow> command \<Rightarrow> server \<Rightarrow> (bool \<times> string option) \<times> server" where
  "run_command i cmd st =
     (let st1 = begin_reply i cmd st
      in if \<not> gate_open st1 i cmd then settle i False (deliver_not_registered i st1)
         else case dispatch i cmd (on_pong i cmd st1) of (quit, st2) \<Rightarrow> settle i quit st2)"

definition flood_disconnect :: "nat \<Rightarrow> command \<Rightarrow> server \<Rightarrow> (bool \<times> string option) \<times> server" where
  "flood_disconnect i cmd st =
     settle i True (deliver i (proto_line [] ''ERROR'' '':Excess flood'') (begin_reply i cmd st))"

text \<open>The per-source budget; operators are not charged.\<close>

definition charge_source :: "nat \<Rightarrow> session \<Rightarrow> server \<Rightarrow> (bool + unit) \<times> server" where
  "charge_source i s st =
     (if cx_opt cx_oper False st i then (Inr (), st)
      else case charge_message (sv_limits st) (ss_src s) (ss_exempt s) (sv_now st) (sv_sources st) of
        (verdict, t) \<Rightarrow> (verdict, st\<lparr>sv_sources := t\<rparr>))"

definition route :: "nat \<Rightarrow> command \<Rightarrow> session \<Rightarrow> server \<Rightarrow> (bool \<times> string option) \<times> session \<times> server" where
  "route i cmd s st =
     (if is_numeric_reply (cmd_name cmd) \<or> \<not> authentic st i cmd then ((False, None), s, st)
      else
        let st1 = upd_by_id i (\<lambda>u. u\<lparr>cx_last_rx := sv_now st\<rparr>) st;
            spared = (cmd_name cmd \<in> {''PING'', ''PONG''} \<or> cx_opt cx_oper False st1 i);
            s1 = charge_line spared st1 s
        in case charge_source i s st1 of
             (Inl False, st2) \<Rightarrow> ((False, None), s1, st2)
           | (Inl True, st2) \<Rightarrow> (case flood_disconnect i cmd st2 of (r, st3) \<Rightarrow> (r, s1, st3))
           | (Inr _, st2) \<Rightarrow> (case run_command i cmd st2 of (r, st3) \<Rightarrow> (r, s1, st3)))"

definition process_segment ::
    "nat \<Rightarrow> string \<Rightarrow> session \<Rightarrow> server \<Rightarrow> (bool \<times> string option) \<times> session \<times> server" where
  "process_segment i seg s st = (case parse_segment seg of
     None \<Rightarrow> ((False, None), charge_line False st s, st)
   | Some cmd \<Rightarrow> route i cmd s st)"

section \<open>The ends of a connection\<close>

definition cleanup_on_eof :: "nat \<Rightarrow> server \<Rightarrow> server" where
  "cleanup_on_eof i st = (case find_by_id st i of
     None \<Rightarrow> st
   | Some u \<Rightarrow> depart i (if cx_registered u
       then fold (\<lambda>m. send_to m (proto_line (cx_prefix u) ''QUIT'' '':Client connection lost'')) (channel_peers st i) st
       else st))"

definition park_unregistered ::
    "nat \<Rightarrow> string \<Rightarrow> string \<Rightarrow> sender \<Rightarrow> string option \<Rightarrow> server \<Rightarrow> server" where
  "park_unregistered i host real_host tx cert st =
     (if find_by_id st i \<noteq> None then st else park_new i host real_host tx cert st)"

section \<open>The periodic sweeps\<close>

definition registration_window :: "environ \<Rightarrow> nat" where
  "registration_window env = from_secs (max (env_usize env ''CHONKLINE_REG_TIMEOUT_SECS'' 60) 1)"

definition eviction_window :: "environ \<Rightarrow> nat" where
  "eviction_window env = from_secs (max (env_usize env ''CHONKLINE_EVICTION_SECS'' 30) 1)"

definition ping_after_window :: "environ \<Rightarrow> nat" where
  "ping_after_window env = from_secs (max (env_usize env ''CHONKLINE_PING_AFTER_SECS'' 30) 1)"

definition reclaim_one :: "nat \<Rightarrow> server \<Rightarrow> server" where
  "reclaim_one holder st = (case hm_get (sv_reclaim st) holder of
     None \<Rightarrow> st
   | Some mark \<Rightarrow>
       let st1 = st\<lparr>sv_reclaim := hm_remove holder (sv_reclaim st), sv_ping := hm_remove holder (sv_ping st)\<rparr>;
           st2 = announce_loss_and_evict holder ''Ghost: not answering reclaim ping'' st1;
           st3 = fold (\<lambda>(rid, _). complete_pairing_if_ready rid) (rc_pairings mark) st2
       in fold (\<lambda>(rid, target). finish_deferred_rename rid target) (rc_renames mark) st3)"

definition reclaim_tick :: "server \<Rightarrow> server" where
  "reclaim_tick st =
     fold reclaim_one (map fst (filter (\<lambda>(_, mark). rc_expiry mark \<le> sv_now st) (sv_reclaim st))) st"

definition expired_reg :: "server \<Rightarrow> nat list" where
  "expired_reg st = map cx_id (filter (\<lambda>u. registration_window (sv_env st) < sv_now st - cx_connected_at u)
     (hm_values (sv_unreg st)))"

definition expired_pings :: "server \<Rightarrow> nat list" where
  "expired_pings st = map fst (filter (\<lambda>(_, at). eviction_window (sv_env st) < sv_now st - at) (sv_ping st))"

definition silent_users :: "server \<Rightarrow> nat list" where
  "silent_users st = map cx_id (filter (\<lambda>u. ping_after_window (sv_env st) < sv_now st - cx_last_rx u)
     (hm_values (sv_users st)))"

definition drop_unanswered :: "nat \<Rightarrow> server \<Rightarrow> server" where
  "drop_unanswered i st =
     announce_loss_and_evict i ''No response to PING'' (st\<lparr>sv_ping := hm_remove i (sv_ping st)\<rparr>)"

definition ping_silent :: "nat \<Rightarrow> server \<Rightarrow> server" where
  "ping_silent i st =
     (if hm_contains (sv_ping st) i then st
      else
        let s = send_to i (proto_line (sv_prefix st) ''PING'' ('':'' @ sv_name st @ ''-'' @ show_nat i)) st
        in s\<lparr>sv_ping := hm_insert i (sv_now st) (sv_ping s)\<rparr>)"

definition liveness_tick :: "server \<Rightarrow> server" where
  "liveness_tick st =
     (let st1 = fold (\<lambda>i. announce_loss_and_evict i ''Registration timeout'') (expired_reg st) st;
          st2 = fold drop_unanswered (expired_pings st1) st1
      in fold ping_silent (silent_users st2) st2)"

definition snote_threshold :: "string \<Rightarrow> nat" where
  "snote_threshold name =
     (if name = ''conn.banned'' then 1
      else if name = ''flood'' then 3
      else if name \<in> {''proxy.rejected'', ''proxy.unknown''} then 5
      else if name = ''conn.refused'' then 10
      else if name = ''session.new'' then 20
      else if name = ''reg.timeout'' then 20
      else if name = ''output.dropped'' then 50
      else 2 ^ 64 - 1)"

definition counter_notice :: "string \<times> string \<times> u64 \<Rightarrow> string" where
  "counter_notice t = (case t of (name, detail, n) \<Rightarrow>
     name @ '' x'' @ show_nat (unat n) @ '' in the last interval''
     @ (if detail = [] then [] else '' ('' @ detail @ '')''))"

definition broadcast_counter_snotes :: "(string \<times> string \<times> u64) list \<Rightarrow> server \<Rightarrow> server" where
  "broadcast_counter_snotes totals st =
     fold snote (map counter_notice (filter (\<lambda>(name, _, n). snote_threshold name \<le> unat n) totals)) st"

section \<open>The invariant is kept\<close>

lemma keeps_identity_session [simp]:
  "keeps_identity (\<lambda>u. u\<lparr>cx_last_rx := t\<rparr>)" "keeps_identity (\<lambda>u. u\<lparr>cx_reg_verified := b\<rparr>)"
  "keeps_identity (\<lambda>u. u\<lparr>cx_batch_seq := f (cx_batch_seq u)\<rparr>)"
  "keeps_identity (enqueue l)"
  by (simp_all add: keeps_identity_def enqueue_def)

lemma state_inv_tables:
  assumes "sv_users st' = sv_users st" "sv_unreg st' = sv_unreg st" "sv_chans st' = sv_chans st"
    "sv_history st' = sv_history st"
  shows "state_inv st' = state_inv st"
  using assms by (simp add: state_inv_def)

lemma state_inv_world [simp]:
  "state_inv (st\<lparr>sv_world := w\<rparr>) = state_inv st" "state_inv (st\<lparr>sv_ping := p\<rparr>) = state_inv st"
  "state_inv (st\<lparr>sv_reclaim := rc\<rparr>) = state_inv st" "state_inv (st\<lparr>sv_sources := t\<rparr>) = state_inv st"
  "state_inv (st\<lparr>sv_reclaim := rc, sv_ping := p\<rparr>) = state_inv st"
  by (rule state_inv_tables; simp)+

lemma core_session [core_simps]:
  "core (begin_reply i cmd st) = core st" "core (deliver_not_registered i st) = core st"
  "core (broadcast_counter_snotes totals st) = core st"
  by (simp_all add: begin_reply_def Let_def deliver_not_registered_def broadcast_counter_snotes_def
      core_simps core_fold)

lemma state_inv_session_replies [simp]:
  "state_inv (begin_reply i cmd st) = state_inv st" "state_inv (deliver_not_registered i st) = state_inv st"
  "state_inv (broadcast_counter_snotes totals st) = state_inv st" "state_inv (nickname_in_use i n st) = state_inv st"
  by (rule state_inv_same_core, simp add: core_simps nickname_in_use_def)+

lemma state_inv_finish_reply [inv_intros]:
  assumes "state_inv st"
  shows "state_inv (snd (finish_reply i st))"
proof -
  have "state_inv (upd_reply f st)" for f
    using assms state_inv_same_core [OF core_upd_reply] by blast
  then show ?thesis
    by (simp add: finish_reply_def next_batch_ref_def Let_def state_inv_upd_by_id)
qed

lemma state_inv_take_pending [inv_intros]: "state_inv st \<Longrightarrow> state_inv (snd (take_pending i b st))"
  by (simp add: take_pending_def state_inv_upd_by_id split: option.splits)

lemma state_inv_settle [inv_intros]: "state_inv st \<Longrightarrow> state_inv (snd (settle i q st))"
  by (simp add: settle_def case_prod_beta state_inv_take_pending state_inv_finish_reply)

lemma state_inv_flush_pending [inv_intros]: "state_inv st \<Longrightarrow> state_inv (snd (flush_pending w i p st))"
  by (simp add: flush_pending_def split: option.splits wait.splits)

lemma state_inv_on_pong [inv_intros]:
  assumes "state_inv st"
  shows "state_inv (on_pong i cmd st)"
proof -
  have "state_inv (pong_challenge i st)"
    using assms by (simp add: pong_challenge_def state_inv_complete_pairing state_inv_upd_by_id)
  moreover have "state_inv (pong_reclaim i s)" if "state_inv s" for s
    using that by (auto simp: pong_reclaim_def Let_def intro!: state_inv_fold split: option.splits)
  ultimately show ?thesis using assms by (simp add: on_pong_def)
qed

lemma state_inv_run_command:
  assumes "state_inv st"
  shows "state_inv (snd (run_command i cmd st))"
proof -
  let ?st1 = "begin_reply i cmd st"
  have inv: "state_inv ?st1" using assms by simp
  have "state_inv (snd (dispatch i cmd (on_pong i cmd ?st1)))" if "gate_open ?st1 i cmd"
  proof (rule state_inv_dispatch)
    show "state_inv (on_pong i cmd ?st1)" using inv by (rule state_inv_on_pong)
    show "open_command (cmd_name cmd) \<or> cx_opt cx_registered False (on_pong i cmd ?st1) i"
      using that by (auto simp: gate_open_def on_pong_def open_command_def)
  qed
  then show ?thesis
    using inv by (simp add: run_command_def Let_def case_prod_beta state_inv_settle)
qed

lemma state_inv_flood_disconnect: "state_inv st \<Longrightarrow> state_inv (snd (flood_disconnect i cmd st))"
  by (simp add: flood_disconnect_def state_inv_settle)

lemma state_inv_charge_source [simp]: "state_inv (snd (charge_source i s st)) = state_inv st"
  by (simp add: charge_source_def split: prod.splits)

lemma state_inv_route:
  assumes "state_inv st"
  shows "state_inv (snd (snd (route i cmd s st)))"
proof -
  let ?st1 = "upd_by_id i (\<lambda>u. u\<lparr>cx_last_rx := sv_now st\<rparr>) st"
  obtain v st2 where c: "charge_source i s ?st1 = (v, st2)" by (cases "charge_source i s ?st1")
  have inv: "state_inv ?st1" using assms by (simp add: state_inv_upd_by_id)
  then have "state_inv st2" using c state_inv_charge_source [of i s ?st1] by simp
  then show ?thesis
    using assms c state_inv_run_command [of st2 i cmd] state_inv_flood_disconnect [of st2 i cmd]
    by (cases v) (auto simp: route_def Let_def split: prod.splits bool.splits)
qed

lemma state_inv_process_segment [inv_intros]:
  "state_inv st \<Longrightarrow> state_inv (snd (snd (process_segment i seg s st)))"
  by (simp add: process_segment_def state_inv_route split: option.split)

lemma state_inv_cleanup [inv_intros]: "state_inv st \<Longrightarrow> state_inv (cleanup_on_eof i st)"
  by (auto simp: cleanup_on_eof_def intro!: state_inv_depart state_inv_fold split: option.split)

lemma state_inv_reclaim_tick [inv_intros]:
  assumes "state_inv st"
  shows "state_inv (reclaim_tick st)"
proof -
  have "state_inv (reclaim_one h s)" if "state_inv s" for h s
    using that
    by (auto simp: reclaim_one_def Let_def intro!: state_inv_fold state_inv_announce
        state_inv_complete_pairing state_inv_finish_rename split: option.split)
  with assms show ?thesis unfolding reclaim_tick_def by (intro state_inv_fold) auto
qed

lemma state_inv_liveness_tick [inv_intros]:
  assumes "state_inv st"
  shows "state_inv (liveness_tick st)"
  using assms
  by (auto simp: liveness_tick_def Let_def drop_unanswered_def ping_silent_def
      intro!: state_inv_fold state_inv_announce)

end
