(* ===== verification/Remote.thy ===== *)
theory Remote
  imports Session
begin

text \<open>
  Events that arrive over a server link, applied to the server state (\<^verbatim>\<open>apply_event\<close> of
  \<^verbatim>\<open>src/link.rs\<close> with the operations of \<^verbatim>\<open>src/cmds.rs\<close> it calls), and the life of
  a link as the server sees it: registration, burst, and the split that ends it.
\<close>

section \<open>What local clients are told\<close>

definition user_prefix :: "remote_user \<Rightarrow> string" where
  "user_prefix u = '':'' @ ru_nick u @ ''!'' @ ru_user u @ ''@'' @ ru_host u"

definition remote_prefix :: "server \<Rightarrow> string \<Rightarrow> string option" where
  "remote_prefix st uuid = map_option user_prefix (net_user (sv_network st) uuid)"

definition to_local_members :: "string \<Rightarrow> string \<Rightarrow> server \<Rightarrow> server" where
  "to_local_members key l st = fold (\<lambda>i. deliver i l) (local_members st key) st"

definition announce_remote_join :: "string \<Rightarrow> string \<Rightarrow> server \<Rightarrow> server" where
  "announce_remote_join ch uuid st = (case remote_prefix st uuid of
     None \<Rightarrow> st | Some pfx \<Rightarrow> to_local_members (norm_nick ch) (proto_line pfx ''JOIN'' ch) st)"

definition announce_remote_part :: "string \<Rightarrow> string \<Rightarrow> string \<Rightarrow> server \<Rightarrow> server" where
  "announce_remote_part ch uuid why st = (case remote_prefix st uuid of
     None \<Rightarrow> st
   | Some pfx \<Rightarrow> to_local_members (norm_nick ch)
       (proto_line pfx ''PART'' (if why = [] then ch else ch @ '' :'' @ why)) st)"

definition announce_remote_quit :: "remote_user \<Rightarrow> string \<Rightarrow> server \<Rightarrow> server" where
  "announce_remote_quit u why st =
     fold (\<lambda>i. deliver i (proto_line (user_prefix u) ''QUIT'' ('':'' @ why)))
       (sorted_list_of_set (\<Union>ch\<in>ru_chans u. set (local_members st ch))) st"

section \<open>Channels\<close>

definition adopt_remote_channel :: "string \<Rightarrow> u64 \<Rightarrow> (string \<times> string) list \<Rightarrow> server \<Rightarrow> server" where
  "adopt_remote_channel ch ts members st =
     (let key = norm_nick ch;
          st1 = (case chan st key of
             Some c \<Rightarrow> (if ts < ch_created_at c
               then upd_chan key (\<lambda>c. clear_all_modes (c\<lparr>ch_created_at := ts\<rparr>)) st else st)
           | None \<Rightarrow> st);
          st2 = (if chan st1 key = None
                 then upd_chan key (\<lambda>c. c\<lparr>ch_created_at := ts\<rparr>) (chan_or_create key ch st1) else st1)
      in fold (\<lambda>(_, uuid). announce_remote_join ch uuid) members st2)"

definition adopt_remote_topic :: "string \<Rightarrow> u64 \<Rightarrow> string \<Rightarrow> string \<Rightarrow> server \<Rightarrow> server" where
  "adopt_remote_topic ch ts who topic st =
     (let key = norm_nick ch
      in to_local_members key (proto_line ('':'' @ who) ''TOPIC'' (ch @ '' :'' @ topic))
           (upd_chan key (\<lambda>c. c\<lparr>ch_topic := topic, ch_topic_setter := who, ch_topic_time := ts\<rparr>) st))"

text \<open>One flag of a remote mode change, with the parameters not used yet.\<close>

definition remote_mask :: "string \<Rightarrow> bool \<Rightarrow> string \<Rightarrow> chn \<Rightarrow> chn" where
  "remote_mask ch adding m c =
     (if ch = ''b'' then (if adding then add_ban m c else snd (remove_ban m c))
      else if ch = ''e'' then (if adding then add_except m c else snd (remove_except m c))
      else (if adding then add_invex m c else snd (remove_invex m c)))"

definition remote_flag :: "string \<Rightarrow> string \<Rightarrow> bool \<Rightarrow> string list \<Rightarrow> server \<Rightarrow> string list \<times> server" where
  "remote_flag key ch adding params st =
     (if ch \<in> {''i'', ''n'', ''p'', ''s'', ''t'', ''m'', ''R''}
      then (params, upd_chan key (set_flag (hd ch) adding) st)
      else if ch = ''k''
      then (drop 1 params, upd_chan key (set_key_opt (if adding then first_opt params else None)) st)
      else if ch = ''l''
      then (drop 1 params, upd_chan key (set_limit_value
             (if adding then opt_default 0 (Option.bind (first_opt params) parse_i32) else 0)) st)
      else if ch \<in> {''b'', ''e'', ''I''}
      then (case params of
              [] \<Rightarrow> ([], st)
            | m # ps \<Rightarrow> (ps, upd_chan key (remote_mask ch adding m) st))
      else if ch \<in> {''o'', ''v''}
      then (case params of
              [] \<Rightarrow> ([], st)
            | uuid # ps \<Rightarrow> (ps, case local_uuid_owner (sv_network st) uuid of
                None \<Rightarrow> st
              | Some i \<Rightarrow> upd_chan key (set_member_prefix (hd ch) i adding) st))
      else (drop 1 params, upd_chan key (set_foreign_mode ch (first_opt params) adding) st))"

fun remote_flags ::
    "string \<Rightarrow> string list \<Rightarrow> bool \<Rightarrow> string list \<Rightarrow> server \<Rightarrow> bool \<times> server" where
  "remote_flags key [] adding params st = (False, st)"
| "remote_flags key (ch # chs) adding params st =
     (if ch = ''+'' then remote_flags key chs True params st
      else if ch = ''-'' then remote_flags key chs False params st
      else case remote_flag key ch adding params st of (params', st') \<Rightarrow>
        (True, snd (remote_flags key chs adding params' st')))"

definition apply_remote_mode :: "string \<Rightarrow> u64 \<Rightarrow> string list \<Rightarrow> server \<Rightarrow> server" where
  "apply_remote_mode target ts modes st =
     (let key = norm_nick target
      in if \<not> valid_channel target then st
         else case chan st key of
           None \<Rightarrow> st
         | Some c \<Rightarrow>
             (if ch_created_at c < ts \<and> ch_created_at c \<noteq> 0 then st
              else case remote_flags key (utf8_chars (str_default (first_opt modes))) True (drop 1 modes) st of
                (applied, st1) \<Rightarrow>
                  (if \<not> applied then st1
                   else to_local_members key (proto_line (sv_prefix st1) ''MODE''
                     (chan_opt ch_display target st1 key @ '' '' @ join_with '' '' modes)) st1)))"

section \<open>Messages\<close>

text \<open>The result \<open>None\<close> is the panic of \<^verbatim>\<open>valid_uuid\<close> on a target whose third byte is not a
  character boundary.\<close>

definition deliver_to_nick :: "nat \<Rightarrow> string \<Rightarrow> string \<Rightarrow> string \<Rightarrow> server \<Rightarrow> server" where
  "deliver_to_nick i pfx vb x st = note_message
     (deliver i (proto_line pfx vb (cx_opt cx_nick [] st i @ '' :'' @ x)) st)"

definition deliver_remote_message :: "string \<Rightarrow> string \<Rightarrow> string \<Rightarrow> bool \<Rightarrow> server \<Rightarrow> server option" where
  "deliver_remote_message from_uuid target x notice st =
     (case remote_prefix st from_uuid of
        None \<Rightarrow> Some st
      | Some pfx \<Rightarrow>
          (let vb = (if notice then ''NOTICE'' else ''PRIVMSG'')
           in if valid_channel target
              then Some (note_message (to_local_members (norm_nick target)
                     (proto_line pfx vb (target @ '' :'' @ x)) st))
              else case valid_uuid target of
                None \<Rightarrow> None
              | Some is_uuid \<Rightarrow> Some
                  (case (if is_uuid then local_uuid_owner (sv_network st) target
                         else map_option cx_id (lookup st (norm_nick target))) of
                     None \<Rightarrow> st
                   | Some i \<Rightarrow> deliver_to_nick i pfx vb x st)))"

section \<open>Events\<close>

definition upd_network :: "(network \<Rightarrow> network) \<Rightarrow> server \<Rightarrow> server" where
  "upd_network f st = st\<lparr>sv_network := f (sv_network st)\<rparr>"

definition announce_split :: "string \<Rightarrow> string \<Rightarrow> server \<Rightarrow> server" where
  "announce_split sid why st = (case split_server_detailed sid (sv_network st) of
     (lost, n) \<Rightarrow>
       snote (''Server '' @ sid @ '' split ('' @ why @ ''), '' @ show_nat (length lost) @ '' users lost'')
         (fold (\<lambda>u. announce_remote_quit u (''*.net *.split ('' @ why @ '')'')) lost (st\<lparr>sv_network := n\<rparr>)))"

definition enter_channel :: "string \<Rightarrow> string \<Rightarrow> server \<Rightarrow> server" where
  "enter_channel key uuid st = upd_network (upd_user uuid (\<lambda>u. u\<lparr>ru_chans := insert key (ru_chans u)\<rparr>)) st"

fun apply_event :: "event \<Rightarrow> server \<Rightarrow> server option" where
  "apply_event (ServerIntroduced sid name desc via) st = Some (upd_network (add_server
     \<lparr>rs_sid = sid, rs_name = name, rs_desc = desc,
      rs_hop = (case net_server (sv_network st) via of Some s \<Rightarrow> rs_hop s + 1 | None \<Rightarrow> 2),
      rs_via = via, rs_bursting = False\<rparr>) st)"
| "apply_event (UserIntroduced u) st = Some (upd_network (add_user u) st)"
| "apply_event (UserQuit uuid why) st = Some (case net_remove_user uuid (sv_network st) of
     (None, n) \<Rightarrow> st\<lparr>sv_network := n\<rparr>
   | (Some u, n) \<Rightarrow> announce_remote_quit u why (st\<lparr>sv_network := n\<rparr>))"
| "apply_event (NickChanged uuid nick) st =
     Some (upd_network (\<lambda>n. snd (rename_user uuid nick (norm_nick nick) n)) st)"
| "apply_event (ChannelJoin ch ts modes members) st =
     Some (adopt_remote_channel ch ts members
       (fold (\<lambda>(_, uuid). enter_channel (norm_nick ch) uuid) members st))"
| "apply_event (RemoteJoin ch uuid) st =
     Some (announce_remote_join ch uuid (enter_channel (norm_nick ch) uuid st))"
| "apply_event (RemotePart ch uuid why) st =
     Some (announce_remote_part ch uuid why
       (upd_network (upd_user uuid (\<lambda>u. u\<lparr>ru_chans := ru_chans u - {norm_nick ch}\<rparr>)) st))"
| "apply_event (Message src target x notice) st = deliver_remote_message src target x notice st"
| "apply_event (TopicChanged ch ts who topic) st = Some (adopt_remote_topic ch ts who topic st)"
| "apply_event (Away uuid why) st = Some (upd_network (upd_user uuid (\<lambda>u. u\<lparr>ru_away := why\<rparr>)) st)"
| "apply_event (ServerSplit sid why) st = Some (announce_split sid why st)"
| "apply_event BurstComplete st = Some st"
| "apply_event (ModeChange target ts modes) st = Some (apply_remote_mode target ts modes st)"
| "apply_event (PeerRegistered sid name desc) st = Some st"
| "apply_event (LinkFailed why) st = Some st"

section \<open>The invariant is kept\<close>

lemma core_remote [core_simps]:
  "core (to_local_members key l st) = core st" "core (announce_remote_join ch uuid st) = core st"
  "core (announce_remote_part ch uuid why st) = core st" "core (announce_remote_quit u why st) = core st"
  by (simp_all add: to_local_members_def announce_remote_join_def announce_remote_part_def
      announce_remote_quit_def core_fold core_simps split: option.split)

lemma state_inv_remote [simp]:
  "state_inv (to_local_members key l st) = state_inv st"
  "state_inv (announce_remote_join ch uuid st) = state_inv st"
  "state_inv (announce_remote_part ch uuid why st) = state_inv st"
  "state_inv (announce_remote_quit u why st) = state_inv st"
  by (rule state_inv_same_core, rule core_remote)+

lemma state_inv_network [simp]:
  "state_inv (st\<lparr>sv_network := n\<rparr>) = state_inv st" "state_inv (upd_network f st) = state_inv st"
  "state_inv (note_message st) = state_inv st" "state_inv (enter_channel key uuid st) = state_inv st"
  by (rule state_inv_tables; simp add: upd_network_def note_message_def enter_channel_def)+

lemma keeps_members_remote [simp]:
  "keeps_members (\<lambda>c. clear_all_modes (c\<lparr>ch_created_at := t\<rparr>))" "keeps_members (\<lambda>c. c\<lparr>ch_created_at := t\<rparr>)"
  "keeps_members (\<lambda>c. c\<lparr>ch_topic := x, ch_topic_setter := w, ch_topic_time := t\<rparr>)"
  "keeps_members (set_flag ch b)" "keeps_members (set_key_opt k)" "keeps_members (set_limit_value l)"
  "keeps_members (remote_mask s b m)" "keeps_members (set_foreign_mode s p b)"
  by (auto simp: keeps_members_def clear_all_modes_def set_flag_def set_key_opt_def set_limit_value_def
      remote_mask_def set_foreign_mode_def add_ban_def remove_ban_def add_except_def remove_except_def
      add_invex_def remove_invex_def split: prod.splits)

lemma state_inv_adopt_channel: "state_inv st \<Longrightarrow> state_inv (adopt_remote_channel ch ts ms st)"
  by (auto simp: adopt_remote_channel_def Let_def intro!: state_inv_fold state_inv_upd_chan
      state_inv_chan_or_create split: option.split)

lemma state_inv_adopt_topic: "state_inv st \<Longrightarrow> state_inv (adopt_remote_topic ch ts w t st)"
  by (simp add: adopt_remote_topic_def Let_def state_inv_upd_chan)

lemma state_inv_split: "state_inv st \<Longrightarrow> state_inv (announce_split sid why st)"
  by (auto simp: announce_split_def intro!: state_inv_fold split: prod.split)

text \<open>
  A remote mode change grants \<^verbatim>\<open>+o\<close> and \<^verbatim>\<open>+v\<close> to any local user it names. The
  invariant is kept when those it names are members of the channel.
\<close>

definition names_members :: "server \<Rightarrow> string \<Rightarrow> string list \<Rightarrow> bool" where
  "names_members st key uuids = list_all (\<lambda>uuid. case local_uuid_owner (sv_network st) uuid of
     None \<Rightarrow> True
   | Some i \<Rightarrow> (case hm_get (sv_chans st) (norm_nick key) of None \<Rightarrow> True | Some c \<Rightarrow> i \<in> ch_members c)) uuids"

lemma names_members_drop: "names_members st key ps \<Longrightarrow> names_members st key (drop n ps)"
  by (auto simp: names_members_def list_all_iff dest: in_set_dropD)

lemma names_members_upd_chan:
  assumes "state_inv st" "keeps_members g" "names_members st key ps"
  shows "names_members (upd_chan key g st) key ps"
proof -
  have "ch_members (g c) = ch_members c" if "hm_get (sv_chans st) (norm_nick key) = Some c" for c
    using assms(2) state_invD(5) [OF assms(1)] that unfolding keeps_members_def memb_ok_def by blast
  then show ?thesis
    using assms(3) by (auto simp: names_members_def upd_chan_get list_all_iff split: option.splits)
qed

lemma keeps_members_prefix:
  assumes inv: "state_inv st" and m: "names_members st key [uuid]" "local_uuid_owner (sv_network st) uuid = Some i"
  shows "state_inv (upd_chan key (set_member_prefix ch i on) st)"
    and "names_members st key ps \<Longrightarrow> names_members (upd_chan key (set_member_prefix ch i on) st) key ps"
proof -
  have i: "i \<in> ch_members c" if "hm_get (sv_chans st) (norm_nick key) = Some c" for c
    using m that by (simp add: names_members_def)
  have sub: "ch_ops c \<subseteq> ch_members c" "ch_voices c \<subseteq> ch_members c"
    if "hm_get (sv_chans st) (norm_nick key) = Some c" for c
    using state_invD(5) [OF inv] that by (auto simp: memb_ok_def)
  show "state_inv (upd_chan key (set_member_prefix ch i on) st)"
  proof (rule state_inv_upd_chan_at [OF inv])
    fix c
    assume c: "hm_get (sv_chans st) (norm_nick key) = Some c"
    show "ch_members (set_member_prefix ch i on c) = ch_members c \<and>
        ch_ops (set_member_prefix ch i on c) \<subseteq> ch_members c \<and>
        ch_voices (set_member_prefix ch i on c) \<subseteq> ch_members c"
      using i [OF c] sub [OF c] by (auto simp: set_member_prefix_def)
  qed
  show "names_members (upd_chan key (set_member_prefix ch i on) st) key ps" if "names_members st key ps"
    using that by (auto simp: names_members_def upd_chan_get list_all_iff set_member_prefix_def split: option.splits)
qed

lemma if_both: "Q a \<Longrightarrow> Q b \<Longrightarrow> Q (if c then a else b)"
  by simp

lemma remote_flag_keeps:
  assumes "state_inv st" "names_members st key ps"
  defines "Q \<equiv> \<lambda>(ps', st'). state_inv st' \<and> names_members st' key ps'"
  shows "Q (remote_flag key ch adding ps st)"
proof -
  have tail: "names_members st key (drop 1 ps)" using assms(2) by (rule names_members_drop)
  have keep: "Q (ps, upd_chan key g st)" "Q (drop 1 ps, upd_chan key g st)" if "keeps_members g" for g
    using that assms(1,2) tail by (simp_all add: Q_def state_inv_upd_chan names_members_upd_chan)
  have mask: "Q (case ps of [] \<Rightarrow> ([], st) | m # ps' \<Rightarrow> (ps', upd_chan key (remote_mask ch adding m) st))"
    using assms(1,2) keep(2) [OF keeps_members_remote(7)] by (cases ps) (simp_all add: Q_def)
  have prefix: "Q (case ps of [] \<Rightarrow> ([], st) | uuid # ps' \<Rightarrow>
      (ps', case local_uuid_owner (sv_network st) uuid of None \<Rightarrow> st
            | Some i \<Rightarrow> upd_chan key (set_member_prefix (hd ch) i adding) st))"
  proof (cases ps)
    case (Cons uuid rest)
    have one: "names_members st key [uuid]" using assms(2) Cons by (simp add: names_members_def)
    have "names_members st key rest" using tail Cons by simp
    with Cons keeps_members_prefix [OF assms(1) one] assms(1) show ?thesis
      by (simp add: Q_def split: option.split)
  qed (use assms(1,2) in \<open>simp add: Q_def\<close>)
  show ?thesis
    unfolding remote_flag_def by (intro if_both [where Q = Q] keep keeps_members_remote mask prefix)
qed

lemma state_inv_remote_flags:
  "state_inv st \<Longrightarrow> names_members st key ps \<Longrightarrow> state_inv (snd (remote_flags key chs adding ps st))"
proof (induction chs arbitrary: adding ps st)
  case (Cons ch chs)
  obtain ps' st' where f: "remote_flag key ch adding ps st = (ps', st')"
    by (cases "remote_flag key ch adding ps st")
  from remote_flag_keeps [OF Cons.prems, of ch adding] Cons.IH [of st' ps' adding] Cons.IH [OF Cons.prems] f
  show ?case by auto
qed simp

definition event_safe :: "server \<Rightarrow> event \<Rightarrow> bool" where
  "event_safe st ev = (case ev of
     ModeChange target ts modes \<Rightarrow> names_members st (norm_nick target) (drop 1 modes) | _ \<Rightarrow> True)"

lemma state_inv_remote_mode:
  assumes "state_inv st" "names_members st (norm_nick target) (drop 1 modes)"
  shows "state_inv (apply_remote_mode target ts modes st)"
  using assms state_inv_remote_flags [OF assms]
  by (auto simp: apply_remote_mode_def Let_def split: option.split prod.split) (metis snd_conv)+

lemma state_inv_remote_message:
  "state_inv st \<Longrightarrow> deliver_remote_message src target x nt st = Some st' \<Longrightarrow> state_inv st'"
  by (auto simp: deliver_remote_message_def deliver_to_nick_def Let_def split: option.splits if_splits)

lemma state_inv_apply_event:
  assumes "state_inv st" "event_safe st ev" "apply_event ev st = Some st'"
  shows "state_inv st'"
  using assms
proof (cases ev)
  case (UserQuit uuid why)
  with assms show ?thesis by (auto split: prod.splits option.splits)
next
  case (ChannelJoin ch ts modes members)
  have "state_inv (fold (\<lambda>(_, uuid). enter_channel (norm_nick ch) uuid) members st)"
    by (rule state_inv_fold) (use assms(1) in auto)
  with assms ChannelJoin show ?thesis by (auto intro: state_inv_adopt_channel)
qed (auto simp: event_safe_def state_inv_adopt_topic state_inv_split state_inv_remote_mode
    intro: state_inv_remote_message)

section \<open>The life of a link\<close>

record link_task =
  lt_session :: link_session
  lt_registered :: "string option"
  lt_last_rx :: instant
  lt_chan :: nat

definition link_task_new :: "link_config \<Rightarrow> bool \<Rightarrow> nat \<Rightarrow> instant \<Rightarrow> link_task" where
  "link_task_new cfg outb c now =
     \<lparr>lt_session = link_begin (link_new cfg outb), lt_registered = None, lt_last_rx = now, lt_chan = c\<rparr>"

text \<open>\<^verbatim>\<open>flush\<close>: the lines of the session go to its queue in order; the first component counts
  those the queue refused (\<^verbatim>\<open>link.output_dropped\<close>).\<close>

fun queue_lines :: "nat \<Rightarrow> string list \<Rightarrow> server \<Rightarrow> nat \<times> server" where
  "queue_lines c [] st = (0, st)"
| "queue_lines c (l # ls) st = (case queue_send c l st of (ok, st1) \<Rightarrow>
     (case queue_lines c ls st1 of (n, st2) \<Rightarrow> (if ok then n else Suc n, st2)))"

definition link_flush :: "link_task \<Rightarrow> server \<Rightarrow> nat \<times> link_task \<times> server" where
  "link_flush t st = (case take_outbound (lt_session t) of (ls, s) \<Rightarrow>
     (case queue_lines (lt_chan t) ls st of (n, st') \<Rightarrow> (n, t\<lparr>lt_session := s\<rparr>, st')))"

text \<open>The start of \<^verbatim>\<open>run_session\<close>: the queue, the first lines of the handshake.\<close>

definition link_open :: "link_config \<Rightarrow> bool \<Rightarrow> nat \<Rightarrow> server \<Rightarrow> link_task \<times> server" where
  "link_open cfg outb c st =
     snd (link_flush (link_task_new cfg outb c (sv_now st))
       (st\<lparr>sv_queues := hm_insert c (channel_new LINK_QUEUE) (sv_queues st)\<rparr>))"

definition register_peer :: "string \<Rightarrow> string \<Rightarrow> string \<Rightarrow> nat \<Rightarrow> server \<Rightarrow> server" where
  "register_peer sid name desc c st =
     (upd_network (add_server \<lparr>rs_sid = sid, rs_name = name, rs_desc = desc, rs_hop = 1, rs_via = sid,
        rs_bursting = True\<rparr>) st)
     \<lparr>sv_links := sv_links st @ [\<lparr>lh_sid = sid, lh_name = name, lh_chan = c\<rparr>]\<rparr>"

fun link_event :: "event \<Rightarrow> link_task \<times> server \<Rightarrow> (link_task \<times> server) option" where
  "link_event (PeerRegistered sid name desc) (t, st) =
     (let st1 = register_peer sid name desc (lt_chan t) st; ours = lc_sid (ls_cfg (lt_session t))
      in Some (t\<lparr>lt_registered := Some sid,
                 lt_session := send_burst (sv_unix st1) (burst_users st1 ours) (burst_channels st1 ours)
                   (lt_session t)\<rparr>, st1))"
| "link_event ev (t, st) = map_option (\<lambda>st'. (t, st')) (apply_event ev st)"

fun link_events :: "event list \<Rightarrow> link_task \<times> server \<Rightarrow> (link_task \<times> server) option" where
  "link_events [] p = Some p"
| "link_events (ev # evs) p = Option.bind (link_event ev p) (link_events evs)"

text \<open>What the session makes of a line: a blank one only shows that the peer is alive. \<open>None\<close> is a
  panic, which ends the task without a teardown.\<close>

definition link_receive :: "string \<Rightarrow> link_task \<Rightarrow> server \<Rightarrow> (event list \<times> link_task) option" where
  "link_receive raw t st =
     (let t1 = t\<lparr>lt_last_rx := sv_now st\<rparr>
      in if trim raw = [] then Some ([], t1)
         else map_option (\<lambda>(evs, s). (evs, t1\<lparr>lt_session := s\<rparr>)) (handle_line raw (lt_session t1)))"

text \<open>One turn of the loop for a line, when no other task runs in between; the first component says
  whether the session goes on.\<close>

definition link_line :: "string \<Rightarrow> link_task \<times> server \<Rightarrow> (bool \<times> link_task \<times> server) option" where
  "link_line raw p = (case p of (t, st) \<Rightarrow> (case link_receive raw t st of
     None \<Rightarrow> None
   | Some (evs, t1) \<Rightarrow> map_option (\<lambda>(t2, st2). case link_flush t2 st2 of (n, t3, st3) \<Rightarrow>
         (ls_phase (lt_session t3) \<noteq> Dead, t3, st3)) (link_events evs (t1, st))))"

definition link_timed_out :: "instant \<Rightarrow> link_task \<Rightarrow> bool" where
  "link_timed_out now t \<longleftrightarrow> from_secs 300 < now - lt_last_rx t"

definition keepalive_line :: "link_task \<Rightarrow> string option" where
  "keepalive_line t = map_option (\<lambda>sid.
     (let ours = lc_sid (ls_cfg (lt_session t)) in '':'' @ ours @ '' PING '' @ ours @ '' '' @ sid))
     (peer_sid (lt_session t))"

text \<open>The keepalive timer: whether the session goes on. It ends on silence, and when the queue has no
  room for the PING.\<close>

definition link_tick :: "link_task \<Rightarrow> server \<Rightarrow> bool \<times> server" where
  "link_tick t st =
     (if link_timed_out (sv_now st) t then (False, st)
      else case keepalive_line t of None \<Rightarrow> (True, st) | Some l \<Rightarrow> queue_send (lt_chan t) l st)"

definition link_teardown :: "link_task \<Rightarrow> server \<Rightarrow> server" where
  "link_teardown t st = (case lt_registered t of
     None \<Rightarrow> st
   | Some sid \<Rightarrow> announce_split sid ''Link closed''
       (st\<lparr>sv_links := filter (\<lambda>h. lh_sid h \<noteq> sid) (sv_links st)\<rparr>))"

text \<open>The writer of a link takes the first line of the queue, and gives up when writing fails.\<close>

definition upd_queue :: "nat \<Rightarrow> (sender \<Rightarrow> sender) \<Rightarrow> server \<Rightarrow> server" where
  "upd_queue c f st = (case hm_get (sv_queues st) c of
     None \<Rightarrow> st | Some q \<Rightarrow> st\<lparr>sv_queues := hm_insert c (f q) (sv_queues st)\<rparr>)"

definition queue_take :: "nat \<Rightarrow> server \<Rightarrow> server" where
  "queue_take c = upd_queue c (\<lambda>q. q\<lparr>tx_queue := tl (tx_queue q)\<rparr>)"

definition queue_close :: "nat \<Rightarrow> server \<Rightarrow> server" where
  "queue_close c = upd_queue c (\<lambda>q. q\<lparr>tx_closed := True\<rparr>)"

text \<open>What a queue takes of a sequence of lines: the first ones, as many as it has room for.\<close>

lemma queue_lines_spec:
  assumes "hm_get (sv_queues st) c = Some q" "\<not> tx_closed q" "length (tx_queue q) \<le> tx_capacity q"
  shows "queue_lines c ls st =
    (length ls - (tx_capacity q - length (tx_queue q)),
     st\<lparr>sv_queues := hm_insert c (q\<lparr>tx_queue := tx_queue q @ take (tx_capacity q - length (tx_queue q)) ls\<rparr>)
       (sv_queues st)\<rparr>)"
  using assms
proof (induction ls arbitrary: st q)
  case Nil
  then show ?case by (simp add: update_triv)
next
  case (Cons l ls)
  show ?case
  proof (cases "length (tx_queue q) = tx_capacity q")
    case True
    then have "queue_send c l st = (False, st)" using Cons.prems by (simp add: queue_send_def try_send_def update_triv)
    with Cons.IH [OF Cons.prems] True show ?thesis by simp
  next
    case False
    let ?q = "q\<lparr>tx_queue := tx_queue q @ [l]\<rparr>"
    let ?st = "st\<lparr>sv_queues := hm_insert c ?q (sv_queues st)\<rparr>"
    have "queue_send c l st = (True, ?st)" using Cons.prems False by (simp add: queue_send_def try_send_def)
    moreover have "hm_get (sv_queues ?st) c = Some ?q" by (simp add: hm_simps)
    moreover obtain k where "tx_capacity q - length (tx_queue q) = Suc k"
      using False Cons.prems(3) by (metis diff_is_0_eq le_antisym not0_implies_Suc)
    moreover from this have "tx_capacity q - Suc (length (tx_queue q)) = k" by simp
    ultimately show ?thesis using Cons.IH [of ?st ?q] Cons.prems False by (simp add: Suc_le_eq)
  qed
qed

lemma core_queue_lines [core_simps]: "core (snd (queue_lines c ls st)) = core st"
proof (induction ls arbitrary: st)
  case (Cons l ls)
  then show ?case using core_queues(2) [of c l st] by (simp add: case_prod_beta)
qed simp

lemma core_link_io [core_simps]:
  "core (snd (snd (link_flush t st))) = core st" "core (snd (link_open cfg outb c st)) = core st"
  "core (snd (link_tick t st)) = core st" "core (queue_take c st) = core st" "core (queue_close c st) = core st"
proof -
  show flush: "core (snd (snd (link_flush t st))) = core st" for t st
    using core_queue_lines [of "lt_chan t" "fst (take_outbound (lt_session t))" st]
    by (simp add: link_flush_def split: prod.split) (metis fst_conv snd_conv)
  show "core (snd (link_open cfg outb c st)) = core st"
    unfolding link_open_def flush by (simp add: core_simps)
qed (simp_all add: link_tick_def queue_take_def queue_close_def upd_queue_def core_simps split: option.split)

section \<open>Link configuration\<close>

definition parse_u16 :: "string \<Rightarrow> nat option" where
  "parse_u16 s = (case parse_u64 s of Some n \<Rightarrow> if n < 65536 then Some n else None | None \<Rightarrow> None)"

definition link_password :: "environ \<Rightarrow> string \<Rightarrow> string" where
  "link_password env own = (case env own of
     Some v \<Rightarrow> v | None \<Rightarrow> str_default (env ''IRC_LINK_PASSWORD''))"

definition link_configured :: "environ \<Rightarrow> (link_config \<times> nat option \<times> string list) option" where
  "link_configured env = (case env ''IRC_SID'' of
     None \<Rightarrow> None
   | Some sid \<Rightarrow>
       (if \<not> valid_sid sid then None
        else Some
          (\<lparr>lc_sid = sid, lc_name = opt_default ''chonkline'' (env ''IRC_SERVER_NAME''),
            lc_desc = opt_default ''Chonkline'' (env ''IRC_NETWORK_DESC''),
            send_password = link_password env ''IRC_LINK_SEND_PASSWORD'',
            recv_password = link_password env ''IRC_LINK_RECV_PASSWORD''\<rparr>,
           Option.bind (env ''IRC_LINK_PORT'') parse_u16,
           (case env ''IRC_LINK_PEERS'' of
              None \<Rightarrow> []
            | Some v \<Rightarrow> filter (\<lambda>s. s \<noteq> []) (map trim (split_on (CHR '','') v))))))"

definition link_tls_enabled :: "environ \<Rightarrow> bool" where
  "link_tls_enabled env \<longleftrightarrow> truthy (str_default (env ''IRC_LINK_TLS''))"

text \<open>\<^verbatim>\<open>maintain_peer\<close>: the address to dial and the pinned fingerprint.\<close>

definition rsplit_once :: "char \<Rightarrow> string \<Rightarrow> (string \<times> string) option" where
  "rsplit_once c s = map_option (\<lambda>(a, b). (rev b, rev a)) (split_once c (rev s))"

definition peer_target :: "string \<Rightarrow> string \<times> string option" where
  "peer_target peer = (case rsplit_once (CHR '':'') peer of
     Some (h, t) \<Rightarrow> (if 32 \<le> length t \<and> \<not> list_all is_digit t then (h, Some t) else (peer, None))
   | None \<Rightarrow> (peer, None))"

lemma state_inv_link_event:
  assumes "state_inv st" "event_safe st ev" "link_event ev (t, st) = Some (t', st')"
  shows "state_inv st'"
proof (cases "\<exists>sid name desc. ev = PeerRegistered sid name desc")
  case True
  with assms show ?thesis
    by (auto simp: Let_def register_peer_def upd_network_def intro: state_inv_tables [THEN iffD2])
next
  case False
  with assms(3) have "apply_event ev st = Some st'" by (cases ev) auto
  with assms(1,2) show ?thesis by (rule state_inv_apply_event)
qed

lemma state_inv_link_teardown [inv_intros]: "state_inv st \<Longrightarrow> state_inv (link_teardown t st)"
  by (auto simp: link_teardown_def intro!: state_inv_split intro: state_inv_tables [THEN iffD2] split: option.split)

section \<open>What a closed link leaves behind\<close>

lemma network_output [simp]:
  "sv_network (deliver i l st) = sv_network st" "sv_network (to_local_members k l st) = sv_network st"
  "sv_network (announce_remote_quit u w st) = sv_network st" "sv_network (snote t st) = sv_network st"
  "sv_links (deliver i l st) = sv_links st" "sv_links (announce_remote_quit u w st) = sv_links st"
  "sv_links (snote t st) = sv_links st"
proof -
  have d: "sv_network (deliver i l st) = sv_network st" "sv_links (deliver i l st) = sv_links st" for i l st
    by (simp_all add: deliver_def push_reply_def send_to_def upd_by_id_def split: option.splits)
  have f: "sv_network (fold (\<lambda>i s. deliver i (g i s) s) xs s) = sv_network s"
      "sv_links (fold (\<lambda>i s. deliver i (g i s) s) xs s) = sv_links s" for xs s g
    by (induction xs arbitrary: s) (simp_all add: d)
  show "sv_network (deliver i l st) = sv_network st" "sv_network (to_local_members k l st) = sv_network st"
    "sv_network (announce_remote_quit u w st) = sv_network st" "sv_network (snote t st) = sv_network st"
    "sv_links (deliver i l st) = sv_links st" "sv_links (announce_remote_quit u w st) = sv_links st"
    "sv_links (snote t st) = sv_links st"
    using f [of "\<lambda>_ _. l"] f [of "\<lambda>_ _. proto_line (user_prefix u) ''QUIT'' ('':'' @ w)"]
      f [of "\<lambda>r s. proto_line (sv_prefix st) ''NOTICE'' (cx_opt cx_nick [] s r @ '' :*** Notice -- '' @ t)"]
    by (simp_all add: d to_local_members_def announce_remote_quit_def snote_def Let_def)
qed

lemma split_foldl:
  "snd (foldl (\<lambda>(us, m) uuid. case net_remove_user uuid m of
       (Some u, m') \<Rightarrow> (us @ [u], m') | (None, m') \<Rightarrow> (us, m')) (acc, n) uuids)
   = fold (\<lambda>uuid m. snd (net_remove_user uuid m)) uuids n"
  by (induction uuids arbitrary: acc n) (auto split: prod.splits option.splits)

lemma split_detailed_snd: "snd (split_server_detailed sid n) = snd (split_server sid n)"
  by (simp add: split_server_detailed_def collect_subtree_users_def split_server_def Let_def split_foldl)

text \<open>The servers reached through the peer are gone, and so are their users; everyone else stays.\<close>

definition lost_servers :: "network \<Rightarrow> string \<Rightarrow> string set" where
  "lost_servers n sid = (via_rel (hm_values (net_servers n)))\<^sup>* `` {sid}"

lemma split_server_servers:
  "hm_get (net_servers (snd (split_server sid n))) k =
     (if k \<in> lost_servers n sid then None else hm_get (net_servers n) k)"
  using subtree_loop_reach [of "hm_values (net_servers n)" "[sid]"]
  by (simp add: split_server_def Let_def fold_remove_users fold_remove_get lost_servers_def)

lemma split_server_users:
  assumes "net_inv n"
  shows "hm_get (net_users (snd (split_server sid n))) k =
     (case hm_get (net_users n) k of
        None \<Rightarrow> None | Some u \<Rightarrow> if ru_sid u \<in> lost_servers n sid then None else Some u)"
proof -
  have wf: "hm_wf (net_users n)" and key: "\<And>k u. hm_get (net_users n) k = Some u \<Longrightarrow> ru_uuid u = k"
    using assms by (auto simp: net_inv_def)
  have "k \<in> ru_uuid ` {u \<in> set (hm_values (net_users n)). ru_sid u \<in> lost_servers n sid} \<longleftrightarrow>
      (\<exists>u. hm_get (net_users n) k = Some u \<and> ru_sid u \<in> lost_servers n sid)"
    using key hm_values_iff [OF wf] by fastforce
  with subtree_loop_reach [of "hm_values (net_servers n)" "[sid]"] show ?thesis
    by (auto simp: split_server_def Let_def fold_remove_users lost_servers_def split: option.split)
qed

lemma teardown_network:
  assumes "lt_registered t = Some sid"
  shows "sv_network (link_teardown t st) = snd (split_server sid (sv_network st))"
    and "sv_links (link_teardown t st) = filter (\<lambda>h. lh_sid h \<noteq> sid) (sv_links st)"
proof -
  have f: "sv_network (fold (\<lambda>u. announce_remote_quit u w) us s) = sv_network s"
    "sv_links (fold (\<lambda>u. announce_remote_quit u w) us s) = sv_links s" for us w s
    by (induction us arbitrary: s) simp_all
  show "sv_network (link_teardown t st) = snd (split_server sid (sv_network st))"
    "sv_links (link_teardown t st) = filter (\<lambda>h. lh_sid h \<noteq> sid) (sv_links st)"
    using split_detailed_snd [of sid "sv_network st"] assms
    by (simp_all add: link_teardown_def announce_split_def f case_prod_beta)
qed

end
