(* ===== verification/Frame.thy ===== *)
theory Frame
  imports Session Remote
begin

text \<open>
  What parts of the state an operation leaves alone. A view of the state is a function of it that
  output does not change (\<^const>\<open>core\<close>); the first locale holds of views that do not look at channels,
  registries, links and bookkeeping, the second of those that do not look at connections either. The
  lemmas carry a view through every command handler, sweep and link event, once for all views.
\<close>

named_theorems frame_simps \<open>what leaves a view of the state alone\<close>

locale chan_frame =
  fixes view :: "server \<Rightarrow> 'v"
  assumes view_core: "core s = core st \<Longrightarrow> view s = view st"
    and view_fields: "view (st\<lparr>sv_chans := a1\<rparr>) = view st" "view (st\<lparr>sv_network := a2\<rparr>) = view st"
      "view (st\<lparr>sv_chanreg := a3\<rparr>) = view st" "view (st\<lparr>sv_accounts := a4\<rparr>) = view st"
      "view (st\<lparr>sv_bans := a5\<rparr>) = view st" "view (st\<lparr>sv_reclaim := a6\<rparr>) = view st"
      "view (st\<lparr>sv_ping := a7\<rparr>) = view st" "view (st\<lparr>sv_links := a8\<rparr>) = view st"
      "view (st\<lparr>sv_messages_relayed := a9\<rparr>) = view st"
begin

lemma frame_output [frame_simps]:
  "view (deliver i l st) = view st" "view (numeric i c as st) = view st" "view (relay_tagged i l st) = view st"
  "view (relay_all is l st) = view st" "view (need_more_params i t st) = view st" "view (to_links l st) = view st"
  "view (send_to i l st) = view st" "view (snote t st) = view st" "view (snd (refuse_non_oper i st)) = view st"
  "view (upd_reply f st) = view st" "view (numerics i rs st) = view st"
  by (rule view_core, simp add: core_simps)+

lemma frame_replies [frame_simps]:
  "view (nosuch_channel i c st) = view st" "view (too_many_channels i c st) = view st"
  "view (join_denied i n d st) = view st" "view (not_on_channel i c st) = view st"
  "view (chanop_privs_needed i c st) = view st" "view (send_topic_state i d st) = view st"
  "view (uuid_to_links i t st) = view st" "view (broadcast_join i ms p d st) = view st"
  "view (joiner_replies i d st) = view st" "view (user_not_in_channel i t d st) = view st"
  "view (users_dont_match i st) = view st" "view (mode_501 i t st) = view st" "view (reply_221 i st) = view st"
  "view (mode_channel_query i d st) = view st" "view (mode_ban_list i d st) = view st"
  "view (mode_except_list i d st) = view st" "view (mode_invex_list i d st) = view st"
  "view (nosuch_nick i r st) = view st" "view (already_on_channel i c st) = view st"
  "view (announce_away_change i m st) = view st"
  by (rule view_core, simp add: core_simps)+

lemma frame_fields [frame_simps]:
  "view (st\<lparr>sv_network := a\<rparr>) = view st" "view (st\<lparr>sv_chanreg := b\<rparr>) = view st"
  "view (st\<lparr>sv_accounts := d\<rparr>) = view st" "view (st\<lparr>sv_bans := e\<rparr>) = view st"
  "view (st\<lparr>sv_reclaim := f\<rparr>) = view st" "view (st\<lparr>sv_ping := g\<rparr>) = view st"
  "view (st\<lparr>sv_reclaim := f, sv_ping := g\<rparr>) = view st" "view (st\<lparr>sv_chans := cs\<rparr>) = view st"
  "view (note_message st) = view st" "view (drop_empty_channels st) = view st"
  "view (upd_chan ck k st) = view st" "view (chan_or_create ck x st) = view st"
  by (simp_all add: note_message_def drop_empty_channels_def chan_or_create_def upd_chan_def Let_def view_fields
      split: option.split)

lemma frame_fold: "(\<And>x s. view (f x s) = view s) \<Longrightarrow> view (fold f xs st) = view st"
  by (induction xs arbitrary: st) auto

lemma frame_fold_pairs: "(\<And>x y s. view (f x y s) = view s) \<Longrightarrow> view (fold (\<lambda>(x, y). f x y) xs st) = view st"
  by (rule frame_fold) (simp split: prod.split)

lemma frame_links [frame_simps]:
  "view (relay_join_to_links i ck d st) = view st" "view (ftopic_to_links i ck d t st) = view st"
  "view (fmode_to_links i ck d ts st) = view st" "view (introduce_to_links i st) = view st"
  by (simp_all add: relay_join_to_links_def ftopic_to_links_def fmode_to_links_def introduce_to_links_def
      Let_def frame_simps split: prod.splits option.splits)

lemma frame_founder [frame_simps]: "view (apply_founder_status i ck st) = view st"
  by (simp add: apply_founder_status_def Let_def frame_simps split: option.splits)

lemma frame_topic [frame_simps]: "view (handle_topic i cmd st) = view st"
  by (simp add: handle_topic_def set_topic_by_def Let_def frame_simps split: option.splits)

lemma frame_invite [frame_simps]: "view (handle_invite i cmd st) = view st"
  by (simp add: handle_invite_def Let_def frame_simps split: option.splits)

text \<open>The stages of a channel mode change.\<close>

definition same_view :: "server \<Rightarrow> server + server \<times> 'a \<Rightarrow> bool" where
  "same_view st r = (case r of Inl s \<Rightarrow> view s = view st | Inr (s, _) \<Rightarrow> view s = view st)"

lemma same_view_simps [simp]:
  "same_view st (Inl s) \<longleftrightarrow> view s = view st" "same_view st (Inr (s, x)) \<longleftrightarrow> view s = view st"
  by (simp_all add: same_view_def)

lemma same_view_bind:
  assumes "same_view st r" "\<And>s x. view s = view st \<Longrightarrow> same_view st (g s x)"
  shows "same_view st (case r of Inl s \<Rightarrow> Inl s | Inr (s, x) \<Rightarrow> g s x)"
proof (cases r)
  case (Inr b)
  obtain s x where "b = (s, x)" by (cases b)
  with Inr assms show ?thesis by simp
qed (use assms in simp)

lemma same_view_pair:
  assumes "view (fst r) = view st" "\<And>s x. view s = view st \<Longrightarrow> same_view st (g s x)"
  shows "same_view st (case r of (s, x) \<Rightarrow> g s x)"
  using assms by (cases r) simp

lemma same_view_stages:
  "view (mode_flags ck on fl s) = view s" "same_view s (mode_key i ck fl args s)"
  "same_view s (mode_limit i ck fl args ec s)" "view (fst (mode_bans ck on fl args ec s)) = view s"
  "view (fst (mode_mask f upd ck fl args ec s)) = view s" "same_view s (mode_priv i ck on fl args ec s)"
proof -
  have p: "view s' = view s" if "perform_priv_change i ck f on n s = (r, s')" for f n r s'
    using that by (auto simp: perform_priv_change_def Let_def frame_simps split: option.splits if_splits)
  show "same_view s (mode_priv i ck on fl args ec s)"
    by (auto simp: mode_priv_def frame_simps dest: p split: option.splits prod.splits)
  show "view (mode_flags ck on fl s) = view s"
    unfolding mode_flags_def by (rule frame_fold) (simp add: frame_simps)
  show "view (fst (mode_bans ck on fl args ec s)) = view s"
    by (simp add: mode_bans_def perform_ban_change_def Let_def frame_fold frame_simps)
qed (auto simp: mode_key_def mode_limit_def mode_mask_def frame_simps split: option.splits)

lemma same_view_trans: "view s = view st \<Longrightarrow> same_view s r \<Longrightarrow> same_view st r"
  by (auto simp: same_view_def split: sum.splits)

lemma same_view_term: "view s = view st \<Longrightarrow> same_view st (mode_term i ck raw pfx t args s)"
  unfolding mode_term_def Let_def
  by (intro same_view_bind same_view_pair same_view_stages(2,3,6) [THEN same_view_trans [rotated]])
    (simp_all add: same_view_stages(1,4,5) split: prod.splits)

lemma same_view_loop: "view s = view st \<Longrightarrow> same_view st (mode_loop i ck raw pfx op ts lines s)"
proof (induction i ck raw pfx op ts lines s rule: mode_loop.induct)
  case (2 i ck raw pfx op t ts lines s)
  then show ?case
    using same_view_term [OF 2(2), of i ck raw pfx t ts] by (auto simp: frame_simps split: sum.splits)
qed simp

lemma frame_mode_channel [frame_simps]: "view (mode_channel i raw terms st) = view st"
proof -
  have lines: "view (fold (\<lambda>l s. fold (\<lambda>m. deliver m l) ms s) lines s) = view s" for ms lines s
    by (rule view_core) (rule core_mode_lines)
  show ?thesis
    using same_view_loop [of st st i "norm_nick raw" raw "cx_opt cx_prefix [] st i"
        "chan_opt (\<lambda>c. is_op c i) False st (norm_nick raw)" terms "[]"]
    by (auto simp: mode_channel_def Let_def lines frame_simps split: sum.splits)
qed

lemma frame_services [frame_simps]:
  "view (nickserv_notice i t st) = view st" "view (chanserv_notice i t st) = view st"
  by (rule view_core, simp add: core_simps)+

lemma frame_chanserv [frame_simps]: "view (handle_chanserv i t p st) = view st"
  by (simp add: handle_chanserv_def cs_register_def cs_drop_def cs_info_def cs_op_def Let_def frame_simps
      split: option.splits sum.splits)

lemma frame_messages [frame_simps]:
  "view (relay_user_message i raw x p j st) = view st" "view (deliver_to_server_mask i raw x p st) = view st"
  "view (deliver_to_channel_status i n ch full x p st) = view st"
  "view (snd (deliver_to_channel i raw x p st)) = view st" "view (deliver_to_userhost i u h x p st) = view st"
  by (rule view_core, simp add: core_simps)+

lemma frame_relay_links [frame_simps]: "view (relay_to_links i t x p st) = view st"
  by (simp add: relay_to_links_def frame_simps split: prod.splits)

lemma frame_queries [frame_simps]:
  "view (handle_userhost i cmd st) = view st" "view (handle_ison i cmd st) = view st"
  "view (handle_whois i cmd st) = view st" "view (handle_whowas i cmd st) = view st"
  "view (handle_who i cmd st) = view st" "view (handle_ping i cmd st) = view st"
  "view (handle_info_reply i cmd st) = view st" "view (handle_names i cmd st) = view st"
  "view (handle_list i cmd st) = view st" "view (handle_wallops i cmd st) = view st"
  "view (handle_admin i st) = view st" "view (handle_links i cmd st) = view st" "view (handle_trace i cmd st) = view st"
  "view (handle_rehash_restart i st) = view st" "view (handle_connect_squit i st) = view st"
  "view (unknown_command i cmd st) = view st" "view (sasl_failed i st) = view st" "view (sasl_aborted i st) = view st"
  "view (cap_line i t st) = view st"
  by (rule view_core, simp add: core_simps)+

lemma frame_session [frame_simps]:
  "view (begin_reply i cmd st) = view st" "view (deliver_not_registered i st) = view st"
  "view (broadcast_counter_snotes totals st) = view st"
  by (rule view_core, simp add: core_simps)+


section \<open>Links\<close>

lemma frame_remote [frame_simps]:
  "view (to_local_members key l st) = view st" "view (announce_remote_join ch uuid st) = view st"
  "view (announce_remote_part ch uuid why st) = view st" "view (announce_remote_quit u why st) = view st"
  "view (upd_network f st) = view st" "view (enter_channel key uuid st) = view st"
  by (rule view_core, rule core_remote)+ (simp_all add: upd_network_def enter_channel_def frame_fields)

lemma frame_remote_flag: "view (snd (remote_flag key ch adding ps s)) = view s"
proof -
  have "view (snd (case ps of [] \<Rightarrow> ([], s) | m # ps' \<Rightarrow> (ps', upd_chan key (g m) s))) = view s" for g
    by (simp add: frame_simps split: list.split)
  moreover have "view (snd (case ps of [] \<Rightarrow> ([], s) | uuid # ps' \<Rightarrow>
      (ps', case local_uuid_owner (sv_network s) uuid of None \<Rightarrow> s
            | Some i \<Rightarrow> upd_chan key (g i) s))) = view s" for g
    by (simp add: frame_simps split: list.split option.split)
  ultimately show ?thesis
    unfolding remote_flag_def
    by (intro if_both [where Q = "\<lambda>r. view (snd r) = view s"]) (simp_all only: snd_conv frame_fields)
qed

lemma frame_remote_mode [frame_simps]: "view (apply_remote_mode target ts modes st) = view st"
proof -
  have "view (snd (remote_flags key chs adding ps s)) = view s" for key chs adding ps s
  proof (induction chs arbitrary: adding ps s)
    case (Cons ch chs)
    then show ?case
      using frame_remote_flag [of key ch adding ps s] by (simp add: case_prod_beta)
  qed simp
  then show ?thesis
    by (simp add: apply_remote_mode_def Let_def case_prod_beta frame_simps split: option.split)
qed

lemma frame_apply_event:
  assumes "apply_event ev st = Some st'"
  shows "view st' = view st"
proof (cases ev)
  case (ChannelJoin ch ts modes members)
  have "view (fold (\<lambda>(_, uuid). enter_channel key uuid) ms s) = view s"
    "view (fold (\<lambda>(_, uuid). announce_remote_join ch uuid) ms s) = view s"
    for key s and ms :: "(string \<times> string) list"
    by (rule frame_fold; simp add: frame_simps split: prod.split)+
  note folds = this
  have "view (adopt_remote_channel ch ts members s) = view s" for s
    by (simp add: adopt_remote_channel_def Let_def folds frame_simps split: option.split)
  with ChannelJoin assms folds(1) show ?thesis by auto
next
  case (ServerSplit sid why)
  have "view (fold (\<lambda>u. announce_remote_quit u w) us s) = view s" for w us s
    by (rule frame_fold) (simp add: frame_simps)
  with ServerSplit assms show ?thesis by (auto simp: announce_split_def case_prod_beta frame_simps)
next
  case (Message src target x notice)
  with assms show ?thesis
    by (auto simp: deliver_remote_message_def deliver_to_nick_def Let_def frame_simps split: option.splits if_splits)
next
  case (UserQuit uuid why)
  with assms show ?thesis by (auto simp: frame_simps split: prod.splits option.splits)
qed (use assms in \<open>auto simp: adopt_remote_topic_def Let_def frame_simps\<close>)

lemma frame_link_io:
  "view (snd (snd (link_flush t st))) = view st" "view (snd (link_open cfg outb c st)) = view st"
  "view (snd (link_tick t st)) = view st" "view (queue_take c st) = view st" "view (queue_close c st) = view st"
  by (rule view_core, simp add: core_simps)+

lemma frame_link_task:
  "link_open cfg outb c st = (t', s) \<Longrightarrow> view s = view st" "link_flush t st = (n, t', s) \<Longrightarrow> view s = view st"
  "link_tick t st = (b, s) \<Longrightarrow> view s = view st"
  using frame_link_io(2) [of cfg outb c st] frame_link_io(1,3) [of t st] by simp_all

lemma frame_link:
  "link_event ev (t, st) = Some (t', st') \<Longrightarrow> view st' = view st" "view (link_teardown t st) = view st"
proof -
  have lk: "view (s\<lparr>sv_links := l\<rparr>) = view s" for s l by (rule view_fields)
  have "view (fold (\<lambda>u. announce_remote_quit u w) us s) = view s" for w us s
    by (rule frame_fold) (simp add: frame_simps)
  then show "view (link_teardown t st) = view st"
    by (simp add: link_teardown_def announce_split_def case_prod_beta frame_simps lk split: option.split)
  assume ev: "link_event ev (t, st) = Some (t', st')"
  show "view st' = view st"
  proof (cases "\<exists>sid name desc. ev = PeerRegistered sid name desc")
    case True
    with ev show ?thesis by (auto simp: Let_def register_peer_def frame_simps lk)
  next
    case False
    with ev have "apply_event ev st = Some st'" by (cases ev) auto
    then show ?thesis by (rule frame_apply_event)
  qed
qed

end

locale conn_frame = chan_frame +
  assumes view_conns: "view (st\<lparr>sv_users := b1\<rparr>) = view st" "view (st\<lparr>sv_unreg := b2\<rparr>) = view st"
    "view (st\<lparr>sv_history := b3\<rparr>) = view st" "view (st\<lparr>sv_total_connections := b4\<rparr>) = view st"
    "view (st\<lparr>sv_peak_users := b5\<rparr>) = view st"
begin

lemma frame_upd [frame_simps]: "view (upd_by_id i f st) = view st"
  by (simp add: upd_by_id_def view_conns split: option.split)

lemma frame_tables [frame_simps]:
  "view (depart i st) = view st" "view (apply_rename i d st) = view st" "view (snd (register i n u h rn st)) = view st"
  "view (park_unregistered i h rh tx cert st) = view st"
proof -
  have e: "view (snd (evict i s)) = view s" "view (snd (eject_user i s)) = view s" for s
    by (simp_all add: evict_def eject_user_def view_conns view_fields split: option.split)
  show "view (depart i st) = view st" by (simp add: depart_def e frame_fields)
  show "view (apply_rename i d st) = view st"
    by (simp add: apply_rename_def record_rename_def Let_def view_conns split: option.split)
  show "view (snd (register i n u h rn st)) = view st"
    by (simp add: register_def note_connection_def Let_def view_conns split: option.split)
  show "view (park_unregistered i h rh tx cert st) = view st"
    by (simp add: park_unregistered_def park_new_def view_conns)
qed

lemma frame_register: "register i n u h rn st = (r, s) \<Longrightarrow> view s = view st"
  using frame_tables(3) [of i n u h rn st] by simp

lemma frame_reclaim [frame_simps]: "view (begin_reclaim occ ps rs st) = view st"
  by (cases "hm_contains (sv_ping st) occ") (simp_all add: begin_reclaim_def Let_def frame_simps)

lemma frame_welcome [frame_simps]:
  "view (welcome_sequence i st) = view st" "view (nickname_in_use i n st) = view st"
  by (simp_all add: welcome_sequence_def nickname_in_use_def frame_simps)

lemma frame_complete [frame_simps]: "view (maybe_complete i rn st) = view st"
  by (auto simp: maybe_complete_def reg_challenge_def Let_def frame_simps dest: frame_register
      split: option.splits prod.splits)

lemma frame_registration [frame_simps]:
  "view (complete_pairing_if_ready i st) = view st" "view (finish_deferred_rename i d st) = view st"
  "view (flush_cap_gated_welcome i st) = view st" "view (handle_nick i cmd st) = view st"
  "view (handle_user i cmd st) = view st" "view (handle_pass i cmd st) = view st"
  by (simp_all add: complete_pairing_if_ready_def finish_deferred_rename_def flush_cap_gated_welcome_def handle_nick_def
      rename_registered_def pair_nick_def handle_user_def handle_pass_def Let_def frame_simps split: option.splits)

lemma frame_channels [frame_simps]:
  "view (handle_join i cmd st) = view st" "view (handle_part i cmd st) = view st"
  "view (handle_kick i cmd st) = view st" "view (handle_away i cmd st) = view st"
proof -
  have j: "view (join_one i keys e s) = view s" for keys e s
    by (cases e) (simp add: join_one_def join_existing_def create_channel_def Let_def frame_simps
        split: option.splits join_check.splits)
  show "view (handle_join i cmd st) = view st"
    by (simp add: handle_join_def Let_def j frame_fold frame_simps split: option.splits)
  have p: "view (part_one i w r s) = view s" for w r s
    by (simp add: part_one_def Let_def frame_simps)
  show "view (handle_part i cmd st) = view st"
    by (simp add: handle_part_def p frame_fold frame_simps split: option.splits)
  show "view (handle_kick i cmd st) = view st"
    by (simp add: handle_kick_def remove_from_channel_def Let_def frame_simps split: option.splits)
  show "view (handle_away i cmd st) = view st"
    by (simp add: handle_away_def Let_def frame_simps)
qed

lemma frame_mode [frame_simps]: "view (handle_mode i cmd st) = view st"
  by (simp add: handle_mode_def mode_user_def Let_def frame_simps split: option.splits sum.splits)

lemma frame_announce [frame_simps]: "view (announce_loss_and_evict i why st) = view st"
  by (simp add: announce_loss_and_evict_def frame_fold frame_simps split: option.splits)

lemma frame_refuse: "refuse_non_oper i st = (b, s) \<Longrightarrow> view s = view st"
  using frame_output(9) [of i st] by simp

lemma frame_oper [frame_simps]:
  "view (handle_quit i cmd st) = view st" "view (handle_oper i cmd st) = view st" "view (handle_kill i cmd st) = view st"
  "view (handle_kline i cmd st) = view st" "view (handle_unkline i cmd st) = view st"
proof -
  have all: "view (fold (\<lambda>h. announce_loss_and_evict h why) hits s) = view s" for why hits s
    by (rule frame_fold) (rule frame_announce)
  show "view (handle_quit i cmd st) = view st"
    by (simp add: handle_quit_def Let_def frame_fold frame_simps split: option.splits)
  show "view (handle_oper i cmd st) = view st"
    by (simp add: handle_oper_def password_mismatch_def Let_def frame_simps split: option.splits)
  show "view (handle_kill i cmd st) = view st"
    by (auto simp: handle_kill_def kill_pattern_def kill_one_def Let_def all frame_simps dest: frame_refuse
        split: prod.splits option.splits)
  show "view (handle_kline i cmd st) = view st"
    by (auto simp: handle_kline_def Let_def all frame_simps dest: frame_refuse split: prod.splits option.splits)
  show "view (handle_unkline i cmd st) = view st"
    by (auto simp: handle_unkline_def Let_def frame_simps dest: frame_refuse split: prod.splits)
qed

lemma frame_account [frame_simps]:
  "view (apply_host_change i h st) = view st" "view (announce_account_change i a st) = view st"
  by (simp_all add: apply_host_change_def announce_account_change_def Let_def frame_fold frame_simps split: option.splits)

lemma frame_nickserv [frame_simps]: "view (handle_nickserv i t p st) = view st"
proof -
  have li: "view (ns_logged_in i n x s) = view s" for n x s
    by (simp add: ns_logged_in_def set_account_def frame_simps)
  have "view (ns_register i as st) = view st" "view (ns_identify i as st) = view st" "view (ns_logout i st) = view st"
    "view (ns_ghost i as st) = view st" "view (ns_set i as st) = view st" for as
    by (simp_all add: ns_register_def ns_identify_def ns_logout_def ns_ghost_def ns_set_def set_account_def li
        Let_def frame_simps split: option.splits sum.splits prod.splits)
  moreover have "view (nickserv_cert i as st) = view st" for as
    by (simp add: nickserv_cert_def ns_cert_add_def ns_cert_del_def Let_def frame_fold frame_simps
        split: option.splits prod.splits list.splits)
  ultimately show ?thesis by (simp add: handle_nickserv_def ns_help_def Let_def frame_simps)
qed

lemma frame_recipient [frame_simps]: "view (deliver_one_recipient i raw x p st) = view st"
proof -
  have "view s = view st" if "deliver_to_channel i raw x p st = (b, s)" for b s
    using frame_messages(4) [of i raw x p st] that by simp
  then show ?thesis
    by (auto simp: deliver_one_recipient_def frame_simps split: option.splits prod.splits)
qed

lemma frame_privmsg [frame_simps]: "view (handle_privmsg i cmd p st) = view st"
proof -
  have "view (snd (privmsg_loop i x p rs seen s)) = view s" for x rs seen s
    by (induction i x p rs seen s rule: privmsg_loop.induct) (auto simp: frame_simps)
  then have "view s' = view s" if "privmsg_loop i x p rs seen s = (b, s')" for x rs seen b s s'
    using that by (metis snd_conv)
  then show ?thesis
    by (auto simp: handle_privmsg_def reply_missing_recipient_def reply_missing_text_def Let_def frame_simps
        split: option.splits prod.splits)
qed

lemma frame_cap_sasl [frame_simps]:
  "view (handle_cap i cmd st) = view st" "view (handle_authenticate i cmd st) = view st"
  by (simp_all add: handle_cap_def cap_ls_def cap_req_def negotiating_def handle_authenticate_def finish_sasl_login_def
      select_mechanism_def set_mech_def Let_def frame_fold frame_simps split: option.splits)

lemma frame_dispatch [frame_simps]: "view (snd (dispatch i cmd st)) = view st"
  unfolding dispatch_def Let_def
  by (intro if_inv [where P = "\<lambda>s. view s = view st"]) (simp_all only: snd_continue snd_conv frame_simps)

section \<open>Sessions and sweeps\<close>

lemma frame_settle: "view (snd (settle i q st)) = view st"
proof -
  have "view (snd (finish_reply i s)) = view s" "view (snd (take_pending i b s)) = view s" for b s
    by (simp_all add: finish_reply_def next_batch_ref_def take_pending_def Let_def frame_simps split: option.split)
  then show ?thesis by (simp add: settle_def case_prod_beta)
qed

lemma frame_pong [frame_simps]: "view (on_pong i cmd st) = view st"
proof -
  have "view (pong_challenge i s) = view s" "view (pong_reclaim i s) = view s" for s
    by (simp_all add: pong_challenge_def pong_reclaim_def Let_def frame_fold_pairs frame_simps split: option.splits)
  then show ?thesis by (simp add: on_pong_def)
qed

lemma frame_run:
  "view (snd (run_command i cmd st)) = view st" "view (snd (flood_disconnect i cmd st)) = view st"
  by (simp_all add: run_command_def flood_disconnect_def Let_def case_prod_beta frame_settle frame_simps)

lemma frame_flush: "flush_pending w i p st = (gone, s) \<Longrightarrow> view s = view st"
  by (auto simp: flush_pending_def frame_simps split: option.splits wait.splits if_splits)

lemma frame_sweeps [frame_simps]:
  "view (reclaim_tick st) = view st" "view (liveness_tick st) = view st" "view (cleanup_on_eof i st) = view st"
proof -
  have "view (reclaim_one h s) = view s" for h s
    by (simp add: reclaim_one_def Let_def frame_fold_pairs frame_simps split: option.split)
  then show "view (reclaim_tick st) = view st" by (simp add: reclaim_tick_def frame_fold)
  have "view (ping_silent j s) = view s" "view (drop_unanswered j s) = view s" for j s
    by (simp_all add: ping_silent_def drop_unanswered_def Let_def frame_simps)
  then show "view (liveness_tick st) = view st" by (simp add: liveness_tick_def Let_def frame_fold frame_simps)
  show "view (cleanup_on_eof i st) = view st"
    by (simp add: cleanup_on_eof_def frame_fold frame_simps split: option.split)
qed

end

end
