(* ===== verification/Evolve.thy ===== *)
theory Evolve
  imports Frame
begin

text \<open>
  What a command can do to the connections of the server: none appears, and those that stay keep
  their id, address, certificate and time of connection. Operator status is only ever gained by
  \<^verbatim>\<open>OPER\<close>, an account only by \<^verbatim>\<open>AUTHENTICATE\<close> or a message to NickServ, each with the proof
  it asks for.
\<close>

section \<open>The connections\<close>

definition conns :: "server \<Rightarrow> cx set" where
  "conns st = set (hm_values (sv_users st)) \<union> set (hm_values (sv_unreg st))"

definition cxs :: "server \<Rightarrow> cx set" where
  "cxs st = erase ` conns st"

text \<open>\<open>P\<close> says which connection may get which account.\<close>

type_synonym logins = "nat \<Rightarrow> string option \<Rightarrow> bool"

definition tweak :: "logins \<Rightarrow> cx \<Rightarrow> cx \<Rightarrow> bool" where
  "tweak P u v \<longleftrightarrow> cx_id v = cx_id u \<and> cx_real_host v = cx_real_host u \<and> cx_cert_fp v = cx_cert_fp u
     \<and> cx_connected_at v = cx_connected_at u \<and> (cx_oper v \<longrightarrow> cx_oper u)
     \<and> (cx_account v = cx_account u \<or> P (cx_id u) (cx_account v))"

definition descends :: "logins \<Rightarrow> server \<Rightarrow> server \<Rightarrow> bool" where
  "descends P st s \<longleftrightarrow> (\<forall>v\<in>cxs s. \<exists>u\<in>cxs st. tweak P u v)"

lemma conns_core: "conns (core st) = cxs st"
  by (auto simp: conns_def cxs_def core_def hm_values_def image_Un image_iff)

lemma cxs_core: "core s = core st \<Longrightarrow> cxs s = cxs st"
  by (metis conns_core)

lemma cxs_tables: "sv_users s = sv_users st \<Longrightarrow> sv_unreg s = sv_unreg st \<Longrightarrow> cxs s = cxs st"
  by (simp add: cxs_def conns_def)

lemma erase_identity [simp]:
  "cx_real_host (erase u) = cx_real_host u" "cx_cert_fp (erase u) = cx_cert_fp u"
  "cx_connected_at (erase u) = cx_connected_at u"
  by (simp_all add: erase_def)

lemma tweak_refl [simp]: "tweak P u u"
  by (simp add: tweak_def)

lemma tweak_trans: "tweak P u v \<Longrightarrow> tweak P v w \<Longrightarrow> tweak P u w"
  by (auto simp: tweak_def)

lemma tweak_erase [simp]: "tweak P (erase u) v = tweak P u v" "tweak P u (erase v) = tweak P u v"
  by (simp_all add: tweak_def)

lemma descends_refl [simp]: "descends P st st"
  unfolding descends_def using tweak_refl by blast

lemma descends_trans: "descends P a b \<Longrightarrow> descends P b c \<Longrightarrow> descends P a c"
  unfolding descends_def by (meson tweak_trans)

lemma descends_same: "cxs s = cxs t \<Longrightarrow> descends P st s = descends P st t"
  by (simp add: descends_def)

lemma descends_conns: "descends P st s \<longleftrightarrow> (\<forall>v\<in>conns s. \<exists>u\<in>conns st. tweak P u v)"
  by (auto simp: descends_def cxs_def)

lemma descends_from:
  "conns s \<subseteq> conns st \<union> X \<Longrightarrow> (\<And>v. v \<in> X \<Longrightarrow> \<exists>u\<in>conns st. tweak P u v) \<Longrightarrow> descends P st s"
  unfolding descends_conns using tweak_refl by blast

lemma descends_insert: "conns s \<subseteq> insert v (conns st) \<Longrightarrow> u \<in> conns st \<Longrightarrow> tweak P u v \<Longrightarrow> descends P st s"
  by (rule descends_from [where X = "{v}"]) auto

lemma descends_sub: "conns s \<subseteq> conns st \<Longrightarrow> descends P st s"
  by (rule descends_from [where X = "{}"]) auto

section \<open>Elementary changes\<close>

lemma values_insert: "set (hm_values (hm_insert k v m)) \<subseteq> insert v (set (hm_values m))"
  by (induction m) (auto simp: hm_values_def)

lemma values_remove: "set (hm_values (hm_remove k m)) \<subseteq> set (hm_values m)"
  by (induction m) (auto simp: hm_values_def)

lemma values_get: "hm_get m k = Some v \<Longrightarrow> v \<in> set (hm_values m)"
  by (force simp: hm_values_def dest: map_of_SomeD)

lemma values_upd_first:
  "set (hm_values (upd_first P f m)) \<subseteq> set (hm_values m) \<union> f ` {v \<in> set (hm_values m). P v}"
proof (induction m)
  case (Cons p m)
  obtain k v where p: "p = (k, v)" by (cases p)
  with Cons show ?case by (cases "P v") (simp_all add: hm_values_def, blast+)
qed (simp add: hm_values_def)

lemma descends_upd_own:
  assumes "\<And>u. hm_get (sv_unreg s) i = Some u \<or> cx_id u = i \<Longrightarrow> tweak P u (f u)"
  shows "descends P s (upd_by_id i f s)"
proof (cases "hm_get (sv_unreg s) i")
  case None
  then have "conns (upd_by_id i f s) \<subseteq> conns s \<union> f ` {u \<in> conns s. cx_id u = i}"
    using values_upd_first [of "\<lambda>u. cx_id u = i" f "sv_users s"] by (auto simp: conns_def upd_by_id_def)
  then show ?thesis by (rule descends_from) (use assms in auto)
next
  case (Some u)
  then have "conns (upd_by_id i f s) \<subseteq> insert (f u) (conns s)"
    using values_insert [of i "f u" "sv_unreg s"] by (auto simp: conns_def upd_by_id_def)
  moreover have "u \<in> conns s" using values_get [OF Some] by (simp add: conns_def)
  ultimately show ?thesis using assms [of u] Some by (intro descends_insert) auto
qed

lemma descends_upd_by_id: "(\<And>u. tweak P u (f u)) \<Longrightarrow> descends P s (upd_by_id i f s)"
  by (rule descends_upd_own)

lemma descends_evict: "descends P s (snd (evict i s))"
  using values_remove [of i "sv_unreg s"] values_remove [of _ "sv_users s"]
  by (intro descends_sub) (auto simp: conns_def evict_def split: option.splits)

lemma descends_depart: "descends P s (depart i s)"
proof -
  have "cxs (drop_empty_channels (snd (eject_user i s))) = cxs s"
    by (rule cxs_tables) (simp_all add: drop_empty_channels_def eject_user_def)
  from descends_same [OF this] have "descends P s (drop_empty_channels (snd (eject_user i s)))" by simp
  with descends_evict show ?thesis unfolding depart_def by (rule descends_trans [rotated])
qed

lemma descends_register: "descends P s (snd (register i n u h rn s))"
proof (cases "hm_get (sv_unreg s) i")
  case None
  then show ?thesis by (simp add: register_def)
next
  case (Some c)
  let ?c = "c\<lparr>cx_nick := n, cx_nick_key := norm_nick n, cx_user := u, cx_host := h, cx_realname := rn,
     cx_registered := True\<rparr>"
  have c: "c \<in> conns s" using values_get [OF Some] by (simp add: conns_def)
  have "conns (snd (register i n u h rn s)) \<subseteq> insert ?c (conns s)"
    using c Some values_remove [of i "sv_unreg s"] values_insert [of i c "hm_remove i (sv_unreg s)"]
      values_insert [of "norm_nick n" ?c "sv_users s"]
    by (auto simp: register_def Let_def conns_def note_connection_def)
  moreover note c
  moreover have "tweak P c ?c" by (simp add: tweak_def)
  ultimately show ?thesis by (rule descends_insert)
qed

lemma descends_rename: "descends P s (apply_rename i d s)"
proof (cases "find_by_id s i")
  case (Some u0)
  let ?s1 = "record_rename (cx_nick_key u0) (norm_nick d) i s"
  have t: "sv_users ?s1 = sv_users s" "sv_unreg ?s1 = sv_unreg s"
    by (simp_all add: record_rename_def Let_def)
  show ?thesis
  proof (cases "hm_get (sv_users s) (cx_nick_key u0)")
    case None
    with Some t show ?thesis
      by (intro descends_sub) (simp add: apply_rename_def Let_def conns_def)
  next
    case u: (Some u)
    let ?u = "u\<lparr>cx_nick := d, cx_nick_key := norm_nick d\<rparr>"
    have "conns (apply_rename i d s) \<subseteq> insert ?u (conns s)"
      using Some u t values_remove [of "cx_nick_key u0" "sv_users s"]
        values_insert [of "norm_nick d" ?u "hm_remove (cx_nick_key u0) (sv_users s)"]
      by (auto simp: apply_rename_def Let_def conns_def)
    moreover have "u \<in> conns s" using values_get [OF u] by (simp add: conns_def)
    moreover have "tweak P u ?u" by (simp add: tweak_def)
    ultimately show ?thesis by (rule descends_insert)
  qed
qed (simp add: apply_rename_def)

text \<open>Under the invariant, the connections are those found by their id.\<close>

lemma conns_find: "state_inv st \<Longrightarrow> u \<in> conns st \<Longrightarrow> find_by_id st (cx_id u) = Some u"
proof (cases "u \<in> set (hm_values (sv_users st))")
  assume inv: "state_inv st"
  case True
  then obtain k where "hm_get (sv_users st) k = Some u"
    using hm_values_iff [OF state_invD(1) [OF inv]] by blast
  from find_by_id_user [OF inv this] show ?thesis by simp
next
  assume inv: "state_inv st" and "u \<in> conns st"
  case False
  with \<open>u \<in> conns st\<close> obtain k where k: "hm_get (sv_unreg st) k = Some u"
    using hm_values_iff [OF state_invD(2) [OF inv]] by (auto simp: conns_def)
  then have "cx_id u = k" using state_invD(4) [OF inv] by (simp add: ids_ok_def)
  with k show ?thesis by (simp add: find_by_id_def)
qed

lemma find_conns: "state_inv st \<Longrightarrow> find_by_id st j = Some u \<Longrightarrow> u \<in> conns st \<and> cx_id u = j"
  using find_by_id_Some [of st j u] by (auto simp: conns_def dest: values_get split: if_splits)

section \<open>Chains of changes\<close>

text \<open>The rules the command handlers are taken apart with.\<close>

lemma descends_step: "descends P st s \<Longrightarrow> descends P s t \<Longrightarrow> descends P st t"
  by (rule descends_trans)

lemma descends_upd [intro]: "descends P st s \<Longrightarrow> (\<And>u. tweak P u (f u)) \<Longrightarrow> descends P st (upd_by_id i f s)"
  by (rule descends_step [OF _ descends_upd_by_id])

lemma descends_login:
  assumes "descends P st s" "state_inv s" "\<And>u. cx_id u = i \<Longrightarrow> tweak P u (f u)"
  shows "descends P st (upd_by_id i f s)"
proof (rule descends_step [OF assms(1) descends_upd_own])
  fix u
  assume "hm_get (sv_unreg s) i = Some u \<or> cx_id u = i"
  then have "cx_id u = i" using state_invD(4) [OF assms(2)] by (auto simp: ids_ok_def)
  then show "tweak P u (f u)" by (rule assms(3))
qed

lemma descends_fold [intro]:
  "(\<And>x s. descends P st s \<Longrightarrow> descends P st (f x s)) \<Longrightarrow> descends P st s \<Longrightarrow> descends P st (fold f xs s)"
  by (induction xs arbitrary: s) auto

section \<open>Commands that leave the connections alone\<close>

text \<open>Channels, registries and links are none of their business.\<close>

interpretation cxs_view: chan_frame cxs
proof unfold_locales
  show "core s = core st \<Longrightarrow> cxs s = cxs st" for s st by (rule cxs_core)
qed (rule cxs_tables; simp)+

lemma cxs_meter [frame_simps]: "cxs (st\<lparr>sv_sources := h\<rparr>) = cxs st" "cxs (st\<lparr>sv_world := w\<rparr>) = cxs st"
  by (rule cxs_tables; simp)+

section \<open>Commands that change connections\<close>

lemmas descends_cxs = frame_simps [THEN descends_same]

lemma tweak_fields [simp]:
  "tweak P u (u\<lparr>cx_pending_nick := a\<rparr>)" "tweak P u (u\<lparr>cx_pending_user := b\<rparr>)" "tweak P u (u\<lparr>cx_away := d\<rparr>)"
  "tweak P u (u\<lparr>cx_cap_gated_welcome := e\<rparr>)" "tweak P u (u\<lparr>cx_reg_challenged := e\<rparr>)"
  "tweak P u (u\<lparr>cx_reg_verified := e\<rparr>)" "tweak P u (u\<lparr>cx_last_rx := now\<rparr>)" "tweak P u (u\<lparr>cx_batch_seq := n\<rparr>)"
  "tweak P u (u\<lparr>cx_host := h\<rparr>)" "tweak P u (u\<lparr>cx_sasl_mech := m\<rparr>)" "tweak P u (u\<lparr>cx_cap_negotiating := e\<rparr>)"
  "tweak P u (u\<lparr>cx_caps := cs\<rparr>)" "tweak P u (add_chan ck u)" "tweak P u (del_chan ck u)" "tweak P u (enqueue l u)"
  "tweak P u (enable_cap t u)"
  by (simp_all add: tweak_def add_chan_def del_chan_def enqueue_def enable_cap_def)

lemma tweak_account [simp]:
  "P (cx_id u) g \<Longrightarrow> tweak P u (u\<lparr>cx_account := g\<rparr>)"
  "P (cx_id u) g \<Longrightarrow> tweak P u (u\<lparr>cx_account := g, cx_sasl_mech := m\<rparr>)"
  by (simp_all add: tweak_def)

lemma descends_rules:
  "descends P st s \<Longrightarrow> descends P st (depart i s)" "descends P st s \<Longrightarrow> descends P st (apply_rename i d s)"
  "descends P st s \<Longrightarrow> register i n u h rn s = (r, s') \<Longrightarrow> descends P st s'"
  using descends_step [OF _ descends_depart] descends_step [OF _ descends_rename]
    descends_step [OF _ descends_register [of P s i n u h rn]] by auto

lemma descends_begin_reclaim [simp]: "descends P st (begin_reclaim occ ps rs s) = descends P st s"
  by (cases "hm_contains (sv_ping s) occ") (simp_all add: begin_reclaim_def Let_def descends_cxs)

lemma descends_welcome [simp]:
  "descends P st (welcome_sequence i s) = descends P st s" "descends P st (nickname_in_use i n s) = descends P st s"
  by (simp_all add: welcome_sequence_def nickname_in_use_def descends_cxs)

lemma descends_maybe_complete:
  assumes "descends P st s"
  shows "descends P st (maybe_complete i rn s)"
proof -
  note reg = descends_rules(3) [OF assms]
  show ?thesis
    using assms
    by (auto simp: maybe_complete_def reg_challenge_def Let_def descends_cxs intro: reg intro!: descends_upd
        split: option.splits prod.splits)
qed

lemma descends_registration:
  assumes "descends P st s"
  shows "descends P st (complete_pairing_if_ready i s)" "descends P st (finish_deferred_rename i d s)"
    "descends P st (flush_cap_gated_welcome i s)" "descends P st (handle_nick i cmd s)"
    "descends P st (handle_user i cmd s)" "descends P st (handle_pass i cmd s)"
proof -
  show "descends P st (complete_pairing_if_ready i s)"
    using assms by (simp add: complete_pairing_if_ready_def descends_maybe_complete)
  show "descends P st (finish_deferred_rename i d s)"
    using assms by (simp add: finish_deferred_rename_def descends_rules)
  show "descends P st (flush_cap_gated_welcome i s)"
    using assms by (simp add: flush_cap_gated_welcome_def descends_upd)
  show "descends P st (handle_nick i cmd s)"
    using assms
    by (auto simp: handle_nick_def rename_registered_def pair_nick_def Let_def descends_cxs descends_rules
        intro!: descends_maybe_complete descends_upd split: option.splits)
  show "descends P st (handle_user i cmd s)"
    using assms by (auto simp: handle_user_def Let_def descends_cxs intro!: descends_maybe_complete
        descends_upd split: option.splits)
  show "descends P st (handle_pass i cmd s)"
    using assms by (simp add: handle_pass_def descends_cxs)
qed

lemma descends_channels:
  assumes "descends P st s"
  shows "descends P st (handle_join i cmd s)" "descends P st (handle_part i cmd s)"
    "descends P st (handle_kick i cmd s)" "descends P st (handle_away i cmd s)"
proof -
  have "descends P st (join_one i keys e s)" if "descends P st s" for keys e s
    using that
    by (cases e) (auto simp: join_one_def join_existing_def create_channel_def Let_def descends_cxs
        split: option.splits join_check.splits)
  with assms show "descends P st (handle_join i cmd s)"
    by (auto simp: handle_join_def Let_def descends_cxs split: option.splits)
  have "descends P st (part_one i w r s)" if "descends P st s" for w r s
    using that by (auto simp: part_one_def Let_def descends_cxs)
  with assms show "descends P st (handle_part i cmd s)"
    by (auto simp: handle_part_def descends_cxs split: option.splits)
  show "descends P st (handle_kick i cmd s)"
    using assms by (auto simp: handle_kick_def remove_from_channel_def Let_def descends_cxs split: option.splits)
  show "descends P st (handle_away i cmd s)"
    using assms by (auto simp: handle_away_def Let_def descends_cxs)
qed

lemma descends_handle_mode: "descends P st s \<Longrightarrow> descends P st (handle_mode i cmd s)"
proof -
  have one: "tweak P u (apply_user_mode e u)" for e u
    by (simp add: tweak_def apply_user_mode_def split: prod.split)
  have "tweak P u (fold apply_user_mode es u)" for es u
  proof (induction es arbitrary: u)
    case (Cons e es)
    from tweak_trans [OF one Cons] show ?case by simp
  qed simp
  then show "descends P st s \<Longrightarrow> descends P st (handle_mode i cmd s)"
    by (auto simp: handle_mode_def mode_user_def Let_def descends_cxs split: option.splits sum.splits)
qed

lemma descends_announce: "descends P st s \<Longrightarrow> descends P st (announce_loss_and_evict i why s)"
  by (auto simp: announce_loss_and_evict_def descends_cxs intro!: descends_rules(1) split: option.splits)

lemma descends_refuse: "refuse_non_oper i s = (b, t) \<Longrightarrow> descends P st t = descends P st s"
  using descends_cxs(9) [of P st i s] by (metis snd_conv)

lemma descends_quit_kill:
  assumes "descends P st s"
  shows "descends P st (handle_quit i cmd s)" "descends P st (handle_kill i cmd s)"
    "descends P st (handle_kline i cmd s)" "descends P st (handle_unkline i cmd s)"
proof -
  have all: "descends P st (fold (\<lambda>h. announce_loss_and_evict h why) hits s)" if "descends P st s" for why hits s
    using that by (auto intro: descends_announce)
  show "descends P st (handle_quit i cmd s)"
    using assms by (auto simp: handle_quit_def Let_def descends_cxs intro!: descends_rules(1) split: option.splits)
  show "descends P st (handle_kill i cmd s)"
    using assms all
    by (auto simp: handle_kill_def kill_pattern_def kill_one_def Let_def descends_refuse descends_cxs
        descends_announce split: prod.splits option.splits)
  show "descends P st (handle_kline i cmd s)"
    using assms all
    by (auto simp: handle_kline_def Let_def descends_refuse descends_cxs split: prod.splits option.splits)
  show "descends P st (handle_unkline i cmd s)"
    using assms by (auto simp: handle_unkline_def Let_def descends_refuse descends_cxs split: prod.splits)
qed

lemma descends_host_change: "descends P st s \<Longrightarrow> descends P st (apply_host_change i h s)"
  by (auto simp: apply_host_change_def Let_def descends_same [OF cxs_view.frame_fold] cxs_view.frame_output(1) descends_same [OF cxs_view.frame_output(1)]
      split: option.splits)

lemma descends_account_change: "descends P st (announce_account_change i a s) = descends P st s"
  by (rule descends_same)
    (simp add: announce_account_change_def Let_def cxs_view.frame_fold cxs_view.frame_output(1) cxs_view.frame_founder split: option.splits)

text \<open>What a login with NickServ rests on, for a connection with the given nickname: the name is not
  registered yet, or the message gives the password of the account it names, which is the nickname
  when it names none.\<close>

definition nickserv_login :: "account_store \<Rightarrow> string \<Rightarrow> string \<Rightarrow> string \<Rightarrow> bool" where
  "nickserv_login s nick x a = (case split_whitespace x of
     [] \<Rightarrow> False
   | w # args \<Rightarrow>
       (uppercase w = ''REGISTER'' \<and> a = nick \<and> \<not> acct_exists s nick)
       \<or> (uppercase w \<in> {''IDENTIFY'', ''LOGIN''} \<and> (case args of
            [] \<Rightarrow> False
          | [pass] \<Rightarrow> acct_verify s nick pass \<and> acct_display_name s nick = Some a
          | name # pass # _ \<Rightarrow> acct_verify s name pass \<and> acct_display_name s name = Some a)))"

lemma acct_register_fresh: "acct_register ok salt nm pass s = Inr t \<Longrightarrow> \<not> acct_exists s nm"
  by (auto simp: acct_register_def acct_exists_def Let_def split: if_splits)

text \<open>The name and the password IDENTIFY is given.\<close>

definition ident_words :: "string \<Rightarrow> string list \<Rightarrow> string \<times> string" where
  "ident_words nick ws = (case nth_opt ws 1 of
     Some p \<Rightarrow> (str_default (first_opt ws), p)
   | None \<Rightarrow> (nick, str_default (first_opt ws)))"

lemma ident_words_login:
  assumes "ident_words nick args = (name, pass)" "pass \<noteq> []" "acct_verify s name pass" "acct_display_name s name = Some a"
    and "split_whitespace x = w # args" "uppercase w = ''IDENTIFY'' \<or> uppercase w = ''LOGIN''"
  shows "nickserv_login s nick x a"
  using assms by (cases args; cases "tl args")
    (auto simp: nickserv_login_def ident_words_def nth_opt_def first_opt_def str_default_def)

lemma descends_logged_in:
  assumes "descends P st s" "state_inv s" "P i (Some n)"
  shows "descends P st (ns_logged_in i n x s)"
proof -
  have "descends P st (set_account i (Some n) s)"
    unfolding set_account_def using assms by (intro descends_login) auto
  then show ?thesis
    by (simp add: ns_logged_in_def descends_account_change descends_host_change descends_same [OF cxs_view.frame_services(1)])
qed

lemma descends_ns:
  assumes "descends P st s" "state_inv s"
  shows "(\<not> acct_exists (sv_accounts s) (cx_opt cx_nick [] s i) \<Longrightarrow> P i (Some (cx_opt cx_nick [] s i)))
      \<Longrightarrow> descends P st (ns_register i ws s)"
    and "(\<And>name pass a. ident_words (cx_opt cx_nick [] s i) ws = (name, pass) \<Longrightarrow> pass \<noteq> []
      \<Longrightarrow> acct_verify (sv_accounts s) name pass \<Longrightarrow> acct_display_name (sv_accounts s) name = Some a \<Longrightarrow> P i (Some a))
      \<Longrightarrow> descends P st (ns_identify i ws s)"
    and "P i None \<Longrightarrow> descends P st (ns_logout i s)"
    and "descends P st (ns_ghost i ws s)" "descends P st (ns_set i ws s)" "descends P st (nickserv_cert i ws s)"
proof -
  note d = assms descends_same [OF cxs_view.frame_services(1)] descends_same [OF cxs_view.frame_fields(3)]
    descends_account_change descends_host_change descends_announce
  have acc: "descends P st (s\<lparr>sv_accounts := t\<rparr>)" for t using assms(1) by (simp add: descends_same [OF cxs_view.frame_fields(3)])
  show "descends P st (ns_register i ws s)"
    if "\<not> acct_exists (sv_accounts s) (cx_opt cx_nick [] s i) \<Longrightarrow> P i (Some (cx_opt cx_nick [] s i))"
    using that d acc
    by (auto simp: ns_register_def Let_def intro!: descends_logged_in dest: acct_register_fresh split: sum.splits)
  show "descends P st (ns_identify i ws s)"
    if known: "\<And>name pass a. ident_words (cx_opt cx_nick [] s i) ws = (name, pass) \<Longrightarrow> pass \<noteq> []
      \<Longrightarrow> acct_verify (sv_accounts s) name pass \<Longrightarrow> acct_display_name (sv_accounts s) name = Some a \<Longrightarrow> P i (Some a)"
  proof -
    obtain n p where np: "ident_words (cx_opt cx_nick [] s i) ws = (n, p)" by (metis surj_pair)
    have "descends P st (ns_logged_in i (opt_default n (acct_display_name (sv_accounts s) n)) x s)"
      if "acct_verify (sv_accounts s) n p" "p \<noteq> []" for x
      using that acct_verify_known [OF that(1)] known [OF np] assms by (intro descends_logged_in) auto
    with d(1,3) show ?thesis using np unfolding ns_identify_def ident_words_def Let_def by simp
  qed
  show "descends P st (ns_logout i s)" if "P i None"
  proof -
    have "descends P st (set_account i None s)" unfolding set_account_def using assms that by (intro descends_login) auto
    with d show ?thesis by (simp add: ns_logout_def Let_def)
  qed
  show "descends P st (ns_ghost i ws s)" "descends P st (ns_set i ws s)"
    using d by (simp_all add: ns_ghost_def ns_set_def Let_def split: option.splits sum.splits)
  have "cxs (fold (nickserv_notice i) ls s') = cxs s'" for ls s' by (rule cxs_view.frame_fold) (rule cxs_view.frame_services)
  then have "cxs (nickserv_cert i ws s) = cxs s"
    by (simp add: nickserv_cert_def ns_cert_add_def ns_cert_del_def Let_def cxs_view.frame_services(1) cxs_view.frame_fields(3)
        split: option.splits prod.splits list.splits)
  from descends_same [OF this] assms show "descends P st (nickserv_cert i ws s)" by simp
qed

lemma descends_nickserv:
  assumes "descends P st s" "state_inv s" "P i None"
    and "\<And>a. nickserv_login (sv_accounts s) (cx_opt cx_nick [] s i) x a \<Longrightarrow> P i (Some a)"
  shows "descends P st (handle_nickserv i x True s)"
proof (cases "split_whitespace x")
  case Nil
  moreover have "uppercase [] = []" by code_simp
  ultimately show ?thesis
    using assms(1) by (simp add: handle_nickserv_def ns_help_def first_opt_def str_default_def Let_def
        descends_same [OF cxs_view.frame_services(1)])
next
  case (Cons w args)
  have reg: "descends P st (ns_register i args s)" if "uppercase w = ''REGISTER''"
    using that assms(4) Cons by (intro descends_ns(1) [OF assms(1,2)]) (simp add: nickserv_login_def)
  have ident: "descends P st (ns_identify i args s)" if "uppercase w = ''IDENTIFY'' \<or> uppercase w = ''LOGIN''"
    using that assms(4) Cons by (intro descends_ns(2) [OF assms(1,2)]) (blast intro: ident_words_login)
  show ?thesis
    using reg ident descends_ns(3-) [OF assms(1,2)] assms(1,3) Cons
    by (simp add: handle_nickserv_def ns_help_def first_opt_def str_default_def Let_def
        descends_same [OF cxs_view.frame_services(1)])
qed

lemma descends_one_recipient:
  assumes "descends P st s" and "norm_nick raw = ''nickserv'' \<Longrightarrow> descends P st (handle_nickserv i x p s)"
  shows "descends P st (deliver_one_recipient i raw x p s)"
proof -
  have chn: "cxs s' = cxs s" if "deliver_to_channel i raw x p s = (b, s')" for b s'
    using cxs_view.frame_messages(4) [of i raw x p s] that by simp
  then have "descends P st s'" if "deliver_to_channel i raw x p s = (b, s')" for b s'
    using that assms descends_same by blast
  with assms show ?thesis
    by (simp add: deliver_one_recipient_def descends_cxs split: option.splits prod.splits)
qed

text \<open>Until the loop over the recipients reaches NickServ, which it does once at most, the accounts and
  the sender are as they were.\<close>

lemma cx_opt_cxs:
  assumes "state_inv s" "state_inv st" "cxs s = cxs st" "\<And>u. f (erase u) = f u"
  shows "cx_opt f d s i = cx_opt f d st i"
proof -
  have half: "\<exists>v. find_by_id b i = Some v \<and> f v = f u"
    if "state_inv a" "state_inv b" "cxs a = cxs b" "find_by_id a i = Some u" for a b u
  proof -
    from find_conns [OF that(1,4)] have "u \<in> conns a" "cx_id u = i" by blast+
    then have "erase u \<in> cxs b" using that(3) unfolding cxs_def by (metis imageI)
    then obtain v where v: "v \<in> conns b" "erase v = erase u" unfolding cxs_def by (metis imageE)
    have "cx_id v = cx_id u" using arg_cong [OF v(2), of cx_id] by simp
    moreover have "f v = f u" using arg_cong [OF v(2), of f] by (simp only: assms(4))
    ultimately show ?thesis using conns_find [OF that(2) v(1)] \<open>cx_id u = i\<close> by auto
  qed
  show ?thesis
  proof (cases "find_by_id s i")
    case None
    then have "find_by_id st i = None" using half [OF assms(2,1) assms(3) [symmetric]] by (metis not_None_eq)
    with None show ?thesis by (simp add: cx_opt_def)
  next
    case (Some u)
    with half [OF assms(1,2,3)] show ?thesis by (fastforce simp: cx_opt_def)
  qed
qed

lemma accounts_core: "core s = core st \<Longrightarrow> sv_accounts s = sv_accounts st"
  by (metis core_fields(7))

lemma accounts_chanserv: "sv_accounts (handle_chanserv i x p s) = sv_accounts s"
proof -
  note o = core_services_notice(3) [THEN accounts_core]
  have "sv_accounts (apply_founder_status i k s) = sv_accounts s" for k
    by (simp add: apply_founder_status_def upd_chan_def Let_def core_deliver [THEN accounts_core] core_fold [THEN accounts_core]
        core_relay_all [THEN accounts_core] split: option.split)
  then show ?thesis
    by (simp add: handle_chanserv_def cs_register_def cs_drop_def cs_info_def cs_op_def Let_def o
        split: option.split sum.split)
qed

lemma accounts_relay: "sv_accounts (relay_to_links i x y p s) = sv_accounts s"
  by (simp add: relay_to_links_def core_to_links [THEN accounts_core] split: prod.split)

lemma recipient_same:
  assumes "norm_nick raw \<noteq> ''nickserv''"
  shows "cxs (deliver_one_recipient i raw x p s) = cxs s" "sv_accounts (deliver_one_recipient i raw x p s) = sv_accounts s"
proof -
  have chn: "cxs s' = cxs s" "sv_accounts s' = sv_accounts s" if "deliver_to_channel i raw x p s = (b, s')" for b s'
    using cxs_view.frame_messages(4) [of i raw x p s] core_deliver_to(5) [THEN accounts_core, of i raw x p s] that by simp_all
  show "cxs (deliver_one_recipient i raw x p s) = cxs s"
    using assms chn by (simp add: deliver_one_recipient_def frame_simps split: option.splits prod.splits)
  show "sv_accounts (deliver_one_recipient i raw x p s) = sv_accounts s"
    using assms chn by (simp add: deliver_one_recipient_def accounts_chanserv accounts_relay note_message_def
        core_simps [THEN accounts_core] split: option.splits prod.splits)
qed

lemma descends_loop:
  assumes "state_inv st0"
  shows "descends P st s \<Longrightarrow> state_inv s
    \<Longrightarrow> (p \<Longrightarrow> ''nickserv'' \<in> norm_nick ` set rs \<Longrightarrow> P i None \<and>
         (\<forall>a. nickserv_login (sv_accounts st0) (cx_opt cx_nick [] st0 i) x a \<longrightarrow> P i (Some a)))
    \<Longrightarrow> (''nickserv'' \<notin> set seen \<Longrightarrow> cxs s = cxs st0 \<and> sv_accounts s = sv_accounts st0)
    \<Longrightarrow> descends P st (snd (privmsg_loop i x p rs seen s))"
proof (induction rs arbitrary: seen s)
  case (Cons raw rs)
  let ?n = "note_message s"
  have more: "p \<Longrightarrow> ''nickserv'' \<in> norm_nick ` set rs \<Longrightarrow> P i None \<and>
         (\<forall>a. nickserv_login (sv_accounts st0) (cx_opt cx_nick [] st0 i) x a \<longrightarrow> P i (Some a))" using Cons.prems(3) by simp
  note ih = Cons.IH [OF _ _ more]
  have n: "descends P st ?n" "state_inv ?n" "cxs ?n = cxs s" "sv_accounts ?n = sv_accounts s"
    using Cons.prems(1,2) by (simp_all add: descends_cxs frame_simps) (simp add: note_message_def)
  have "descends P st (handle_nickserv i x p ?n)" if "norm_nick raw = ''nickserv''" "norm_nick raw \<notin> set seen"
  proof (cases p)
    case True
    have "P i None \<and> (\<forall>a. nickserv_login (sv_accounts st0) (cx_opt cx_nick [] st0 i) x a \<longrightarrow> P i (Some a))"
      using Cons.prems(3) [OF True] that(1) by simp
    then show ?thesis unfolding eqTrueI [OF True]
      using that Cons.prems(4) n assms cx_opt_cxs [of ?n st0 cx_nick "[]" i] by (intro descends_nickserv) auto
  qed (simp add: handle_nickserv_def n(1))
  then have "descends P st (deliver_one_recipient i raw x p ?n)" if "norm_nick raw \<notin> set seen"
    using that n(1) by (intro descends_one_recipient)
  moreover have "state_inv (deliver_one_recipient i raw x p ?n)" using n(2) by (rule state_inv_one_recipient)
  moreover have "cxs (deliver_one_recipient i raw x p ?n) = cxs st0 \<and>
      sv_accounts (deliver_one_recipient i raw x p ?n) = sv_accounts st0" if "''nickserv'' \<notin> set (seen @ [norm_nick raw])"
    using that recipient_same [of raw i x p ?n] n(3,4) Cons.prems(4) by auto
  ultimately have "norm_nick raw \<notin> set seen \<Longrightarrow> descends P st (snd (privmsg_loop i x p rs (seen @ [norm_nick raw])
      (deliver_one_recipient i raw x p ?n)))"
    using ih by blast
  moreover have "descends P st (snd (privmsg_loop i x p rs seen s))" using ih Cons.prems(1,2,4) by blast
  ultimately show ?case using Cons.prems(1) by simp
qed simp

text \<open>A message with NickServ among its recipients.\<close>

definition to_nickserv :: "command \<Rightarrow> bool" where
  "to_nickserv cmd = (case first_opt (cmd_params cmd) of
     None \<Rightarrow> False | Some rs \<Rightarrow> (\<exists>raw\<in>set (split_on (CHR '','') rs). norm_nick raw = ''nickserv''))"

lemma descends_privmsg:
  assumes "descends P st s" "state_inv s"
    and "p \<Longrightarrow> to_nickserv cmd \<Longrightarrow> P i None \<and> (\<forall>a. nickserv_login (sv_accounts s) (cx_opt cx_nick [] s i)
      (str_default (nth_opt (cmd_params cmd) 1)) a \<longrightarrow> P i (Some a))"
  shows "descends P st (handle_privmsg i cmd p s)"
proof -
  have "descends P st s'" if "first_opt (cmd_params cmd) = Some rs"
    "privmsg_loop i (str_default (nth_opt (cmd_params cmd) 1)) p (filter (\<lambda>c. c \<noteq> []) (split_on (CHR '','') rs)) [] s = (b, s')"
    for rs b s'
  proof -
    have "to_nickserv cmd" if "''nickserv'' \<in> norm_nick ` set (filter (\<lambda>c. c \<noteq> []) (split_on (CHR '','') rs))"
      using that \<open>first_opt (cmd_params cmd) = Some rs\<close> by (auto simp: to_nickserv_def)
    then have "descends P st (snd (privmsg_loop i (str_default (nth_opt (cmd_params cmd) 1)) p
        (filter (\<lambda>c. c \<noteq> []) (split_on (CHR '','') rs)) [] s))"
      using assms(3) by (intro descends_loop [OF assms(2) assms(1,2)]) blast+
    with that(2) show ?thesis by simp
  qed
  with assms(1) show ?thesis
    by (auto simp: handle_privmsg_def reply_missing_recipient_def reply_missing_text_def Let_def descends_cxs
        split: option.splits prod.splits)
qed

lemma descends_cap: "descends P st s \<Longrightarrow> descends P st (handle_cap i cmd s)"
proof -
  have "descends P st (fold (\<lambda>t. upd_by_id i (enable_cap t)) ts s)" if "descends P st s" for ts s
    using that by (induction ts arbitrary: s) (auto simp: descends_upd)
  then show "descends P st s \<Longrightarrow> descends P st (handle_cap i cmd s)"
    by (simp add: handle_cap_def cap_ls_def cap_req_def negotiating_def Let_def descends_cxs
        descends_upd descends_registration(3))
qed

lemma descends_authenticate:
  assumes "descends P st s" "state_inv s"
    and "\<And>a. sasl_login s i (str_default (first_opt (cmd_params cmd))) a \<Longrightarrow> P i (Some a)"
  shows "descends P st (handle_authenticate i cmd s)"
proof -
  have "descends P st (upd_by_id i (\<lambda>u. u\<lparr>cx_account := Some disp, cx_sasl_mech := None\<rparr>) s)"
    if "check_credentials s i mech (str_default (first_opt (cmd_params cmd))) = Some disp" for mech disp
    using assms check_credentials_sound [OF that] by (intro descends_login) auto
  with assms(1) show ?thesis
    by (auto simp: handle_authenticate_def finish_sasl_login_def select_mechanism_def set_mech_def Let_def
        descends_cxs descends_upd descends_host_change split: option.splits)
qed

text \<open>The account a command of a connection may give, and to whom.\<close>

definition login :: "server \<Rightarrow> nat \<Rightarrow> command \<Rightarrow> logins" where
  "login st i cmd k acct \<longleftrightarrow> k = i \<and>
     (if cmd_name cmd = ''AUTHENTICATE''
      then (case acct of Some a \<Rightarrow> sasl_login st i (str_default (first_opt (cmd_params cmd))) a | None \<Rightarrow> False)
      else cmd_name cmd = ''PRIVMSG'' \<and> to_nickserv cmd \<and>
        (case acct of
           Some a \<Rightarrow> nickserv_login (sv_accounts st) (cx_opt cx_nick [] st i) (str_default (nth_opt (cmd_params cmd) 1)) a
         | None \<Rightarrow> True))"

lemma descends_dispatch:
  assumes "cmd_name cmd \<noteq> ''OPER''" "state_inv st"
  shows "descends (login st i cmd) st (snd (dispatch i cmd st))"
proof -
  let ?D = "descends (login st i cmd) st"
  note r = descends_refl [of "login st i cmd" st]
  have no: "(cmd_name cmd = ''OPER'') = False" using assms by simp
  have step: "?D (snd (if c then a else b))" if "c \<Longrightarrow> ?D (snd a)" "\<not> c \<Longrightarrow> ?D (snd b)" for c and a b :: "bool \<times> server"
    using that by simp
  have msg: "cmd_name cmd = ''PRIVMSG'' \<Longrightarrow> ?D (handle_privmsg i cmd True st)"
    "cmd_name cmd = ''NOTICE'' \<Longrightarrow> ?D (handle_privmsg i cmd False st)"
    "cmd_name cmd = ''AUTHENTICATE'' \<Longrightarrow> ?D (handle_authenticate i cmd st)"
    by (rule descends_privmsg descends_authenticate; use assms(2) in \<open>simp add: login_def\<close>)+
  show ?thesis
    unfolding dispatch_def Let_def no if_False
    by (intro step)
      (simp_all only: snd_continue snd_conv descends_cxs r descends_registration [OF r] msg
        descends_channels [OF r] descends_handle_mode [OF r] descends_quit_kill [OF r] descends_cap [OF r])
qed

section \<open>Operators\<close>

lemma descends_oper:
  assumes "state_inv st" "descends P st s" "state_inv s" "cx_opt cx_oper False s j"
  shows "cx_opt cx_oper False st j"
proof -
  from assms(4) obtain v where v: "find_by_id s j = Some v" "cx_oper v"
    by (auto simp: cx_opt_def split: option.splits)
  have "v \<in> conns s" "cx_id v = j" using find_conns [OF assms(3) v(1)] by simp_all
  with assms(2) obtain u where u: "u \<in> conns st" "tweak P u v" unfolding descends_conns by blast
  have "cx_id u = j" "cx_oper u" using u(2) v(2) \<open>cx_id v = j\<close> by (auto simp: tweak_def)
  with conns_find [OF assms(1) u(1)] show ?thesis by (simp add: cx_opt_def)
qed

lemma oper_core: "core s = core st \<Longrightarrow> cx_opt cx_oper False s j = cx_opt cx_oper False st j"
  by (rule cx_opt_core) simp_all

lemma handle_oper_gain:
  assumes inv: "state_inv st" and gain: "cx_opt cx_oper False (handle_oper i cmd st) j" "\<not> cx_opt cx_oper False st j"
  shows "j = i \<and> first_opt (cmd_params cmd) = Some (oper_user (sv_conf st))
    \<and> nth_opt (cmd_params cmd) 1 = Some (oper_pass (sv_conf st))"
proof -
  have changed: "core (handle_oper i cmd st) \<noteq> core st"
    using gain oper_core [of "handle_oper i cmd st" st j] by auto
  then obtain user where u: "first_opt (cmd_params cmd) = Some user"
    by (cases "first_opt (cmd_params cmd)") (simp_all add: handle_oper_def core_simps)
  let ?pass = "str_default (nth_opt (cmd_params cmd) 1)"
  let ?good = "constant_time_eq (as_bytes user) (as_bytes (oper_user (sv_conf st)))
    \<and> constant_time_eq (as_bytes ?pass) (as_bytes (oper_pass (sv_conf st)))"
  have "core (handle_oper i cmd st) = core st" if "?pass = [] \<or> \<not> ?good"
    using that u by (auto simp: handle_oper_def Let_def core_simps)
  with changed have good: "?pass \<noteq> []" ?good by auto
  let ?s1 = "snote (cx_opt cx_nick [] st i @ '' is now an IRC operator'') st"
  let ?s2 = "upd_by_id i (\<lambda>u. u\<lparr>cx_oper := True\<rparr>) ?s1"
  have "cx_opt cx_oper False (handle_oper i cmd st) j = cx_opt cx_oper False ?s2 j"
    by (rule oper_core) (use u good in \<open>simp add: handle_oper_def Let_def core_simps\<close>)
  moreover have "cx_opt cx_oper False ?s2 j = (if j = i then cx_opt (\<lambda>_. True) False ?s1 j else cx_opt cx_oper False ?s1 j)"
    using find_by_id_upd [of ?s1 "\<lambda>u. u\<lparr>cx_oper := True\<rparr>" i j] inv by (simp add: cx_opt_def split: option.splits)
  moreover have "cx_opt cx_oper False ?s1 j = cx_opt cx_oper False st j" by (rule oper_core) (simp add: core_simps)
  ultimately have "j = i" using gain by (auto split: if_splits)
  with u good show ?thesis
    by (cases "nth_opt (cmd_params cmd) 1") (auto simp: constant_time_eq_iff str_default_def as_bytes_inj)
qed

lemma dispatch_oper_gain:
  assumes inv: "state_inv st" and gate: "open_command (cmd_name cmd) \<or> cx_opt cx_registered False st i"
    and gain: "cx_opt cx_oper False (snd (dispatch i cmd st)) j" "\<not> cx_opt cx_oper False st j"
  shows "cmd_name cmd = ''OPER'' \<and> j = i \<and> first_opt (cmd_params cmd) = Some (oper_user (sv_conf st))
    \<and> nth_opt (cmd_params cmd) 1 = Some (oper_pass (sv_conf st))"
proof (cases "cmd_name cmd = ''OPER''")
  case True
  then have "snd (dispatch i cmd st) = handle_oper i cmd st" by (simp add: dispatch_def)
  with handle_oper_gain [OF inv] gain True show ?thesis by simp
next
  case False
  from descends_oper [OF inv descends_dispatch [OF False inv] state_inv_dispatch [OF inv gate]] gain
  show ?thesis by blast
qed

section \<open>Sessions and sweeps\<close>

text \<open>Ids of connections; no command makes a new one.\<close>

definition conn_ids :: "server \<Rightarrow> nat set" where
  "conn_ids st = cx_id ` cxs st"

lemma conn_ids_conns: "conn_ids st = cx_id ` conns st"
  by (simp add: conn_ids_def cxs_def image_image)

lemma conn_ids_descends: "descends P st s \<Longrightarrow> conn_ids s \<subseteq> conn_ids st"
  by (fastforce simp: conn_ids_def descends_def tweak_def)

lemma conn_ids_cxs: "cxs s = cxs st \<Longrightarrow> conn_ids s = conn_ids st"
  by (simp add: conn_ids_def)

lemma conns_upd: "conns (upd_by_id i f s) \<subseteq> conns s \<union> f ` conns s"
proof (cases "hm_get (sv_unreg s) i")
  case None
  then show ?thesis
    using values_upd_first [of "\<lambda>u. cx_id u = i" f "sv_users s"] by (auto simp: conns_def upd_by_id_def)
next
  case (Some u)
  then show ?thesis
    using values_insert [of i "f u" "sv_unreg s"] values_get [OF Some] by (auto simp: conns_def upd_by_id_def)
qed

lemma conn_ids_upd: "(\<And>u. cx_id (f u) = cx_id u) \<Longrightarrow> conn_ids (upd_by_id i f s) \<subseteq> conn_ids s"
proof -
  assume f: "\<And>u. cx_id (f u) = cx_id u"
  have "conns (upd_by_id i f s) \<subseteq> conns s \<union> f ` conns s" by (rule conns_upd)
  then have "cx_id ` conns (upd_by_id i f s) \<subseteq> cx_id ` conns s \<union> cx_id ` f ` conns s" by blast
  also have "cx_id ` f ` conns s = cx_id ` conns s" by (simp add: image_image f)
  finally show ?thesis by (simp add: conn_ids_conns)
qed

lemma conn_ids_dispatch:
  assumes "state_inv st"
  shows "conn_ids (snd (dispatch i cmd st)) \<subseteq> conn_ids st"
proof (cases "cmd_name cmd = ''OPER''")
  case True
  let ?s = "snote (cx_opt cx_nick [] st i @ '' is now an IRC operator'') st"
  have "conn_ids (upd_by_id i (\<lambda>u. u\<lparr>cx_oper := True\<rparr>) ?s) \<subseteq> conn_ids ?s"
    by (rule conn_ids_upd) simp
  then have "conn_ids (handle_oper i cmd st) \<subseteq> conn_ids st"
    by (cases "first_opt (cmd_params cmd)")
      (simp_all add: handle_oper_def password_mismatch_def Let_def cxs_view.frame_output [THEN conn_ids_cxs])
  with True show ?thesis by (simp add: dispatch_def)
qed (rule conn_ids_descends [OF descends_dispatch [OF _ assms]])

lemma conn_ids_settle: "conn_ids (snd (settle i q st)) \<subseteq> conn_ids st"
proof -
  have fin: "conn_ids (snd (finish_reply i st)) \<subseteq> conn_ids st"
  proof -
    have "descends P st (snd (finish_reply i st))"
      by (simp add: finish_reply_def next_batch_ref_def Let_def descends_upd descends_cxs)
    then show ?thesis by (rule conn_ids_descends)
  qed
  have "descends P s (snd (take_pending i b s))" for b s
    by (simp add: take_pending_def descends_upd split: option.split)
  then have "conn_ids (snd (take_pending i b s)) \<subseteq> conn_ids s" for b s by (rule conn_ids_descends)
  with fin show ?thesis by (fastforce simp: settle_def case_prod_beta)
qed

lemma descends_on_pong: "descends P st (on_pong i cmd st)"
proof -
  have "descends P st (pong_challenge i st)"
    by (simp add: pong_challenge_def descends_registration(1) descends_upd)
  moreover have "descends P st (pong_reclaim i s)" if "descends P st s" for s
    using that by (auto simp: pong_reclaim_def Let_def descends_cxs intro!: descends_fold split: option.splits)
  ultimately show ?thesis by (simp add: on_pong_def)
qed

lemma conn_ids_route:
  assumes "state_inv st"
  shows "conn_ids (snd (snd (route i cmd s st))) \<subseteq> conn_ids st"
proof -
  let ?st1 = "upd_by_id i (\<lambda>u. u\<lparr>cx_last_rx := sv_now st\<rparr>) st"
  obtain v st2 where c: "charge_source i s ?st1 = (v, st2)" by (cases "charge_source i s ?st1")
  have "descends P st ?st1" by (simp add: descends_upd)
  then have one: "conn_ids ?st1 \<subseteq> conn_ids st" by (rule conn_ids_descends)
  have "cxs st2 = cxs ?st1" using c by (auto simp: charge_source_def frame_simps split: if_splits prod.splits)
  from conn_ids_cxs [OF this] one have two: "conn_ids st2 \<subseteq> conn_ids st" by simp
  have "state_inv ?st1" using assms by (simp add: state_inv_upd_by_id)
  then have inv2: "state_inv st2" using c state_inv_charge_source [of i s ?st1] by simp
  have "conn_ids (snd (flood_disconnect i cmd st2)) \<subseteq> conn_ids st2"
    using conn_ids_settle [of i True "deliver i (proto_line [] ''ERROR'' '':Excess flood'') (begin_reply i cmd st2)"]
    by (simp add: flood_disconnect_def conn_ids_cxs [OF cxs_view.frame_output(1)] conn_ids_cxs [OF cxs_view.frame_session(1)])
  moreover have "conn_ids (snd (run_command i cmd st2)) \<subseteq> conn_ids st2"
  proof -
    let ?b = "begin_reply i cmd st2"
    have "conn_ids (snd (dispatch i cmd (on_pong i cmd ?b))) \<subseteq> conn_ids st2"
    proof (rule subset_trans [OF conn_ids_dispatch])
      show "state_inv (on_pong i cmd ?b)" using inv2 by (intro state_inv_on_pong) simp
      have "conn_ids (on_pong i cmd ?b) \<subseteq> conn_ids ?b" by (rule conn_ids_descends) (rule descends_on_pong)
      also have "conn_ids ?b = conn_ids st2" by (rule conn_ids_cxs) (rule cxs_view.frame_session)
      finally show "conn_ids (on_pong i cmd ?b) \<subseteq> conn_ids st2" .
    qed
    with conn_ids_settle have "conn_ids (snd (settle i q (snd (dispatch i cmd (on_pong i cmd ?b))))) \<subseteq> conn_ids st2" for q
      by (rule subset_trans)
    moreover have "conn_ids (snd (settle i False (deliver_not_registered i ?b))) \<subseteq> conn_ids st2"
      using conn_ids_settle [of i False "deliver_not_registered i ?b"]
      by (simp add: cxs_view.frame_session [THEN conn_ids_cxs])
    ultimately show ?thesis by (simp add: run_command_def Let_def case_prod_beta)
  qed
  ultimately show ?thesis
    using two c by (cases v) (auto simp: route_def Let_def split: prod.splits bool.splits)
qed

lemma descends_sweeps:
  "descends P st (reclaim_tick st)" "descends P st (liveness_tick st)" "descends P st (cleanup_on_eof i st)"
proof -
  have "descends P st (reclaim_one h s)" if "descends P st s" for h s
    using that
    by (auto simp: reclaim_one_def Let_def descends_cxs intro!: descends_fold descends_announce
        descends_registration(1,2) split: option.split)
  then show "descends P st (reclaim_tick st)" unfolding reclaim_tick_def by (intro descends_fold) auto
  have ping: "descends P st (ping_silent j s) = descends P st s" for j s
    by (simp add: ping_silent_def Let_def descends_cxs)
  show "descends P st (liveness_tick st)"
    unfolding liveness_tick_def Let_def drop_unanswered_def
    by (intro descends_fold) (auto simp: ping descends_cxs descends_announce)
  show "descends P st (cleanup_on_eof i st)"
    unfolding cleanup_on_eof_def
    by (auto simp: descends_cxs intro!: descends_rules(1) descends_fold split: option.split)
qed

end
