(* ===== verification/Proxyproto.thy ===== *)
theory Proxyproto
  imports Netaddr
begin

text \<open>
  The PROXY protocol reader of \<^verbatim>\<open>src/proxyproto.rs\<close>. A socket is the sequence of the
  results its reads will give; reading past the sequence is a read that has not completed, the
  result \<open>None\<close> of the readers.
\<close>

section \<open>The header line\<close>

datatype header = Source string | Unknown | Invalid | Empty

abbreviation MAX_V1_HEADER :: nat where "MAX_V1_HEADER \<equiv> 107"

definition V2_SIGNATURE :: string where
  "V2_SIGNATURE = [CHR 0x0D, CHR 0x0A, CHR 0x0D, CHR 0x0A, CHR 0x00, CHR 0x0D, CHR 0x0A]
     @ ''QUIT'' @ [CHR 0x0A]"

definition port_ok :: "string \<Rightarrow> bool" where
  "port_ok p \<longleftrightarrow> p \<noteq> [] \<and> list_all is_digit p"

definition parse_v1 :: "string \<Rightarrow> header" where
  "parse_v1 line =
     (if starts_with V2_SIGNATURE line then Invalid
      else if \<not> is_utf8 line then Invalid
      else case strip_prefix ''PROXY '' line of
        None \<Rightarrow> Invalid
      | Some rest \<Rightarrow>
        (case split_on (CHR '' '') rest of
           [] \<Rightarrow> Invalid
         | proto # parts \<Rightarrow>
           (if proto = ''UNKNOWN'' then Unknown
            else if proto \<noteq> ''TCP4'' \<and> proto \<noteq> ''TCP6'' then Invalid
            else case parts of
              [] \<Rightarrow> Invalid
            | src # fields \<Rightarrow>
              (if src = [] then Invalid
               else case fields of
                 [dst, sport, dport] \<Rightarrow>
                   (if \<not> port_ok sport \<or> \<not> port_ok dport then Invalid
                    else if \<not> (if proto = ''TCP4'' then parse_ipv4 src \<noteq> None else parse_ipv6 src \<noteq> None)
                    then Invalid
                    else Source src)
               | _ \<Rightarrow> Invalid))))"

section \<open>Reading from a socket\<close>

datatype read_result = Byte char | Eof | Failed

fun read_v1 :: "string \<Rightarrow> read_result list \<Rightarrow> (header \<times> read_result list) option" where
  "read_v1 line [] = None"
| "read_v1 line (Eof # rs) = Some (if line = [] then Empty else Invalid, rs)"
| "read_v1 line (Failed # rs) = Some (if line = [] then Empty else Invalid, rs)"
| "read_v1 line (Byte b # rs) =
     (let l = line @ [b]
      in if 2 \<le> length l \<and> l ! (length l - 2) = CHR 0x0D \<and> l ! (length l - 1) = CHR 0x0A
         then Some (parse_v1 (take (length l - 2) l), rs)
         else if MAX_V1_HEADER \<le> length l then Some (Invalid, rs)
         else read_v1 l rs)"

text \<open>\<^verbatim>\<open>peek_is_header\<close>: each look gives the first bytes received so far, at most six.\<close>

datatype peek = PeekHeader | PeekOther | PeekClosed
datatype look = Saw string | LookFailed

abbreviation SIG :: string where "SIG \<equiv> ''PROXY ''"

fun peek_loop :: "nat \<Rightarrow> nat \<Rightarrow> look list \<Rightarrow> peek option" where
  "peek_loop 0 seen ls = Some PeekOther"
| "peek_loop (Suc n) seen [] = None"
| "peek_loop (Suc n) seen (LookFailed # ls) = Some (if seen = 0 then PeekClosed else PeekOther)"
| "peek_loop (Suc n) seen (Saw buf # ls) =
     (if buf = [] then Some (if seen = 0 then PeekClosed else PeekOther)
      else
        let checked = min (length buf) (length SIG)
        in if take checked buf \<noteq> take checked SIG then Some PeekOther
           else if length SIG \<le> length buf then Some PeekHeader
           else peek_loop n (length buf) ls)"

definition peek_is_header :: "look list \<Rightarrow> peek option" where
  "peek_is_header ls = peek_loop 64 0 ls"

section \<open>What an accepted header guarantees\<close>

lemma join_split: "join_with [c] (split_on c xs) = xs"
proof (induction xs)
  case Nil
  then show ?case by simp
next
  case (Cons x xs)
  obtain w ws where w: "split_on c xs = w # ws" by (cases "split_on c xs") auto
  with Cons show ?case by (cases ws) auto
qed

lemma strip_prefix_Some: "strip_prefix p s = Some r \<Longrightarrow> s = p @ r"
  by (auto simp: strip_prefix_def split: if_splits) (metis append_take_drop_id)

lemma parse_v1_Source:
  assumes "parse_v1 line = Source src"
  obtains proto dst sport dport where
    "line = ''PROXY '' @ join_with '' '' [proto, src, dst, sport, dport]"
    "proto = ''TCP4'' \<and> parse_ipv4 src \<noteq> None \<or> proto = ''TCP6'' \<and> parse_ipv6 src \<noteq> None"
    "port_ok sport" "port_ok dport" "CHR '' '' \<notin> set src"
proof -
  from assms obtain rest where rest: "strip_prefix ''PROXY '' line = Some rest"
    by (auto simp: parse_v1_def split: if_splits option.splits)
  from assms rest obtain proto dst sport dport where
    parts: "split_on (CHR '' '') rest = [proto, src, dst, sport, dport]"
    and ok: "port_ok sport" "port_ok dport"
    and fam: "proto = ''TCP4'' \<and> parse_ipv4 src \<noteq> None \<or> proto = ''TCP6'' \<and> parse_ipv6 src \<noteq> None"
    by (auto simp: parse_v1_def split: if_splits list.splits)
  have "rest = join_with '' '' [proto, src, dst, sport, dport]"
    using join_split [of "CHR '' ''" rest] parts by simp
  then have line: "line = ''PROXY '' @ join_with '' '' [proto, src, dst, sport, dport]"
    using strip_prefix_Some [OF rest] by simp
  have "CHR '' '' \<notin> set src"
    using split_on_pieces [of src "CHR '' ''" rest] parts by simp
  then show thesis using that line fam ok by blast
qed

text \<open>A header line is found: nothing beyond its terminator is consumed.\<close>

lemma read_v1_line:
  assumes "\<And>i. i < length line \<Longrightarrow> line ! i \<noteq> CHR 0x0A" "length (acc @ line) + 2 \<le> MAX_V1_HEADER"
    and "CHR 0x0A \<notin> set acc"
  shows "read_v1 acc (map Byte (line @ [CHR 0x0D, CHR 0x0A]) @ rs) = Some (parse_v1 (acc @ line), rs)"
  using assms
proof (induction line arbitrary: acc)
  case Nil
  then show ?case by (simp add: nth_append Let_def)
next
  case (Cons b line)
  have b: "b \<noteq> CHR 0x0A" using Cons.prems(1) [of 0] by simp
  have "read_v1 (acc @ [b]) (map Byte (line @ [CHR 0x0D, CHR 0x0A]) @ rs)
      = Some (parse_v1 ((acc @ [b]) @ line), rs)"
  proof (rule Cons.IH)
    show "line ! i \<noteq> CHR 0x0A" if "i < length line" for i
      using Cons.prems(1) [of "Suc i"] that by simp
  qed (use Cons.prems b in auto)
  moreover have "\<not> MAX_V1_HEADER \<le> length (acc @ [b])" using Cons.prems(2) by simp
  ultimately show ?case using b by (simp add: Let_def nth_append)
qed

text \<open>The reader decides after at most 107 reads.\<close>

lemma read_v1_decides:
  "length acc < MAX_V1_HEADER \<Longrightarrow> MAX_V1_HEADER - length acc \<le> length rs \<Longrightarrow>
     \<exists>h rest. read_v1 acc rs = Some (h, rest) \<and> length rs - length rest \<le> MAX_V1_HEADER - length acc"
proof (induction rs arbitrary: acc)
  case Nil
  then show ?case by simp
next
  case (Cons r rs)
  show ?case
  proof (cases "\<exists>h. read_v1 acc (r # rs) = Some (h, rs)")
    case True
    then show ?thesis using Cons.prems by auto
  next
    case False
    then obtain b where go: "read_v1 acc (r # rs) = read_v1 (acc @ [b]) rs"
      and small: "length (acc @ [b]) < MAX_V1_HEADER"
      by (cases r) (auto simp: Let_def split: if_splits)
    have "MAX_V1_HEADER - length (acc @ [b]) \<le> length rs" using Cons.prems(2) by simp
    then obtain h rest where "read_v1 (acc @ [b]) rs = Some (h, rest)"
      and "length rs - length rest \<le> MAX_V1_HEADER - length (acc @ [b])"
      using Cons.IH [OF small] by blast
    with go small show ?thesis by auto
  qed
qed

end
