(* ===== verification/Admission.thy ===== *)
theory Admission
  imports Services Proxyproto
begin

text \<open>
  The way of a connection from accept to session (\<^verbatim>\<open>src/ops.rs\<close>, \<^verbatim>\<open>admit_and_run\<close>):
  the PROXY header resolves the client's address, bans and limits are applied to it, the TLS
  handshake follows, and the slot is released when the session ends. What the socket gives (the
  peek, the header, the handshake) is an argument.
\<close>

section \<open>Listener configuration\<close>

datatype proxy_mode = ProxyOff | ProxyOptional | ProxyRequired

definition parse_mode :: "string \<Rightarrow> proxy_mode" where
  "parse_mode raw =
     (if raw \<in> {''1'', ''true'', ''yes'', ''on'', ''required''} then ProxyRequired
      else if raw \<in> {''optional'', ''detect''} then ProxyOptional
      else ProxyOff)"

definition plain_proxy_mode :: "environ \<Rightarrow> proxy_mode" where
  "plain_proxy_mode env = parse_mode (str_default (env ''IRC_PROXY_PROTOCOL''))"

definition tls_proxy_mode :: "environ \<Rightarrow> proxy_mode" where
  "tls_proxy_mode env = (case env ''IRC_TLS_PROXY_PROTOCOL'' of
     Some v \<Rightarrow> parse_mode v | None \<Rightarrow> plain_proxy_mode env)"

definition proxy_trust_configured :: "environ \<Rightarrow> bool" where
  "proxy_trust_configured env = (case env ''IRC_PROXY_TRUSTED'' of
     Some l \<Rightarrow> trim l \<noteq> [] | None \<Rightarrow> False)"

definition proxy_trusted_peer :: "environ \<Rightarrow> string \<Rightarrow> bool" where
  "proxy_trusted_peer env peer = (case env ''IRC_PROXY_TRUSTED'' of
     Some l \<Rightarrow> (if trim l \<noteq> []
       then list_ex (\<lambda>p. p \<noteq> [] \<and> glob_match p peer) (map trim (split_on (CHR '','') l)) else True)
   | None \<Rightarrow> True)"

definition proxy_exempt_peer :: "environ \<Rightarrow> string \<Rightarrow> bool" where
  "proxy_exempt_peer env peer = (case env ''IRC_PROXY_PROTOCOL_EXEMPT'' of
     Some l \<Rightarrow> list_ex (\<lambda>e. e \<noteq> [] \<and> e = peer) (map trim (split_on (CHR '','') l))
   | None \<Rightarrow> False)"

section \<open>The client's address\<close>

text \<open>Close without a word, refuse with a reason, or go on with an address and whether it came
  from a header on a path that is explicitly trusted. \<open>None\<close> for the peek is the ten-second
  timeout, and for the header too, which then counts as invalid.\<close>

datatype resolved = Quiet | Refuse string | Address string bool

definition resolve_header :: "environ \<Rightarrow> string \<Rightarrow> header option \<Rightarrow> resolved" where
  "resolve_header env peer hdr =
     (if \<not> proxy_trusted_peer env peer
      then Refuse ''PROXY protocol header not accepted from this address''
      else case opt_default Invalid hdr of
        Source addr \<Rightarrow> Address addr (proxy_trust_configured env)
      | Unknown \<Rightarrow> Refuse ''PROXY protocol header carries no client address''
      | Empty \<Rightarrow> Quiet
      | Invalid \<Rightarrow> Refuse ''Malformed PROXY protocol header'')"

definition resolve_address :: "environ \<Rightarrow> bool \<Rightarrow> string \<Rightarrow> peek option \<Rightarrow> header option \<Rightarrow> resolved" where
  "resolve_address env is_tls peer peeked hdr =
     (let mode = (if is_tls then tls_proxy_mode env else plain_proxy_mode env)
      in if mode = ProxyOff \<or> proxy_exempt_peer env peer then Address peer False
         else case peeked of
           None \<Rightarrow> Quiet
         | Some PeekHeader \<Rightarrow> resolve_header env peer hdr
         | Some PeekClosed \<Rightarrow> Quiet
         | Some PeekOther \<Rightarrow>
             (if mode = ProxyRequired then Refuse ''PROXY protocol header required''
              else Address peer False))"

section \<open>Bans and limits\<close>

record ticket =
  tk_peer :: string
  tk_real_host :: string
  tk_limit_key :: string
  tk_exempt :: bool

definition exempt_key :: "string \<Rightarrow> string \<Rightarrow> bool \<Rightarrow> string" where
  "exempt_key peer real_host trusted = (if trusted then source_key real_host else peer)"

definition make_ticket :: "server \<Rightarrow> string \<Rightarrow> string \<Rightarrow> bool \<Rightarrow> ticket" where
  "make_ticket st peer real_host trusted =
     \<lparr>tk_peer = peer, tk_real_host = real_host, tk_limit_key = source_key real_host,
      tk_exempt = is_exempt (sv_limits st) (exempt_key peer real_host trusted)\<rparr>"

datatype deny = Banned string | Limited refusal

fun deny_message :: "deny \<Rightarrow> string" where
  "deny_message (Banned why) = ''Banned: '' @ why"
| "deny_message (Limited why) = refusal_message why"

definition decide :: "ticket \<Rightarrow> server \<Rightarrow> deny option \<times> server" where
  "decide tk st = (case ban_matching (sv_unix st) (tk_real_host tk) (sv_bans st) of
     (hit, b) \<Rightarrow>
       (let st1 = st\<lparr>sv_bans := b\<rparr>
        in case hit of
             Some ban \<Rightarrow> (Some (Banned (reason ban)), st1)
           | None \<Rightarrow>
               (case try_admit (sv_limits st1) (tk_limit_key tk) (tk_exempt tk) (sv_now st1) (sv_sources st1) of
                  (res, t) \<Rightarrow>
                    (case res of Inl why \<Rightarrow> Some (Limited why) | Inr _ \<Rightarrow> None, st1\<lparr>sv_sources := t\<rparr>))))"

text \<open>What is written to a refused client: nothing on the TLS port.\<close>

definition refuse_line :: "bool \<Rightarrow> string \<Rightarrow> string" where
  "refuse_line is_tls why = (if is_tls then [] else ''ERROR :'' @ why @ crlf)"

datatype admit_outcome = Dropped string | Accepted ticket

definition admit ::
    "bool \<Rightarrow> string \<Rightarrow> peek option \<Rightarrow> header option \<Rightarrow> server \<Rightarrow> admit_outcome \<times> server" where
  "admit is_tls peer peeked hdr st = (case resolve_address (sv_env st) is_tls peer peeked hdr of
     Quiet \<Rightarrow> (Dropped [], st)
   | Refuse why \<Rightarrow> (Dropped (refuse_line is_tls why), st)
   | Address real_host trusted \<Rightarrow>
       (let tk = make_ticket st peer real_host trusted
        in case decide tk st of
             (Some why, st1) \<Rightarrow> (Dropped (refuse_line is_tls (deny_message why)), st1)
           | (None, st1) \<Rightarrow> (Accepted tk, st1)))"

section \<open>The handshake and the end of the session\<close>

text \<open>After admission a TLS connection is peeked: a peer that has sent nothing ends there; the
  handshake fails, or gives the certificate of the peer. A plaintext connection has no handshake.\<close>

datatype handshake = Plaintext | TlsProbe | TlsFailed | TlsUp "u8 list option"

definition cert_fingerprint :: "u8 list option \<Rightarrow> string option" where
  "cert_fingerprint leaf = map_option (\<lambda>c. hex (sha256 c)) leaf"

text \<open>The session that follows: its certificate fingerprint, or none at all.\<close>

fun session_of :: "handshake \<Rightarrow> string option option" where
  "session_of Plaintext = Some None"
| "session_of TlsProbe = None"
| "session_of TlsFailed = None"
| "session_of (TlsUp leaf) = Some (cert_fingerprint leaf)"

definition release_ticket :: "ticket \<Rightarrow> server \<Rightarrow> server" where
  "release_ticket tk st = st\<lparr>sv_sources := release (sv_limits st) (tk_limit_key tk) (tk_exempt tk)
     (sv_now st) (sv_sources st)\<rparr>"

text \<open>What becomes of the slot when no session runs.\<close>

definition after_handshake :: "handshake \<Rightarrow> ticket \<Rightarrow> server \<Rightarrow> server" where
  "after_handshake h tk st = (case h of TlsFailed \<Rightarrow> release_ticket tk st | _ \<Rightarrow> st)"

section \<open>What admission guarantees\<close>

lemma resolve_required:
  assumes "resolve_address env tls peer peeked hdr = Address addr trusted"
    and "(if tls then tls_proxy_mode env else plain_proxy_mode env) = ProxyRequired"
    and "\<not> proxy_exempt_peer env peer"
  shows "peeked = Some PeekHeader \<and> hdr = Some (Source addr) \<and> proxy_trusted_peer env peer"
  using assms
  by (auto simp: resolve_address_def resolve_header_def Let_def
      split: option.splits peek.splits if_splits header.splits)

lemma resolve_trusted:
  assumes "resolve_address env tls peer peeked hdr = Address addr True"
  shows "hdr = Some (Source addr) \<and> proxy_trust_configured env \<and> proxy_trusted_peer env peer"
  using assms
  by (auto simp: resolve_address_def resolve_header_def Let_def
      split: option.splits peek.splits if_splits header.splits)

lemma resolve_source:
  assumes "resolve_address env tls peer peeked hdr = Address addr trusted"
  shows "addr = peer \<and> \<not> trusted \<or> hdr = Some (Source addr) \<and> proxy_trusted_peer env peer"
  using assms
  by (auto simp: resolve_address_def resolve_header_def Let_def
      split: option.splits peek.splits if_splits header.splits)

lemma decide_admits:
  assumes "decide tk st = (None, st')"
  shows "\<forall>b\<in>set (bans (ban_expire (sv_unix st) (sv_bans st))). \<not> glob_match (ban_mask b) (tk_real_host tk)"
    and "fst (try_admit (sv_limits st) (tk_limit_key tk) (tk_exempt tk) (sv_now st) (sv_sources st)) = Inr ()"
  using assms
  by (auto simp: decide_def ban_matching_def Let_def find_None_iff split: option.splits prod.splits sum.splits)

lemma admit_Accepted:
  assumes "admit tls peer peeked hdr st = (Accepted tk, st')"
  shows "\<exists>addr trusted. resolve_address (sv_env st) tls peer peeked hdr = Address addr trusted
     \<and> tk = make_ticket st peer addr trusted \<and> decide tk st = (None, st')"
  using assms by (auto simp: admit_def Let_def split: resolved.splits prod.splits option.splits)

text \<open>Admission changes the bans that have expired and the source table, and nothing else.\<close>

lemma admit_same:
  "sv_users (snd (admit tls peer pk hdr st)) = sv_users st"
  "sv_unreg (snd (admit tls peer pk hdr st)) = sv_unreg st"
  "sv_chans (snd (admit tls peer pk hdr st)) = sv_chans st"
  "sv_history (snd (admit tls peer pk hdr st)) = sv_history st"
  by (auto simp: admit_def decide_def Let_def split: resolved.splits prod.splits option.splits sum.splits)

end
