(* ===== verification/System.thy ===== *)
theory System
  imports Evolve Remote Admission Transition
begin

text \<open>
  The daemon as a transition system: connections being accepted, admitted, read from and closed,
  writers, the periodic sweeps and server links, in any order. A step is what one task does while
  it holds the state lock, or the work of a reader between two lines.
\<close>

section \<open>Tasks\<close>

text \<open>How far a connection has come. The last component of \<open>Reading\<close> is a reply waiting for
  room in the queue, with whether the session ends after it.\<close>

datatype stage =
    Spawned
  | Handshaking ticket
  | Reading ticket session "(string \<times> bool) option"
  | Closing ticket

record daemon =
  dm_server :: server
  dm_next :: nat
  dm_conns :: "(nat, stage) hmap"
  dm_links :: "(link_task \<times> event list) list"

abbreviation REPLY_QUEUE :: nat where "REPLY_QUEUE \<equiv> 512"
abbreviation MAX_BUFFER :: nat where "MAX_BUFFER \<equiv> 65536"
abbreviation READ_CHUNK :: nat where "READ_CHUNK \<equiv> 8192"

definition put_stage :: "nat \<Rightarrow> stage \<Rightarrow> daemon \<Rightarrow> daemon" where
  "put_stage i g d = d\<lparr>dm_conns := hm_insert i g (dm_conns d)\<rparr>"

definition end_task :: "nat \<Rightarrow> daemon \<Rightarrow> daemon" where
  "end_task i d = d\<lparr>dm_conns := hm_remove i (dm_conns d)\<rparr>"

definition put_server :: "server \<Rightarrow> daemon \<Rightarrow> daemon" where
  "put_server st d = d\<lparr>dm_server := st\<rparr>"

definition end_reader :: "nat \<Rightarrow> ticket \<Rightarrow> server \<Rightarrow> daemon \<Rightarrow> daemon" where
  "end_reader i tk st d = put_stage i (Closing tk) (put_server (cleanup_on_eof i st) d)"

text \<open>What follows a line: the session ends, goes on, or waits for room in its queue.\<close>

definition after_line ::
    "nat \<Rightarrow> ticket \<Rightarrow> (bool \<times> string option) \<times> session \<times> server \<Rightarrow> daemon \<Rightarrow> daemon" where
  "after_line i tk r d = (case r of ((quit, pending), s, st) \<Rightarrow>
     (case pending of
        Some blob \<Rightarrow> put_stage i (Reading tk s (Some (blob, quit))) (put_server st d)
      | None \<Rightarrow> (if quit then end_reader i tk st d
                 else put_stage i (Reading tk s None) (put_server st d))))"

definition start_session :: "nat \<Rightarrow> ticket \<Rightarrow> string option \<Rightarrow> daemon \<Rightarrow> daemon" where
  "start_session i tk cert d =
     (let st = dm_server d
      in put_stage i (Reading tk (session_new (tk_limit_key tk) (tk_exempt tk)) None)
           (put_server (park_unregistered i (cloak_host (sv_env st) (tk_real_host tk)) (tk_real_host tk)
              (channel_new REPLY_QUEUE) cert st) d))"

definition writer_take :: "cx \<Rightarrow> cx" where
  "writer_take u = u\<lparr>cx_tx := (cx_tx u)\<lparr>tx_queue := tl (tx_queue (cx_tx u))\<rparr>\<rparr>"

definition writer_gone :: "cx \<Rightarrow> cx" where
  "writer_gone u = u\<lparr>cx_tx := (cx_tx u)\<lparr>tx_closed := True\<rparr>\<rparr>"

text \<open>A link task waits for its peer when what it had to say is queued. Its entry also holds the events
  of the last line that are still to be applied; between two of them other tasks may run. A panic
  drops the task and leaves the server as it was.\<close>

definition link_idle :: "link_task \<Rightarrow> bool" where
  "link_idle t \<longleftrightarrow> ls_out (lt_session t) = []"

definition drop_link :: "nat \<Rightarrow> daemon \<Rightarrow> daemon" where
  "drop_link k d = d\<lparr>dm_links := take k (dm_links d) @ drop (Suc k) (dm_links d)\<rparr>"

section \<open>Steps\<close>

text \<open>
  The parameter says what the linked servers may send: \<open>\<lambda>_ _. True\<close> is the daemon with arbitrary
  peers, \<open>event_safe\<close> the daemon with peers that give channel status to members only.
\<close>

inductive dm_step :: "(server \<Rightarrow> event \<Rightarrow> bool) \<Rightarrow> daemon \<Rightarrow> daemon \<Rightarrow> bool"
  for peers :: "server \<Rightarrow> event \<Rightarrow> bool" where
  clock: "sv_now (dm_server d) \<le> w_now w \<Longrightarrow> dm_step peers d (put_server ((dm_server d)\<lparr>sv_world := w\<rparr>) d)"
| spawn: "dm_step peers d (put_stage (dm_next d) Spawned (d\<lparr>dm_next := dm_next d + 1\<rparr>))"
| dropped: "hm_get (dm_conns d) i = Some Spawned \<Longrightarrow>
    admit tls peer pk hdr (dm_server d) = (Dropped l, st) \<Longrightarrow> dm_step peers d (end_task i (put_server st d))"
| admitted: "hm_get (dm_conns d) i = Some Spawned \<Longrightarrow>
    admit tls peer pk hdr (dm_server d) = (Accepted tk, st) \<Longrightarrow>
    dm_step peers d (put_stage i (Handshaking tk) (put_server st d))"
| no_session: "hm_get (dm_conns d) i = Some (Handshaking tk) \<Longrightarrow> session_of h = None \<Longrightarrow>
    dm_step peers d (end_task i (put_server (after_handshake h tk (dm_server d)) d))"
| session: "hm_get (dm_conns d) i = Some (Handshaking tk) \<Longrightarrow> session_of h = Some cert \<Longrightarrow>
    dm_step peers d (start_session i tk cert d)"
| read: "hm_get (dm_conns d) i = Some (Reading tk s None) \<Longrightarrow> next_line (ss_buf s) = None \<Longrightarrow>
    length (ss_buf s) \<le> MAX_BUFFER \<Longrightarrow> length bytes \<le> READ_CHUNK \<Longrightarrow>
    dm_step peers d (put_stage i (Reading tk (s\<lparr>ss_buf := ss_buf s @ bytes\<rparr>) None) d)"
| overlong: "hm_get (dm_conns d) i = Some (Reading tk s None) \<Longrightarrow>
    next_line (ss_buf s) = Some (Overlong, rest) \<Longrightarrow>
    dm_step peers d (put_stage i (Reading tk (s\<lparr>ss_buf := rest\<rparr>) None) d)"
| line: "hm_get (dm_conns d) i = Some (Reading tk s None) \<Longrightarrow>
    next_line (ss_buf s) = Some (Content seg, rest) \<Longrightarrow>
    dm_step peers d (after_line i tk
      (process_segment i seg (s\<lparr>ss_buf := rest, ss_throttle := 0\<rparr>) (dm_server d)) d)"
| flushed: "hm_get (dm_conns d) i = Some (Reading tk s (Some (blob, quit))) \<Longrightarrow>
    flush_pending w i (Some blob) (dm_server d) = (gone, st) \<Longrightarrow>
    dm_step peers d (if gone \<or> quit then end_reader i tk st d
               else put_stage i (Reading tk s None) (put_server st d))"
| ended: "hm_get (dm_conns d) i = Some (Reading tk s None) \<Longrightarrow> next_line (ss_buf s) = None \<Longrightarrow>
    dm_step peers d (end_reader i tk (dm_server d) d)"
| released: "hm_get (dm_conns d) i = Some (Closing tk) \<Longrightarrow>
    dm_step peers d (end_task i (put_server (release_ticket tk (dm_server d)) d))"
| drained: "dm_step peers d (put_server (upd_by_id i writer_take (dm_server d)) d)"
| writer_lost: "dm_step peers d (put_server (upd_by_id i writer_gone (dm_server d)) d)"
| reclaim_sweep: "dm_step peers d (put_server (reclaim_tick (dm_server d)) d)"
| liveness_sweep: "dm_step peers d (put_server (liveness_tick (dm_server d)) d)"
| counters: "dm_step peers d (put_server (broadcast_counter_snotes totals (dm_server d)) d)"
| link_opened: "hm_get (sv_queues (dm_server d)) c = None \<Longrightarrow>
    link_open cfg outb c (dm_server d) = (t, st) \<Longrightarrow>
    dm_step peers d (put_server st (d\<lparr>dm_links := dm_links d @ [(t, [])]\<rparr>))"
| link_read: "k < length (dm_links d) \<Longrightarrow> dm_links d ! k = (t, []) \<Longrightarrow> link_idle t \<Longrightarrow>
    ls_phase (lt_session t) \<noteq> Dead \<Longrightarrow> link_receive raw t (dm_server d) = Some (evs, t') \<Longrightarrow>
    dm_step peers d (d\<lparr>dm_links := (dm_links d)[k := (t', evs)]\<rparr>)"
| link_applied: "k < length (dm_links d) \<Longrightarrow> dm_links d ! k = (t, ev # evs) \<Longrightarrow>
    peers (dm_server d) ev \<Longrightarrow> link_event ev (t, dm_server d) = Some (t', st) \<Longrightarrow>
    dm_step peers d (put_server st (d\<lparr>dm_links := (dm_links d)[k := (t', evs)]\<rparr>))"
| link_flushed: "k < length (dm_links d) \<Longrightarrow> dm_links d ! k = (t, []) \<Longrightarrow>
    link_flush t (dm_server d) = (n, t', st) \<Longrightarrow>
    dm_step peers d (put_server st (d\<lparr>dm_links := (dm_links d)[k := (t', [])]\<rparr>))"
| link_ticked: "k < length (dm_links d) \<Longrightarrow> dm_links d ! k = (t, []) \<Longrightarrow> link_idle t \<Longrightarrow>
    ls_phase (lt_session t) \<noteq> Dead \<Longrightarrow> link_tick t (dm_server d) = (True, st) \<Longrightarrow>
    dm_step peers d (put_server st d)"
| link_drained: "dm_step peers d (put_server (queue_take c (dm_server d)) d)"
| link_writer_lost: "dm_step peers d (put_server (queue_close c (dm_server d)) d)"
| link_panicked: "k < length (dm_links d) \<Longrightarrow> dm_links d ! k = (t, []) \<Longrightarrow> link_idle t \<Longrightarrow>
    link_receive raw t (dm_server d) = None \<Longrightarrow> dm_step peers d (drop_link k d)"
| link_crashed: "k < length (dm_links d) \<Longrightarrow> dm_links d ! k = (t, ev # evs) \<Longrightarrow>
    link_event ev (t, dm_server d) = None \<Longrightarrow> dm_step peers d (drop_link k d)"
| link_closed: "k < length (dm_links d) \<Longrightarrow> dm_links d ! k = (t, []) \<Longrightarrow> link_idle t \<Longrightarrow>
    dm_step peers d (put_server (link_teardown t (dm_server d)) (drop_link k d))"

inductive_cases dm_stepE: "dm_step peers d e"

definition dm_init :: "daemon \<Rightarrow> bool" where
  "dm_init d \<longleftrightarrow> (\<exists>w n ou op l1 l2 em li a c k. dm_server d = server_new w n ou op l1 l2 em li a c k)
     \<and> dm_next d = 1 \<and> dm_conns d = [] \<and> dm_links d = []"

section \<open>The invariant of the daemon\<close>

text \<open>
  Beside the invariant of the state: a connection known to the state belongs to a running reader,
  ids in use were handed out, a reader is never slowed down by more than one step, and what it has
  read and not yet handled is bounded.
\<close>

definition readers :: "daemon \<Rightarrow> nat set" where
  "readers d = {i. \<exists>tk s p. hm_get (dm_conns d) i = Some (Reading tk s p)}"

definition session_ok :: "session \<Rightarrow> bool" where
  "session_ok s \<longleftrightarrow> ss_throttle s \<le> FAKELAG_STEP \<and> length (ss_buf s) \<le> MAX_BUFFER + READ_CHUNK"

definition stage_ok :: "stage \<Rightarrow> bool" where
  "stage_ok g = (case g of Reading tk s p \<Rightarrow> session_ok s | _ \<Rightarrow> True)"

definition dm_inv :: "daemon \<Rightarrow> bool" where
  "dm_inv d \<longleftrightarrow> state_inv (dm_server d) \<and> conn_ids (dm_server d) \<subseteq> readers d
     \<and> (\<forall>i g. hm_get (dm_conns d) i = Some g \<longrightarrow> i < dm_next d \<and> stage_ok g)"

lemma daemon_simps [simp]:
  "dm_server (put_stage i g d) = dm_server d" "dm_server (end_task i d) = dm_server d"
  "dm_server (put_server st d) = st" "dm_next (put_stage i g d) = dm_next d"
  "dm_next (end_task i d) = dm_next d" "dm_next (put_server st d) = dm_next d"
  "dm_conns (put_server st d) = dm_conns d" "dm_conns (put_stage i g d) = hm_insert i g (dm_conns d)"
  "dm_conns (end_task i d) = hm_remove i (dm_conns d)" "dm_server (drop_link k d) = dm_server d"
  "dm_next (drop_link k d) = dm_next d" "dm_conns (drop_link k d) = dm_conns d"
  by (simp_all add: put_stage_def end_task_def put_server_def drop_link_def)

lemma conn_ids_find: "state_inv st \<Longrightarrow> i \<in> conn_ids st \<longleftrightarrow> find_by_id st i \<noteq> None"
  using conns_find [of st] find_conns [of st i] by (auto simp: conn_ids_conns)

lemma depart_gone:
  assumes "state_inv st"
  shows "find_by_id (depart i st) i = None"
proof (rule ccontr)
  let ?s = "drop_empty_channels (snd (eject_user i st))"
  assume "find_by_id (depart i st) i \<noteq> None"
  then obtain u where u: "find_by_id (depart i st) i = Some u" by blast
  have same: "sv_users ?s = sv_users st" "sv_unreg ?s = sv_unreg st"
    by (simp_all add: drop_empty_channels_def eject_user_def)
  then have ev: "sv_users (depart i st) = sv_users (snd (evict i st))" "sv_unreg (depart i st) = sv_unreg (snd (evict i st))"
    by (simp_all add: depart_def evict_def split: option.splits)
  from find_by_id_Some [OF state_inv_depart [OF assms] u] show False
    unfolding ev by (auto simp: evict_get [OF assms] split: if_splits option.splits)
qed

lemma conn_ids_cleanup:
  assumes "state_inv st"
  shows "conn_ids (cleanup_on_eof i st) \<subseteq> conn_ids st - {i}"
proof -
  have "find_by_id (cleanup_on_eof i st) i = None"
  proof (cases "find_by_id st i")
    case (Some u)
    have "state_inv (fold (\<lambda>m. send_to m l) ms st)" for l ms
      using assms by (intro state_inv_fold) auto
    with Some assms show ?thesis by (simp add: cleanup_on_eof_def depart_gone)
  qed (simp add: cleanup_on_eof_def)
  then have "i \<notin> conn_ids (cleanup_on_eof i st)"
    by (simp add: conn_ids_find [OF state_inv_cleanup [OF assms]])
  with conn_ids_descends [OF descends_sweeps(3), of i st] show ?thesis by blast
qed

lemma conn_ids_process: "state_inv st \<Longrightarrow> conn_ids (snd (snd (process_segment i seg s st))) \<subseteq> conn_ids st"
  by (simp add: process_segment_def conn_ids_route split: option.split)

lemma throttle_charge: "ss_throttle s = 0 \<Longrightarrow> ss_throttle (charge_line b st s) \<le> FAKELAG_STEP"
  by (simp add: charge_line_def add_lag_bounds(1) split: prod.split)

lemma throttle_process:
  assumes "ss_throttle s = 0"
  shows "ss_throttle (fst (snd (process_segment i seg s st))) \<le> FAKELAG_STEP"
proof -
  have "ss_throttle (fst (snd (route i cmd s st))) \<le> FAKELAG_STEP" for cmd
    using assms throttle_charge [OF assms]
    by (auto simp: route_def Let_def split: prod.splits sum.splits bool.splits)
  with throttle_charge [OF assms] show ?thesis
    by (simp add: process_segment_def split: option.split)
qed

lemma buf_process: "ss_buf (fst (snd (process_segment i seg s st))) = ss_buf s"
  by (auto simp: process_segment_def route_def charge_line_def Let_def
      split: option.splits prod.splits sum.splits bool.splits)

lemma session_ok_process:
  assumes "session_ok s" "next_line (ss_buf s) = Some (l, rest)"
  shows "session_ok (fst (snd (process_segment i seg (s\<lparr>ss_buf := rest, ss_throttle := 0\<rparr>) st)))"
    and "session_ok (s\<lparr>ss_buf := rest\<rparr>)"
  using assms next_line_shorter [OF assms(2)] by (auto simp: session_ok_def buf_process throttle_process)

text \<open>The three ways a step touches a reader.\<close>

lemma dm_inv_server:
  assumes "dm_inv d" "state_inv st" "conn_ids st \<subseteq> conn_ids (dm_server d)"
  shows "dm_inv (put_server st d)"
  using assms by (auto simp: dm_inv_def readers_def)

lemma dm_inv_reading:
  assumes "dm_inv d" "state_inv st" "conn_ids st \<subseteq> conn_ids (dm_server d) \<union> {i}" "session_ok s"
    "i < dm_next d"
  shows "dm_inv (put_stage i (Reading tk s p) (put_server st d))"
  using assms by (fastforce simp: dm_inv_def readers_def stage_ok_def hm_simps split: if_splits)

lemma dm_inv_gone:
  assumes "dm_inv d" "state_inv st" "conn_ids st \<subseteq> conn_ids (dm_server d) - {i}" "i < dm_next d" "stage_ok g"
  shows "dm_inv (put_stage i g (put_server st d))"
  using assms by (fastforce simp: dm_inv_def readers_def hm_simps split: if_splits)

lemma dm_inv_ended:
  assumes "dm_inv d" "state_inv st" "conn_ids st \<subseteq> conn_ids (dm_server d) - {i}"
  shows "dm_inv (end_task i (put_server st d))"
  using assms by (fastforce simp: dm_inv_def readers_def hm_simps split: if_splits)

lemma dm_inv_end_reader:
  assumes "dm_inv d" "state_inv st" "conn_ids st \<subseteq> conn_ids (dm_server d)" "i < dm_next d"
  shows "dm_inv (end_reader i tk st d)"
  unfolding end_reader_def
  by (rule dm_inv_gone) (use assms state_inv_cleanup conn_ids_cleanup [of st i] in \<open>auto simp: stage_ok_def\<close>)

lemma dm_inv_after_line:
  assumes "dm_inv d" "i < dm_next d" "state_inv (snd (snd r))" "conn_ids (snd (snd r)) \<subseteq> conn_ids (dm_server d)"
    "session_ok (fst (snd r))"
  shows "dm_inv (after_line i tk r d)"
proof -
  obtain quit pending s st where r: "r = ((quit, pending), s, st)" by (metis prod.collapse)
  have "dm_inv (put_stage i (Reading tk s p) (put_server st d))" for p
    by (rule dm_inv_reading) (use assms r in auto)
  moreover have "dm_inv (end_reader i tk st d)" by (rule dm_inv_end_reader) (use assms r in auto)
  ultimately show ?thesis by (simp add: r after_line_def split: option.split)
qed

section \<open>Every step keeps it\<close>

lemma state_inv_admit: "admit tls peer pk hdr st = (r, st') \<Longrightarrow> state_inv st' = state_inv st \<and> cxs st' = cxs st"
  using admit_same [of tls peer pk hdr st] by (simp add: state_inv_def cxs_def conns_def)

lemma writer_core: "core (upd_by_id i writer_take st) = core st" "core (upd_by_id i writer_gone st) = core st"
  by (rule core_upd_by_id; simp add: erase_def writer_take_def writer_gone_def)+

lemma conn_ids_park: "conn_ids (park_unregistered i host real tx cert st) \<subseteq> conn_ids st \<union> {i}"
proof (cases "find_by_id st i")
  case None
  obtain u where "park_new i host real tx cert st = st\<lparr>sv_unreg := hm_insert i u (sv_unreg st)\<rparr>" "cx_id u = i"
    by (auto simp: park_new_def)
  with None values_insert [of i u "sv_unreg st"] show ?thesis
    by (auto simp: park_unregistered_def conn_ids_conns conns_def)
qed (auto simp: park_unregistered_def)

lemma dm_invD:
  assumes "dm_inv d"
  shows "state_inv (dm_server d)" "hm_get (dm_conns d) i = Some g \<Longrightarrow> i < dm_next d"
    "hm_get (dm_conns d) i = Some (Reading tk s p) \<Longrightarrow> session_ok s"
    "hm_get (dm_conns d) i = Some g \<Longrightarrow> (\<And>tk s p. g \<noteq> Reading tk s p) \<Longrightarrow> i \<notin> conn_ids (dm_server d)"
  using assms unfolding dm_inv_def readers_def by (fastforce simp: stage_ok_def)+

lemma dm_inv_view: "dm_inv d \<Longrightarrow> state_inv s \<Longrightarrow> cxs s = cxs (dm_server d) \<Longrightarrow> dm_inv (put_server s d)"
  using dm_inv_server [of d s] conn_ids_cxs by blast

lemma dm_inv_sweep: "dm_inv d \<Longrightarrow> state_inv s \<Longrightarrow> descends P (dm_server d) s \<Longrightarrow> dm_inv (put_server s d)"
  using dm_inv_server [of d s] conn_ids_descends by blast

lemma dm_inv_links [simp]: "dm_inv (d\<lparr>dm_links := l\<rparr>) = dm_inv d" "dm_inv (drop_link k d) = dm_inv d"
  by (simp_all add: dm_inv_def readers_def)

text \<open>The output of a link task touches its queue only.\<close>

lemma dm_inv_links_core:
  assumes "dm_inv d" "core st = core (dm_server d)"
  shows "dm_inv (put_server st (d\<lparr>dm_links := l\<rparr>))" "dm_inv (put_server st d)"
proof -
  have "dm_inv (put_server st (d\<lparr>dm_links := l\<rparr>))" for l
    using assms dm_invD(1) [OF assms(1)]
    by (intro dm_inv_view) (simp_all add: state_inv_same_core [OF assms(2)] cxs_core [OF assms(2)])
  from this [of l] this [of "dm_links d"] show "dm_inv (put_server st (d\<lparr>dm_links := l\<rparr>))" "dm_inv (put_server st d)"
    by simp_all
qed

lemma dm_inv_spawn: "dm_inv d \<Longrightarrow> dm_inv (put_stage (dm_next d) Spawned (d\<lparr>dm_next := dm_next d + 1\<rparr>))"
  by (fastforce simp: dm_inv_def readers_def stage_ok_def hm_simps split: if_splits)

text \<open>A task that is not reading is unknown to the state, so it can end or move on with any server
  that has the same connections.\<close>

lemma dm_inv_idle:
  assumes "dm_inv d" "hm_get (dm_conns d) i = Some g" "\<And>tk s p. g \<noteq> Reading tk s p"
    and "state_inv st" "cxs st = cxs (dm_server d)"
  shows "dm_inv (end_task i (put_server st d))" "stage_ok g' \<Longrightarrow> dm_inv (put_stage i g' (put_server st d))"
proof -
  have ids: "conn_ids st \<subseteq> conn_ids (dm_server d) - {i}"
    using dm_invD(4) [OF assms(1-3)] conn_ids_cxs [OF assms(5)] by auto
  show "dm_inv (end_task i (put_server st d))" by (rule dm_inv_ended [OF assms(1,4) ids])
  show "stage_ok g' \<Longrightarrow> dm_inv (put_stage i g' (put_server st d))"
    by (rule dm_inv_gone [OF assms(1,4) ids dm_invD(2) [OF assms(1,2)]])
qed

lemma handshake_same:
  "state_inv (after_handshake h tk st) = state_inv st" "cxs (after_handshake h tk st) = cxs st"
  "state_inv (release_ticket tk st) = state_inv st" "cxs (release_ticket tk st) = cxs st"
  by (simp_all add: after_handshake_def release_ticket_def frame_simps split: handshake.split)

lemma dm_inv_session:
  assumes "dm_inv d" "hm_get (dm_conns d) i = Some (Handshaking tk)"
  shows "dm_inv (start_session i tk cert d)"
proof -
  have "state_inv (park_unregistered i host real tx cert (dm_server d))" for host real tx
    using dm_invD(1) [OF assms(1)] state_inv_park by (simp add: park_unregistered_def)
  then show ?thesis unfolding start_session_def Let_def
    using conn_ids_park dm_invD(2) [OF assms]
    by (intro dm_inv_reading [OF assms(1)]) (auto simp: session_ok_def session_new_def)
qed

lemma dm_inv_read:
  assumes "dm_inv d" "hm_get (dm_conns d) i = Some (Reading tk s p)" "session_ok s'"
  shows "dm_inv (put_stage i (Reading tk s' q) d)"
  using dm_inv_reading [OF assms(1) dm_invD(1) [OF assms(1)], of i s' tk q] dm_invD(2) [OF assms(1,2)] assms(3)
  by (auto simp: put_server_def)

lemma dm_inv_flushed:
  assumes "dm_inv d" "hm_get (dm_conns d) i = Some (Reading tk s p)" "flush_pending w i q (dm_server d) = (gone, st)"
  shows "dm_inv (end_reader i tk st d)" "dm_inv (put_stage i (Reading tk s None) (put_server st d))"
proof -
  have st: "state_inv st" "cxs st = cxs (dm_server d)"
    using assms(3) dm_invD(1) [OF assms(1)]
    by (auto simp: flush_pending_def frame_simps split: wait.splits if_splits option.splits)
  from conn_ids_cxs [OF st(2)] have ids: "conn_ids st = conn_ids (dm_server d)" .
  show "dm_inv (end_reader i tk st d)"
    by (rule dm_inv_end_reader [OF assms(1) st(1) _ dm_invD(2) [OF assms(1,2)]]) (simp add: ids)
  show "dm_inv (put_stage i (Reading tk s None) (put_server st d))"
    by (rule dm_inv_reading [OF assms(1) st(1) _ dm_invD(3) [OF assms(1,2)] dm_invD(2) [OF assms(1,2)]]) (auto simp: ids)
qed

lemma dm_inv_line:
  assumes "dm_inv d" "hm_get (dm_conns d) i = Some (Reading tk s p)" "next_line (ss_buf s) = Some (l, rest)"
  shows "dm_inv (after_line i tk (process_segment i seg (s\<lparr>ss_buf := rest, ss_throttle := 0\<rparr>) (dm_server d)) d)"
  by (rule dm_inv_after_line [OF assms(1) dm_invD(2) [OF assms(1,2)]])
    (use dm_invD(1) [OF assms(1)] session_ok_process(1) [OF dm_invD(3) [OF assms(1,2)] assms(3)] in
      \<open>auto simp: state_inv_process_segment conn_ids_process\<close>)

lemma dm_inv_link_event:
  assumes "dm_inv d" "event_safe (dm_server d) ev" "link_event ev (t, dm_server d) = Some (t', st)"
  shows "dm_inv (put_server st d)"
  by (rule dm_inv_view [OF assms(1) state_inv_link_event [OF dm_invD(1) [OF assms(1)] assms(2,3)]])
    (rule cxs_view.frame_link(1) [OF assms(3)])

lemma dm_inv_step:
  assumes inv: "dm_inv d" and step: "dm_step event_safe d e"
  shows "dm_inv e"
  using step
proof cases
  case (read i tk s bytes)
  then have "session_ok (s\<lparr>ss_buf := ss_buf s @ bytes\<rparr>)" using dm_invD(3) [OF inv] by (auto simp: session_ok_def)
  with dm_inv_read [OF inv read(2)] read(1) show ?thesis by blast
next
  case (overlong i tk s rest)
  from session_ok_process(2) [OF dm_invD(3) [OF inv overlong(2)] overlong(3)] dm_inv_read [OF inv overlong(2)] overlong(1)
  show ?thesis by blast
next
  case (link_applied k t ev evs t' st)
  from dm_inv_link_event [OF inv link_applied(4,5)] show ?thesis
    unfolding link_applied(1) by (simp add: dm_inv_def readers_def)
next
  case (link_closed k t)
  have "dm_inv (put_server (link_teardown t (dm_server d)) d)"
    by (rule dm_inv_view [OF inv]) (simp_all add: dm_invD(1) [OF inv] state_inv_link_teardown cxs_view.frame_link)
  then show ?thesis unfolding link_closed(1) by (simp add: dm_inv_def readers_def)
next
  case (link_opened c cfg outb t st)
  with dm_inv_links_core(1) [OF inv] core_link_io(2) [of cfg outb c "dm_server d"] show ?thesis by simp
next
  case (link_flushed k t n t' st)
  with dm_inv_links_core(1) [OF inv] core_link_io(1) [of t "dm_server d"] show ?thesis by simp
next
  case (link_ticked k t st)
  with dm_inv_links_core(2) [OF inv] core_link_io(3) [of t "dm_server d"] show ?thesis by simp
next
  case (link_drained c)
  with dm_inv_links_core(2) [OF inv] core_link_io(4) show ?thesis by simp
next
  case (link_writer_lost c)
  with dm_inv_links_core(2) [OF inv] core_link_io(5) show ?thesis by simp
next
  case (drained i)
  with dm_invD(1) [OF inv] dm_inv_view [OF inv] show ?thesis
    by (simp add: state_inv_same_core [OF writer_core(1)] cxs_core [OF writer_core(1)])
next
  case (writer_lost i)
  with dm_invD(1) [OF inv] dm_inv_view [OF inv] show ?thesis
    by (simp add: state_inv_same_core [OF writer_core(2)] cxs_core [OF writer_core(2)])
next
  case (dropped i tls peer pk hdr l st)
  with state_inv_admit [OF dropped(3)] dm_invD(1) [OF inv] dm_inv_idle(1) [OF inv dropped(2)] show ?thesis by simp
next
  case (admitted i tls peer pk hdr tk st)
  with state_inv_admit [OF admitted(3)] dm_invD(1) [OF inv] dm_inv_idle(2) [OF inv admitted(2)] show ?thesis
    by (simp add: stage_ok_def)
next
  case (ended i tk s)
  with dm_inv_end_reader [OF inv dm_invD(1) [OF inv]] dm_invD(2) [OF inv] show ?thesis by auto
qed (use dm_invD(1) [OF inv] dm_inv_view [OF inv] dm_inv_sweep [OF inv] dm_inv_idle(1) [OF inv] dm_inv_line [OF inv]
    dm_inv_flushed [OF inv] dm_inv_session [OF inv] dm_inv_spawn [OF inv] inv
    in \<open>auto simp: frame_simps handshake_same descends_sweeps state_inv_reclaim_tick state_inv_liveness_tick\<close>)

lemma dm_inv_init: "dm_init d \<Longrightarrow> dm_inv d"
  by (auto simp: dm_init_def dm_inv_def conn_ids_conns conns_def state_inv_new readers_def)
    (simp add: server_new_def hm_values_def)+

lemma dm_next_step: "dm_step peers d e \<Longrightarrow> dm_next d \<le> dm_next e"
  by (erule dm_stepE) (auto simp: after_line_def end_reader_def start_session_def Let_def
      split: prod.splits option.splits)

interpretation daemon: monotone_system dm_init "dm_step event_safe" dm_inv dm_next
  by unfold_locales (auto intro: dm_inv_init dm_inv_step dm_next_step)

end
