(* ===== verification/Sweeps.thy ===== *)
theory Sweeps
  imports System
begin

text \<open>
  What the periodic sweep of \<^verbatim>\<open>src/ops.rs\<close> achieves: a connection that does not register in time,
  or does not answer a ping in time, is gone after it, and a user who has been silent for too long
  is pinged by it.
\<close>

section \<open>Eviction\<close>

lemma cxs_depart: "cxs (depart i st) \<subseteq> cxs st"
proof -
  have "conns (snd (evict i s)) \<subseteq> conns s" for s
    using values_remove [of i "sv_unreg s"] values_remove [of _ "sv_users s"]
    by (auto simp: conns_def evict_def split: option.splits)
  moreover have "cxs (drop_empty_channels (snd (eject_user i st))) = cxs st"
    by (rule cxs_tables) (simp_all add: drop_empty_channels_def eject_user_def)
  ultimately show ?thesis unfolding depart_def cxs_def by blast
qed

lemma depart_fields:
  "sv_ping (depart i st) = sv_ping st" "sv_world (depart i st) = sv_world st"
  by (simp_all add: depart_def evict_def drop_empty_channels_def eject_user_def split: option.split)

definition loses :: "nat set \<Rightarrow> server \<Rightarrow> server \<Rightarrow> bool" where
  "loses gone st s \<longleftrightarrow> state_inv s \<and> cxs s \<subseteq> cxs st \<and> sv_world s = sv_world st
     \<and> (\<forall>i\<in>gone. find_by_id s i = None)"

lemma find_conn_ids: "state_inv st \<Longrightarrow> find_by_id st i = None \<longleftrightarrow> i \<notin> cx_id ` cxs st"
  using conn_ids_find [of st i] by (auto simp: conn_ids_def)

lemma loses_mono:
  assumes "loses A st s" "state_inv t" "cxs t \<subseteq> cxs s" "sv_world t = sv_world s"
  shows "loses A st t"
proof -
  have "find_by_id t i = None" if "find_by_id s i = None" for i
    using that assms image_mono [OF assms(3), of cx_id] by (auto simp: find_conn_ids loses_def)
  with assms show ?thesis by (auto simp: loses_def)
qed

definition announced :: "nat \<Rightarrow> string \<Rightarrow> server \<Rightarrow> server" where
  "announced i why s = (case find_by_id s i of None \<Rightarrow> s
     | Some u \<Rightarrow> fold (\<lambda>m. send_to m (proto_line (cx_prefix u) ''QUIT'' ('':'' @ why))) (channel_peers s i) s)"

lemma announced_core: "core (announced i why s) = core s"
  by (simp add: announced_def core_fold core_simps split: option.split)

lemma announced_fields: "sv_world (announced i why s) = sv_world s" "sv_ping (announced i why s) = sv_ping s"
  using arg_cong [OF announced_core, of sv_world] arg_cong [OF announced_core, of sv_ping] by simp_all

lemma announce_depart: "announce_loss_and_evict i why s = depart i (announced i why s)"
  by (simp add: announce_loss_and_evict_def announced_def)

lemma announce_ping: "sv_ping (announce_loss_and_evict i why s) = sv_ping s"
  by (simp add: announce_depart depart_fields announced_fields)

lemma announce_loses:
  assumes "loses A st s"
  shows "loses (insert i A) st (announce_loss_and_evict i why s)"
proof -
  have inv: "state_inv (announced i why s)"
    using assms state_inv_same_core [OF announced_core] by (simp add: loses_def)
  have "loses A st (depart i (announced i why s))"
    by (rule loses_mono [OF assms]) (use inv cxs_depart [of i] cxs_core [OF announced_core, of i why s] in
      \<open>auto simp: state_inv_depart depart_fields announced_fields\<close>)
  with depart_gone [OF inv] show ?thesis by (simp add: announce_depart loses_def)
qed

lemma loses_fold:
  assumes "\<And>A x s. loses A st s \<Longrightarrow> loses (insert x A) st (f x s)" "loses A st s"
  shows "loses (A \<union> set xs) st (fold f xs s)"
  using assms(2)
proof (induction xs arbitrary: A s)
  case (Cons x xs)
  from Cons.IH [OF assms(1) [OF Cons.prems]] show ?case by simp
qed simp

section \<open>The sweep\<close>

definition after_reg_timeouts :: "server \<Rightarrow> server" where
  "after_reg_timeouts st = fold (\<lambda>i. announce_loss_and_evict i ''Registration timeout'') (expired_reg st) st"

definition after_ping_timeouts :: "server \<Rightarrow> server" where
  "after_ping_timeouts st = (let s = after_reg_timeouts st in fold drop_unanswered (expired_pings s) s)"

lemma liveness_tick_stages:
  "liveness_tick st = (let s = after_ping_timeouts st in fold ping_silent (silent_users s) s)"
  by (simp add: liveness_tick_def after_ping_timeouts_def after_reg_timeouts_def Let_def)

lemma loses_refl: "state_inv st \<Longrightarrow> loses {} st st"
  by (simp add: loses_def)

lemma loses_reg:
  assumes "state_inv st"
  shows "loses (set (expired_reg st)) st (after_reg_timeouts st)" "sv_ping (after_reg_timeouts st) = sv_ping st"
proof -
  show "loses (set (expired_reg st)) st (after_reg_timeouts st)"
    unfolding after_reg_timeouts_def
    using loses_fold [OF announce_loses loses_refl [OF assms], where xs = "expired_reg st"] by simp
  have "sv_ping (fold (\<lambda>i. announce_loss_and_evict i w) xs s) = sv_ping s" for w xs s
    by (induction xs arbitrary: s) (simp_all add: announce_ping)
  then show "sv_ping (after_reg_timeouts st) = sv_ping st" by (simp add: after_reg_timeouts_def)
qed

lemma drop_unanswered_loses:
  assumes "loses A st s"
  shows "loses (insert i A) st (drop_unanswered i s)"
  unfolding drop_unanswered_def
  by (rule announce_loses, rule loses_mono [OF assms]) (use assms in \<open>simp_all add: cxs_view.frame_fields loses_def\<close>)

lemma pings_only_removed:
  assumes "state_inv st" "hm_get (sv_ping (after_ping_timeouts st)) i = Some at"
  shows "hm_get (sv_ping st) i = Some at"
proof -
  have one: "hm_get (sv_ping (drop_unanswered j s)) i = Some at \<Longrightarrow> hm_get (sv_ping s) i = Some at" for j s
    by (auto simp: drop_unanswered_def announce_ping hm_simps split: if_splits)
  have "hm_get (sv_ping (fold drop_unanswered xs s)) i = Some at \<Longrightarrow> hm_get (sv_ping s) i = Some at" for xs s
    by (induction xs arbitrary: s) (auto dest: one)
  with assms loses_reg(2) show ?thesis by (fastforce simp: after_ping_timeouts_def Let_def)
qed

lemma loses_pings:
  assumes "state_inv st"
  shows "loses (set (expired_reg st) \<union> set (expired_pings st)) st (after_ping_timeouts st)"
proof -
  have "expired_pings (after_reg_timeouts st) = expired_pings st"
    using loses_reg [OF assms] by (simp add: expired_pings_def loses_def)
  with loses_fold [OF drop_unanswered_loses loses_reg(1) [OF assms], where xs = "expired_pings st"]
  show ?thesis by (simp add: after_ping_timeouts_def Let_def)
qed

lemma ping_silent_facts:
  "sv_world (ping_silent i st) = sv_world st" "cxs (ping_silent i st) = cxs st"
  "state_inv (ping_silent i st) = state_inv st"
  "sv_ping (ping_silent i st) = (if hm_contains (sv_ping st) i then sv_ping st else hm_insert i (sv_now st) (sv_ping st))"
proof -
  have "sv_world (send_to i l st) = sv_world st" "sv_ping (send_to i l st) = sv_ping st" for l
    using arg_cong [OF core_send_to, of sv_world] arg_cong [OF core_send_to, of sv_ping] by simp_all
  then show "sv_world (ping_silent i st) = sv_world st" "cxs (ping_silent i st) = cxs st"
    "state_inv (ping_silent i st) = state_inv st"
    "sv_ping (ping_silent i st) = (if hm_contains (sv_ping st) i then sv_ping st else hm_insert i (sv_now st) (sv_ping st))"
    by (simp_all add: ping_silent_def Let_def frame_simps)
qed

lemma fold_ping_silent:
  "sv_world (fold ping_silent is st) = sv_world st" "cxs (fold ping_silent is st) = cxs st"
  "state_inv (fold ping_silent is st) = state_inv st"
  "hm_get (sv_ping (fold ping_silent is st)) i = (case hm_get (sv_ping st) i of
     Some at \<Rightarrow> Some at | None \<Rightarrow> if i \<in> set is then Some (sv_now st) else None)"
  by (induction "is" arbitrary: st)
    (auto simp: ping_silent_facts hm_contains_def hm_simps split: option.splits if_splits)

lemma loses_liveness:
  assumes "state_inv st"
  shows "loses (set (expired_reg st) \<union> set (expired_pings st)) st (liveness_tick st)"
  by (rule loses_mono [OF loses_pings [OF assms]])
    (use loses_pings [OF assms] in \<open>simp_all add: liveness_tick_stages Let_def fold_ping_silent loses_def\<close>)

text \<open>A connection that has not registered in time is gone.\<close>

lemma registration_times_out:
  assumes "state_inv st" "hm_get (sv_unreg st) i = Some u"
    "registration_window (sv_env st) < sv_now st - cx_connected_at u"
  shows "find_by_id (liveness_tick st) i = None"
proof -
  have "cx_id u = i" using assms(1,2) by (auto simp: state_inv_def ids_ok_def)
  moreover have "u \<in> set (hm_values (sv_unreg st))" using assms(2) by (rule values_get)
  ultimately have "i \<in> set (expired_reg st)" using assms(3) by (force simp: expired_reg_def)
  then show ?thesis using loses_liveness [OF assms(1)] by (simp add: loses_def)
qed

text \<open>So is one that has not answered its ping.\<close>

lemma ping_times_out:
  assumes "state_inv st" "hm_get (sv_ping st) i = Some at" "eviction_window (sv_env st) < sv_now st - at"
  shows "find_by_id (liveness_tick st) i = None"
proof -
  have "i \<in> set (expired_pings st)" using map_of_SomeD [OF assms(2)] assms(3) by (force simp: expired_pings_def)
  then show ?thesis using loses_liveness [OF assms(1)] by (simp add: loses_def)
qed

lemma find_by_id_conns:
  assumes "state_inv st" "w \<in> conns st"
  shows "find_by_id st (cx_id w) = Some w"
proof (cases "w \<in> set (hm_values (sv_users st))")
  case True
  then obtain k where "hm_get (sv_users st) k = Some w"
    using hm_values_iff [OF state_invD(1) [OF assms(1)]] by blast
  from find_by_id_user [OF assms(1) this] show ?thesis .
next
  case False
  then obtain k where "hm_get (sv_unreg st) k = Some w"
    using assms(2) hm_values_iff [OF state_invD(2) [OF assms(1)]] by (auto simp: conns_def)
  moreover from this have "cx_id w = k" using state_invD(4) [OF assms(1)] by (simp add: ids_ok_def)
  ultimately show ?thesis by (simp add: find_by_id_def)
qed

text \<open>A silent user who is still there has been pinged.\<close>

lemma silent_user_pinged:
  assumes inv: "state_inv st" and u: "hm_get (sv_users st) k = Some u"
    and silent: "ping_after_window (sv_env st) < sv_now st - cx_last_rx u"
    and there: "find_by_id (liveness_tick st) (cx_id u) \<noteq> None"
  shows "\<exists>at. hm_get (sv_ping (liveness_tick st)) (cx_id u) = Some at
    \<and> (at = sv_now st \<or> hm_get (sv_ping (after_ping_timeouts st)) (cx_id u) = Some at)"
proof -
  define s where "s = after_ping_timeouts st"
  have lo: "loses {} st s" using loses_pings [OF inv] by (simp add: s_def loses_def)
  then have sinv: "state_inv s" and world: "sv_world s = sv_world st" by (simp_all add: loses_def)
  have "find_by_id s (cx_id u) \<noteq> None"
    using there sinv by (simp add: liveness_tick_stages Let_def find_conn_ids fold_ping_silent flip: s_def)
  then obtain v where v: "find_by_id s (cx_id u) = Some v" by blast
  have vid: "cx_id v = cx_id u" using find_by_id_Some [OF sinv v] by blast
  have "v \<in> conns s"
    using find_by_id_Some [OF sinv v] by (auto simp: conns_def dest: values_get split: if_splits)
  then have "erase v \<in> cxs st" using lo by (auto simp: loses_def cxs_def)
  then obtain w where w: "w \<in> conns st" "erase w = erase v" by (auto simp: cxs_def)
  have "cx_id w = cx_id u" using vid arg_cong [OF w(2), of cx_id] by simp
  with find_by_id_conns [OF inv w(1)] find_by_id_user [OF inv u] have "w = u" by (metis option.inject)
  have "cx_last_rx (erase x) = cx_last_rx x" for x by (simp add: erase_def)
  with \<open>w = u\<close> have same: "cx_registered v = cx_registered u" "cx_last_rx v = cx_last_rx u"
    using arg_cong [OF w(2), of cx_registered] arg_cong [OF w(2), of cx_last_rx] by simp_all
  have "cx_registered u" using inv u by (auto simp: state_inv_def ids_ok_def)
  with same find_by_id_Some [OF sinv v] have "v \<in> set (hm_values (sv_users s))" by (auto dest: values_get)
  with silent same world have "cx_id v \<in> set (silent_users s)" by (simp add: silent_users_def)
  then have "cx_id u \<in> set (silent_users s)" by (simp add: vid)
  then show ?thesis
    by (auto simp: liveness_tick_stages Let_def fold_ping_silent world split: option.split simp flip: s_def)
qed

text \<open>Both together: with nothing but time passing between two sweeps, a silent user is gone.\<close>

lemma silence_ends:
  assumes inv: "state_inv st" and u: "hm_get (sv_users st) k = Some u"
    and silent: "ping_after_window (sv_env st) < sv_now st - cx_last_rx u"
    and past: "\<And>at. hm_get (sv_ping st) (cx_id u) = Some at \<Longrightarrow> at \<le> sv_now st"
    and w: "w_env w = sv_env st" "sv_now st + eviction_window (sv_env st) < w_now w"
  shows "find_by_id (liveness_tick ((liveness_tick st)\<lparr>sv_world := w\<rparr>)) (cx_id u) = None"
proof (cases "find_by_id (liveness_tick st) (cx_id u)")
  case None
  define s where "s = (liveness_tick st)\<lparr>sv_world := w\<rparr>"
  have "state_inv (liveness_tick st)" using loses_liveness [OF inv] by (simp add: loses_def)
  then have s: "state_inv s" by (simp add: s_def)
  have "find_by_id s (cx_id u) = None" using None by (simp add: s_def find_by_id_def split: option.splits)
  with loses_liveness [OF s] s image_mono show ?thesis
    unfolding s_def [symmetric] by (fastforce simp: find_conn_ids loses_def)
next
  case (Some v)
  with silent_user_pinged [OF inv u silent] obtain at where
    at: "hm_get (sv_ping (liveness_tick st)) (cx_id u) = Some at" "at \<le> sv_now st"
    using past pings_only_removed [OF inv] by fastforce
  have "state_inv ((liveness_tick st)\<lparr>sv_world := w\<rparr>)"
    using loses_liveness [OF inv] by (simp add: loses_def)
  from ping_times_out [OF this, of "cx_id u" at] at w show ?thesis by simp
qed

end
