(* ===== verification/Roster.thy ===== *)
theory Roster
  imports Session
begin

text \<open>
  Who is where. A channel's member set, the channel list each user carries, the operator and
  voice sets and the lifetime of a channel are implementation detail of one relation between
  channels and connections; the operations of \<^verbatim>\<open>cmds.rs\<close> that change it are functions on that
  relation.
\<close>

definition roster :: "server \<Rightarrow> (string \<times> nat) set" where
  "roster st = {(k, i). \<exists>c. hm_get (sv_chans st) k = Some c \<and> i \<in> ch_members c}"

lemma roster_chans: "sv_chans st' = sv_chans st \<Longrightarrow> roster st' = roster st"
  by (simp add: roster_def)

lemma roster_core: "core st' = core st \<Longrightarrow> roster st' = roster st"
  by (rule roster_chans) (drule arg_cong [where f = sv_chans], simp add: core_def)

lemma roster_upd_chan:
  "roster (upd_chan ck g st) = {(k, j) \<in> roster st. k \<noteq> norm_nick ck}
     \<union> {(k, j). k = norm_nick ck \<and> (\<exists>c. chan st ck = Some c \<and> j \<in> ch_members (g c))}"
  by (auto simp: roster_def upd_chan_get chan_def split: if_splits)

lemma roster_upd_keeps: "(\<And>c. ch_members (g c) = ch_members c) \<Longrightarrow> roster (upd_chan ck g st) = roster st"
  by (auto simp: roster_def upd_chan_get chan_def split: if_splits)

lemma roster_upd_insert:
  assumes "chan st ck \<noteq> None" "\<And>c. ch_members (g c) = insert i (ch_members c)"
  shows "roster (upd_chan ck g st) = insert (norm_nick ck, i) (roster st)"
  using assms by (auto simp: roster_def upd_chan_get chan_def split: if_splits)

lemma roster_upd_remove:
  assumes "\<And>c. ch_members (g c) = ch_members c - {i}"
  shows "roster (upd_chan ck g st) = roster st - {(norm_nick ck, i)}"
  using assms by (auto simp: roster_def upd_chan_get chan_def split: if_splits)

lemma eject_members: "ch_members (snd (eject i c)) = ch_members c - {i}"
  by (auto simp: eject_def)

lemma roster_upd_by_id: "roster (upd_by_id i f st) = roster st"
  by (rule roster_chans) (simp add: upd_by_id_same)

lemma roster_founder: "roster (apply_founder_status i ck st) = roster st"
proof -
  have "roster (upd_chan ck (grant i True) st) = roster st" by (rule roster_upd_keeps) (simp add: grant_def)
  then show ?thesis
    by (simp add: apply_founder_status_def Let_def roster_core [OF core_relay_all] split: option.split)
qed

lemma roster_relay_join: "roster (relay_join_to_links i ck d st) = roster st"
  by (rule roster_chans) (rule relay_join_chans)

lemma roster_chan_or_create: "roster (chan_or_create ck d st) = roster st"
  by (auto simp: roster_def chan_or_create_def Let_def hm_contains_def hm_simps chn_new_def split: if_splits)

lemmas roster_simps = roster_upd_by_id roster_founder roster_relay_join roster_chan_or_create
  roster_core [OF core_broadcast_join] roster_core [OF core_joiner_replies]
  roster_core [OF core_relay_all] roster_core [OF core_relay_tagged] roster_core [OF core_numeric]

section \<open>Joining\<close>

definition join_key :: "string list option \<Rightarrow> nat \<Rightarrow> string" where
  "join_key keys idx = str_default (case keys of Some ks \<Rightarrow> nth_opt ks idx | None \<Rightarrow> None)"

definition join_allowed :: "server \<Rightarrow> nat \<Rightarrow> string \<Rightarrow> string \<Rightarrow> bool" where
  "join_allowed st i key raw \<longleftrightarrow> valid_channel raw \<and>
     (case chan st raw of
        Some c \<Rightarrow> join_checks (find_by_id st i) i c key = Admitted
      | None \<Rightarrow> cx_opt (\<lambda>u. card (cx_chans u)) 0 st i < MAX_CHANNELS)"

lemma chan_norm [simp]: "chan st (norm_nick raw) = chan st raw"
  by (simp add: chan_def)

lemma roster_join_existing:
  assumes "chan st ck = Some c"
  shows "roster (join_existing i ck key st) =
    roster st \<union> (if join_checks (find_by_id st i) i c key = Admitted then {(norm_nick ck, i)} else {})"
proof -
  have "roster (upd_chan ck (\<lambda>c. consume_invite i (admit_plain i c)) (upd_by_id i (add_chan ck) st))
      = insert (norm_nick ck, i) (roster st)"
    using assms roster_upd_insert [of "upd_by_id i (add_chan ck) st" ck "\<lambda>c. consume_invite i (admit_plain i c)" i]
    by (simp add: roster_upd_by_id consume_invite_def admit_plain_def chan_def upd_by_id_same)
  then show ?thesis
    using assms by (simp add: join_existing_def Let_def roster_simps join_denied_def too_many_channels_def
        split: join_check.split)
qed

lemma roster_create_channel:
  "roster (create_channel i ck d st) = insert (norm_nick ck, i) (roster st)"
proof -
  have some: "chan (chan_or_create ck d st) ck \<noteq> None"
    by (simp add: chan_def chan_or_create_get split: option.split)
  have "roster (upd_chan ck (if b then admit_plain i else admit_as_op i) (chan_or_create ck d st))
      = insert (norm_nick ck, i) (roster st)" for b
    using roster_upd_insert [OF some, of "if b then admit_plain i else admit_as_op i" i]
    by (simp add: admit_plain_def admit_as_op_def roster_chan_or_create)
  from this [of True] this [of False] have
    "roster (upd_chan ck (admit_plain i) (chan_or_create ck d st)) = insert (norm_nick ck, i) (roster st)"
    "roster (upd_chan ck (admit_as_op i) (chan_or_create ck d st)) = insert (norm_nick ck, i) (roster st)"
    by simp_all
  moreover have "roster (upd_chan ck (\<lambda>c. c\<lparr>ch_topic := t\<rparr>) s) = roster s" for t s
    by (rule roster_upd_keeps) simp
  ultimately show ?thesis by (simp add: create_channel_def Let_def roster_simps)
qed

lemma roster_join_one:
  "roster (join_one i keys (idx, raw) st) =
     roster st \<union> (if join_allowed st i (join_key keys idx) raw then {(norm_nick raw, i)} else {})"
proof (cases "chan st raw")
  case None
  then show ?thesis
    by (simp add: join_one_def join_allowed_def Let_def roster_create_channel roster_simps
        nosuch_channel_def too_many_channels_def)
next
  case (Some c)
  then show ?thesis
    using roster_join_existing [of st "norm_nick raw" c i]
    by (simp add: join_one_def join_allowed_def join_key_def Let_def roster_simps nosuch_channel_def)
qed

text \<open>What a connection that got into an existing channel had to satisfy.\<close>

lemma join_allowed_checks:
  assumes "join_allowed st i key raw" "chan st raw = Some c" "find_by_id st i = Some u"
  shows "ch_invite_only c \<Longrightarrow> invited c i \<or> invex_match c u"
    and "ch_regonly c \<Longrightarrow> cx_account u \<noteq> None"
    and "ban_match c u = None \<or> except_match c u"
    and "ch_chan_key c = None \<or> ch_chan_key c = Some (norm_nick key)"
    and "i \<notin> ch_members c" "card (cx_chans u) < MAX_CHANNELS"
  using assms by (auto simp: join_allowed_def join_checks_def Let_def is_member_def split: if_splits option.splits)

section \<open>Leaving\<close>

lemma roster_drop_empty:
  assumes "hm_wf (sv_chans st)"
  shows "roster (drop_empty_channels st) = roster st"
  by (auto simp: roster_def drop_empty_get [OF assms] dead_channel_def split: option.splits if_splits)

lemma roster_part_one: "roster (part_one i why raw st) = roster st - {(norm_nick raw, i)}"
proof -
  have absent: "(norm_nick raw, i) \<notin> roster st"
    if "chan st raw = None \<or> \<not> chan_opt (\<lambda>c. is_member c i) False st raw"
    using that by (auto simp: roster_def chan_def chan_opt_def is_member_def)
  have links: "sv_chans (uuid_to_links i t s) = sv_chans s" for t s
    by (simp add: uuid_to_links_def Let_def split: option.split)
  have "roster (upd_chan (norm_nick raw) (\<lambda>c. snd (eject i c)) (uuid_to_links i t (upd_by_id i f st)))
      = roster st - {(norm_nick raw, i)}" for t f
    using roster_upd_remove [of "\<lambda>c. snd (eject i c)" i "norm_nick raw", OF eject_members]
    by (simp add: roster_upd_by_id roster_chans [OF links])
  then show ?thesis
    using absent by (auto simp: part_one_def Let_def roster_simps nosuch_channel_def not_on_channel_def chan_opt_def)
qed

lemma roster_handle_part:
  assumes "live i st" "first_opt (cmd_params cmd) = Some lst"
  shows "roster (handle_part i cmd st) = roster st - {(norm_nick raw, i) |raw. raw \<in> set (split_on (CHR '','') lst) \<and> raw \<noteq> []}"
proof -
  define part where "part = part_one i (nth_opt (cmd_params cmd) 1)"
  have fold: "roster (fold part rs s) = roster s - {(norm_nick raw, i) |raw. raw \<in> set rs}" for rs s
    by (induction rs arbitrary: s) (auto simp: part_def roster_part_one)
  have "live i (fold part rs st)" for rs
    using live_part_one assms(1) by (intro live_fold) (auto simp: part_def)
  then have "hm_wf (sv_chans (fold part rs st))" for rs
    using live_inv state_invD(3) by blast
  with assms(2) show ?thesis
    by (auto simp: handle_part_def roster_drop_empty fold simp flip: part_def One_nat_def)
qed

lemma roster_depart:
  assumes "state_inv st"
  shows "roster (depart i st) = {(k, j) \<in> roster st. j \<noteq> i}"
proof -
  have wf: "hm_wf (sv_chans (snd (eject_user i st)))"
    using state_invD(3) [OF assms] by (simp add: eject_user_snd hm_wf_def comp_def split_def)
  have "roster (depart i st) = roster (drop_empty_channels (snd (eject_user i st)))"
    unfolding depart_def by (rule roster_chans) (simp add: evict_same)
  also have "\<dots> = roster (snd (eject_user i st))" by (rule roster_drop_empty [OF wf])
  also have "\<dots> = {(k, j) \<in> roster st. j \<noteq> i}"
    by (auto simp: roster_def eject_user_snd map_of_map_snd strip_member_def)
  finally show ?thesis .
qed

text \<open>A kick takes one present member out, for an operator of the channel or the member itself.\<close>

definition kicked :: "server \<Rightarrow> nat \<Rightarrow> command \<Rightarrow> (string \<times> nat) set" where
  "kicked st i cmd = {(norm_nick raw, cx_id u) |raw target c u.
     first_opt (cmd_params cmd) = Some raw \<and> nth_opt (cmd_params cmd) 1 = Some target
     \<and> chan st raw = Some c \<and> i \<in> ch_members c \<and> lookup st (norm_nick target) = Some u
     \<and> cx_id u \<noteq> 0 \<and> cx_id u \<in> ch_members c \<and> (cx_id u = i \<or> i \<in> ch_ops c)}"

lemma roster_handle_kick:
  assumes "live i st"
  shows "roster (handle_kick i cmd st) = roster st - kicked st i cmd"
proof -
  have rm: "roster (remove_from_channel j ck s) = roster s - {(norm_nick ck, j)}" for j ck s
    using roster_upd_remove [of "\<lambda>c. snd (eject j c)" j ck s, OF eject_members]
    by (simp add: remove_from_channel_def roster_upd_by_id)
  have dr: "roster (drop_empty_channels (relay_all ids l (remove_from_channel j (norm_nick raw) st)))
      = roster st - {(norm_nick raw, j)}" for ids l j raw
  proof -
    have "live i (relay_all ids l (remove_from_channel j (norm_nick raw) st))"
      using live_remove_from_channel [OF assms] by (simp add: live_output)
    from roster_drop_empty [OF state_invD(3) [OF live_inv [OF this]]] show ?thesis
      by (simp add: roster_simps rm)
  qed
  note replies = need_more_params_def nosuch_channel_def not_on_channel_def user_not_in_channel_def chanop_privs_needed_def
  show ?thesis
  proof (cases "first_opt (cmd_params cmd)")
    case None
    then show ?thesis by (simp add: handle_kick_def kicked_def replies roster_simps)
  next
    case raw: (Some raw)
    show ?thesis
    proof (cases "chan st raw")
      case None
      with raw show ?thesis by (simp add: handle_kick_def kicked_def Let_def replies roster_simps)
    next
      case (Some c)
      with raw show ?thesis
        by (auto simp: handle_kick_def kicked_def Let_def replies roster_simps dr chan_opt_def is_op_def is_member_def
            split: option.splits)
    qed
  qed
qed

end
