(* ===== verification/Http.thy ===== *)
theory Http
  imports State Utf8
begin

text \<open>
  The status pages of \<^verbatim>\<open>src/http.rs\<close>: routing, the statistics as JSON, the request as it
  is read from a socket and the response written to it. The page itself, a file included at
  compile time, is an argument, and so are the contents of the release notes file.
\<close>

section \<open>Responses\<close>

record http_response =
  status :: nat
  content_type :: string
  body :: string

definition http_html :: "string \<Rightarrow> http_response" where
  "http_html b = \<lparr>status = 200, content_type = ''text/html; charset=utf-8'', body = b\<rparr>"

definition http_json :: "string \<Rightarrow> http_response" where
  "http_json b = \<lparr>status = 200, content_type = ''application/json'', body = b\<rparr>"

definition http_text :: "nat \<Rightarrow> string \<Rightarrow> http_response" where
  "http_text n b = \<lparr>status = n, content_type = ''text/plain; charset=utf-8'', body = b\<rparr>"

section \<open>JSON\<close>

definition hex_digit :: "nat \<Rightarrow> char" where
  "hex_digit n = ''0123456789abcdef'' ! n"

definition json_char :: "char \<Rightarrow> string" where
  "json_char c =
     (if c = CHR 0x22 then [CHR 0x5C, CHR 0x22]
      else if c = CHR 0x5C then [CHR 0x5C, CHR 0x5C]
      else if c = CHR 0x0A then [CHR 0x5C, CHR ''n'']
      else if c = CHR 0x0D then [CHR 0x5C, CHR ''r'']
      else if c = CHR 0x09 then [CHR 0x5C, CHR ''t'']
      else if byte_val c < 32
      then [CHR 0x5C, CHR ''u'', CHR ''0'', CHR ''0'', hex_digit (byte_val c div 16), hex_digit (byte_val c mod 16)]
      else [c])"

definition json_str :: "string \<Rightarrow> string" where
  "json_str s = [CHR 0x22] @ concat (map json_char s) @ [CHR 0x22]"

definition json_field :: "string \<Rightarrow> string \<Rightarrow> string" where
  "json_field name v = [CHR 0x22] @ name @ [CHR 0x22, CHR '':''] @ v"

definition stats_json :: "server \<Rightarrow> string" where
  "stats_json st = ''{'' @ join_with '',''
     [json_field ''server'' (json_str (sv_name st)), json_field ''version'' (json_str VERSION),
      json_field ''uptime_seconds'' (show_nat (uptime_secs st)),
      json_field ''users_online'' (show_nat (user_count st)),
      json_field ''peak_users'' (show_nat (sv_peak_users st)),
      json_field ''invisible'' (show_nat (invis_count st)),
      json_field ''operators'' (show_nat (oper_count st)),
      json_field ''channels'' (show_nat (chan_count st)),
      json_field ''registered_accounts'' (show_nat (length (acct_map (sv_accounts st)))),
      json_field ''registered_channels'' (show_nat (length (reg_map (sv_chanreg st)))),
      json_field ''total_connections'' (show_nat (unat (sv_total_connections st))),
      json_field ''messages_relayed'' (show_nat (unat (sv_messages_relayed st)))] @ ''}''"

text \<open>What the configured file holds, where it can be read.\<close>

definition no_releases :: string where
  "no_releases = ''{'' @ json_field ''releases'' ''[]'' @ ''}''"

definition releases_json :: "string option \<Rightarrow> server \<Rightarrow> string" where
  "releases_json notes st = (case release_notes_path (sv_conf st) of
     None \<Rightarrow> no_releases
   | Some _ \<Rightarrow> (case notes of
       Some contents \<Rightarrow> if trim contents \<noteq> [] then trim contents else no_releases
     | None \<Rightarrow> no_releases))"

section \<open>Requests\<close>

definition http_route :: "string \<Rightarrow> string option \<Rightarrow> string \<Rightarrow> server \<Rightarrow> http_response" where
  "http_route page notes path st =
     (if path \<in> {''/'', ''/index.html''} then http_html page
      else if path = ''/api/stats'' then http_json (stats_json st)
      else if path = ''/api/releases'' then http_json (releases_json notes st)
      else if path = ''/healthz'' then http_text 200 ''ok''
      else http_text 404 ''not found'')"

definition contains_sub :: "string \<Rightarrow> string \<Rightarrow> bool" where
  "contains_sub w s = list_ex (\<lambda>i. take (length w) (drop i s) = w) [0..<length s]"

definition head_complete :: "string \<Rightarrow> bool" where
  "head_complete got \<longleftrightarrow> contains_sub (crlf @ crlf) got \<or> 16384 < length got"

text \<open>The reads of a request: the bytes of each, empty at the end of the stream; \<open>None\<close> when a
  read fails or has not happened yet.\<close>

fun read_head :: "string \<Rightarrow> string list \<Rightarrow> string option" where
  "read_head got [] = None"
| "read_head got (c # cs) =
     (if c = [] then Some got
      else let g = got @ c in if head_complete g then Some g else read_head g cs)"

definition request_path :: "string \<Rightarrow> string" where
  "request_path got = (case nth_opt (split_whitespace (utf8_lossy got)) 1 of
     Some target \<Rightarrow> takeWhile (\<lambda>c. c \<noteq> CHR ''?'') target | None \<Rightarrow> ''/'')"

definition reason_phrase :: "nat \<Rightarrow> string" where
  "reason_phrase n = (if n = 200 then ''OK'' else if n = 404 then ''Not Found'' else ''Error'')"

definition http_payload :: "http_response \<Rightarrow> string" where
  "http_payload r = ''HTTP/1.1 '' @ show_nat (status r) @ '' '' @ reason_phrase (status r) @ crlf
     @ ''Content-Type: '' @ content_type r @ crlf
     @ ''Content-Length: '' @ show_nat (length (body r)) @ crlf
     @ ''Cache-Control: no-cache'' @ crlf @ ''Connection: close'' @ crlf @ crlf @ body r"

definition handle_conn :: "string \<Rightarrow> string option \<Rightarrow> string list \<Rightarrow> server \<Rightarrow> string option" where
  "handle_conn page notes reads st = map_option (\<lambda>got.
     http_payload (http_route page notes (request_path got) st)) (read_head [] reads)"

section \<open>JSON strings read back\<close>

definition hex_value :: "char \<Rightarrow> nat" where
  "hex_value c = (if is_digit c then byte_val c - 48 else byte_val c - 87)"

text \<open>The reference reader of a JSON string after its opening quote; the result leaves what
  follows the closing quote.\<close>

fun json_read :: "string \<Rightarrow> (string \<times> string) option" where
  "json_read [] = None"
| "json_read (c # cs) =
     (if c = CHR 0x22 then Some ([], cs)
      else if c = CHR 0x5C then
        (case cs of
           e # rest \<Rightarrow>
             (if e = CHR ''u'' then
                (case rest of
                   a # b # x # y # tail \<Rightarrow> map_option (\<lambda>(s, r).
                     (char_of (hex_value x * 16 + hex_value y) # s, r)) (json_read tail)
                 | _ \<Rightarrow> None)
              else map_option (\<lambda>(s, r).
                ((if e = CHR ''n'' then CHR 0x0A else if e = CHR ''r'' then CHR 0x0D
                  else if e = CHR ''t'' then CHR 0x09 else e) # s, r)) (json_read rest))
         | [] \<Rightarrow> None)
      else map_option (\<lambda>(s, r). (c # s, r)) (json_read cs))"

lemma hex_value_digit:
  assumes "n < 16"
  shows "hex_value (hex_digit n) = n"
proof -
  have "list_all (\<lambda>k. hex_value (hex_digit k) = k) [0..<16]" by code_simp
  then show ?thesis using assms by (simp add: list_all_iff)
qed

lemma json_read_char:
  assumes "json_read r = Some (s, t)"
  shows "json_read (json_char c @ r) = Some (c # s, t)"
proof -
  have "byte_val c div 16 * 16 + byte_val c mod 16 = byte_val c" by presburger
  moreover have "char_of (byte_val c) = c" by simp
  moreover have "byte_val c div 16 < 16" if "byte_val c < 32" using that by simp
  ultimately show ?thesis by (simp add: json_char_def assms hex_value_digit)
qed

lemma json_read_chars: "json_read (concat (map json_char s) @ CHR 0x22 # r) = Some (s, r)"
  by (induction s) (auto simp: json_read_char)

lemma json_read_str: "\<exists>q. json_str s @ r = CHR 0x22 # q \<and> json_read q = Some (s, r)"
  using json_read_chars [of s r] by (simp add: json_str_def)

lemma read_head_bound:
  assumes "read_head got cs = Some g" "\<forall>c \<in> set cs. length c \<le> 4096" "length got \<le> 16384"
  shows "length g \<le> 20480"
  using assms
proof (induction got cs rule: read_head.induct)
  case (2 got c cs)
  show ?case
  proof (cases "head_complete (got @ c)")
    case True
    then show ?thesis using 2 by (auto split: if_splits)
  next
    case False
    then have "length (got @ c) \<le> 16384" by (simp add: head_complete_def)
    then show ?thesis using 2 False by (auto split: if_splits)
  qed
qed simp

lemma read_head_answers:
  assumes "16384 < length (got @ concat cs)" "length got \<le> 16384"
  shows "\<exists>g. read_head got cs = Some g"
  using assms
proof (induction got cs rule: read_head.induct)
  case (2 got c cs)
  show ?case
  proof (cases "c = [] \<or> head_complete (got @ c)")
    case True
    then show ?thesis by auto
  next
    case False
    then have "length (got @ c) \<le> 16384" by (simp add: head_complete_def)
    then show ?thesis using 2 False by auto
  qed
qed simp

lemma http_route_status: "status (http_route page notes path st) = 200 \<longleftrightarrow>
    path \<in> {''/'', ''/index.html'', ''/api/stats'', ''/api/releases'', ''/healthz''}"
  by (simp add: http_route_def http_html_def http_json_def http_text_def)

end
