(* ===== verification/Logging.thy ===== *)
theory Logging
  imports Session
begin

text \<open>
  \<^verbatim>\<open>src/log.rs\<close>: levels, the rendering of an event as one line, and the counters that stand in
  for high-volume events between two ticks. The escape the standard library gives a non-ASCII
  character in a quoted string is an argument of the rendering.
\<close>

section \<open>Levels\<close>

abbreviation (input) LOG_ERROR :: nat where "LOG_ERROR \<equiv> 0"
abbreviation (input) LOG_WARN :: nat where "LOG_WARN \<equiv> 1"
abbreviation (input) LOG_INFO :: nat where "LOG_INFO \<equiv> 2"
abbreviation (input) LOG_DEBUG :: nat where "LOG_DEBUG \<equiv> 3"
abbreviation (input) LOG_SILENT :: nat where "LOG_SILENT \<equiv> 255"

definition log_level :: "environ \<Rightarrow> nat" where
  "log_level env =
     (let v = lower (str_default (env ''IRC_LOG_LEVEL''))
      in if v = ''error'' then LOG_ERROR
         else if v \<in> {''warn'', ''warning''} then LOG_WARN
         else if v = ''debug'' then LOG_DEBUG
         else if v \<in> {''silent'', ''off''} then LOG_SILENT
         else LOG_INFO)"

definition log_enabled :: "environ \<Rightarrow> nat \<Rightarrow> bool" where
  "log_enabled env want \<longleftrightarrow> log_level env \<noteq> LOG_SILENT \<and> want \<le> log_level env"

definition log_label :: "nat \<Rightarrow> string" where
  "log_label l = (if l = LOG_ERROR then ''ERROR'' else if l = LOG_WARN then ''WARN''
     else if l = LOG_DEBUG then ''DEBUG'' else ''INFO'')"

section \<open>Events\<close>

text \<open>\<^verbatim>\<open>char::is_control\<close>: U+0000 to U+001F and U+007F to U+009F.\<close>

definition is_control :: "string \<Rightarrow> bool" where
  "is_control ch \<longleftrightarrow> (case map byte_val ch of
     [b] \<Rightarrow> b < 32 \<or> b = 127
   | [a, b] \<Rightarrow> a = 194 \<and> b < 160
   | _ \<Rightarrow> False)"

definition debug_char :: "(string \<Rightarrow> string) \<Rightarrow> string \<Rightarrow> string" where
  "debug_char esc ch =
     (if ch = [CHR 0x22] \<or> ch = [CHR 0x5C] then CHR 0x5C # ch
      else if list_all is_ascii ch then ch else esc ch)"

definition log_val :: "(string \<Rightarrow> string) \<Rightarrow> string \<Rightarrow> string" where
  "log_val esc v =
     (let clean = filter (\<lambda>ch. \<not> is_control ch) (utf8_chars v)
      in if clean = [] \<or> [CHR '' ''] \<in> set clean \<or> [CHR 0x22] \<in> set clean
         then [CHR 0x22] @ concat (map (debug_char esc) clean) @ [CHR 0x22]
         else concat clean)"

type_synonym log_record = "nat \<times> string \<times> (string \<times> string) list"

definition log_line :: "(string \<Rightarrow> string) \<Rightarrow> string \<Rightarrow> log_record \<Rightarrow> string" where
  "log_line esc timestamp e = (case e of (lvl, name, fs) \<Rightarrow>
     timestamp @ '' '' @ log_label lvl @ '' '' @ name
     @ concat (map (\<lambda>(k, v). '' '' @ k @ ''='' @ log_val esc v) fs))"

definition log_event :: "environ \<Rightarrow> (string \<Rightarrow> string) \<Rightarrow> string \<Rightarrow> log_record \<Rightarrow> string list" where
  "log_event env esc timestamp e = (if log_enabled env (fst e) then [log_line esc timestamp e] else [])"

definition conn_open :: "nat \<Rightarrow> string \<Rightarrow> string \<Rightarrow> string \<Rightarrow> log_record" where
  "conn_open i src cloak tls_hint =
     (LOG_DEBUG, ''conn.open'', [(''id'', show_nat i), (''src'', src), (''cloak'', cloak), (''via'', tls_hint)])"

definition conn_close :: "nat \<Rightarrow> string \<Rightarrow> string \<Rightarrow> string \<Rightarrow> log_record" where
  "conn_close i src nick why =
     (LOG_DEBUG, ''conn.close'', [(''id'', show_nat i), (''src'', src), (''nick'', nick), (''reason'', why)])"

definition conn_open_peer :: "nat \<Rightarrow> string \<Rightarrow> string \<Rightarrow> string \<Rightarrow> string \<Rightarrow> log_record" where
  "conn_open_peer i src cloak peer via =
     (LOG_DEBUG, ''conn.open'',
      [(''id'', show_nat i), (''src'', src), (''peer'', peer), (''cloak'', cloak), (''via'', via)])"

definition session_registered :: "nat \<Rightarrow> string \<Rightarrow> string \<Rightarrow> string \<Rightarrow> log_record" where
  "session_registered i src cloak nick =
     (LOG_INFO, ''session.registered'', [(''id'', show_nat i), (''src'', src), (''cloak'', cloak), (''nick'', nick)])"

definition log_auth :: "nat \<Rightarrow> string \<Rightarrow> string \<Rightarrow> string \<Rightarrow> bool \<Rightarrow> log_record" where
  "log_auth i src account mechanism ok =
     (if ok then LOG_INFO else LOG_WARN, ''auth'',
      [(''id'', show_nat i), (''src'', src), (''account'', account), (''mech'', mechanism),
       (''result'', if ok then ''ok'' else ''fail'')])"

definition oper_action :: "string \<Rightarrow> string \<Rightarrow> string \<Rightarrow> string \<Rightarrow> log_record" where
  "oper_action actor action target why =
     (LOG_WARN, ''oper.action'', [(''actor'', actor), (''action'', action), (''target'', target), (''reason'', why)])"

definition heartbeat :: "nat \<Rightarrow> nat \<Rightarrow> nat \<Rightarrow> nat \<Rightarrow> log_record" where
  "heartbeat users chans conns srcs =
     (LOG_DEBUG, ''server.state'',
      [(''users'', show_nat users), (''channels'', show_nat chans), (''connections'', show_nat conns),
       (''sources'', show_nat srcs)])"

section \<open>Counters\<close>

text \<open>The counters are a \<^verbatim>\<open>BTreeMap\<close>, a list in the order of its keys; a count wraps at
  \<^verbatim>\<open>u64\<close>.\<close>

type_synonym counters = "(string \<times> u64) list"

fun bump :: "string \<Rightarrow> counters \<Rightarrow> counters" where
  "bump k [] = [(k, 1)]"
| "bump k ((j, n) # m) =
     (if k = j then (j, n + 1) # m else if k < j then (k, 1) # (j, n) # m else (j, n) # bump k m)"

definition counted_key :: "string \<Rightarrow> string \<Rightarrow> string" where
  "counted_key name detail = (if detail = [] then name else name @ '' '' @ detail)"

definition counted :: "string \<Rightarrow> string \<Rightarrow> counters \<Rightarrow> counters" where
  "counted name detail = bump (counted_key name detail)"

definition proxy_rejected :: "string \<Rightarrow> counters \<Rightarrow> counters" where
  "proxy_rejected = counted ''proxy.rejected''"

definition log_refused :: "string \<Rightarrow> counters \<Rightarrow> counters" where
  "log_refused = counted ''conn.refused''"

definition log_flood :: "string \<Rightarrow> counters \<Rightarrow> counters" where
  "log_flood = counted ''flood''"

definition key_parts :: "string \<Rightarrow> string \<times> string" where
  "key_parts key = (case split_once (CHR '' '') key of Some p \<Rightarrow> p | None \<Rightarrow> (key, []))"

definition flush_counters :: "counters \<Rightarrow> (string \<times> string \<times> u64) list \<times> counters" where
  "flush_counters m = (map (\<lambda>(key, n). case key_parts key of (name, detail) \<Rightarrow> (name, detail, n)) m, [])"

definition flushed_record :: "string \<times> string \<times> u64 \<Rightarrow> log_record" where
  "flushed_record t = (case t of (name, detail, n) \<Rightarrow>
     (LOG_WARN, name, [(''detail'', detail), (''count'', show_nat (unat n))]))"

section \<open>No event is lost or counted twice\<close>

lemma bump_get:
  assumes "sorted (map fst m)" "distinct (map fst m)"
  shows "map_of (bump k m) j = (if j = k then Some ((case map_of m k of Some n \<Rightarrow> n | None \<Rightarrow> 0) + 1) else map_of m j)"
  using assms
proof (induction k m rule: bump.induct)
  case (2 k j' n m)
  have "map_of m k = None" if "k < j'"
    using 2(2) that by (auto simp: map_of_eq_None_iff)
  then show ?case using 2 by (auto simp: add.commute)
qed simp

lemma bump_keys: "fst ` set (bump k m) = insert k (fst ` set m)"
  by (induction k m rule: bump.induct) auto

lemma bump_wf:
  assumes "sorted (map fst m)" "distinct (map fst m)"
  shows "sorted (map fst (bump k m)) \<and> distinct (map fst (bump k m))"
  using assms
proof (induction k m rule: bump.induct)
  case (2 k j n m)
  have "fst ` set (bump k m) = insert k (fst ` set m)" by (rule bump_keys)
  then show ?case using 2 by (auto simp: less_le)
qed simp

lemma fold_bump:
  "sorted (map fst (fold bump ks [])) \<and> distinct (map fst (fold bump ks []))
   \<and> map_of (fold bump ks []) k = (if k \<in> set ks then Some (word_of_nat (count_list ks k)) else None)"
proof (induction ks rule: rev_induct)
  case (snoc x xs)
  then show ?case
    using bump_wf [of "fold bump xs []" x]
    by (simp add: bump_get) (auto simp: count_notin)
qed simp

lemma key_parts_counted:
  assumes "CHR '' '' \<notin> set name"
  shows "key_parts (counted_key name detail) = (name, detail)"
  using assms by (simp add: key_parts_def counted_key_def split_once_append split_once_none)

lemma count_list_map_inj:
  assumes "\<And>y. y \<in> set xs \<Longrightarrow> f y = f x \<longleftrightarrow> y = x"
  shows "count_list (map f xs) (f x) = count_list xs x"
  using assms by (induction xs) auto

definition event_key :: "string \<times> string \<Rightarrow> string" where
  "event_key e = counted_key (fst e) (snd e)"

lemma fold_counted: "fold (\<lambda>(name, detail). counted name detail) evs m = fold bump (map event_key evs) m"
  by (induction evs arbitrary: m) (auto simp: counted_def event_key_def)

lemma flush_totals:
  assumes "\<forall>e \<in> set evs. CHR '' '' \<notin> set (fst e)"
  defines "totals \<equiv> fst (flush_counters (fold (\<lambda>(name, detail). counted name detail) evs []))"
  shows "set totals = (\<lambda>(name, detail). (name, detail, word_of_nat (count_list evs (name, detail)))) ` set evs"
    and "distinct (map (\<lambda>(name, detail, _). (name, detail)) totals)"
proof -
  define m where "m = fold bump (map event_key evs) []"
  define g :: "string \<times> u64 \<Rightarrow> string \<times> string \<times> u64"
    where "g = (\<lambda>(key, n). case key_parts key of (name, detail) \<Rightarrow> (name, detail, n))"
  have tot: "totals = map g m" by (simp add: totals_def flush_counters_def fold_counted m_def g_def)
  have parts: "key_parts (event_key e) = e" if "e \<in> set evs" for e
    using assms(1) that key_parts_counted [of "fst e" "snd e"] by (simp add: event_key_def)
  have wf: "distinct (map fst m)" and get: "map_of m k = (if k \<in> event_key ` set evs
      then Some (word_of_nat (count_list (map event_key evs) k)) else None)" for k
    using fold_bump [of "map event_key evs"] by (simp_all add: m_def)
  have mem: "(k, n) \<in> set m \<longleftrightarrow> (\<exists>e\<in>set evs. k = event_key e \<and> n = word_of_nat (count_list evs e))" for k n
  proof -
    have "(k, n) \<in> set m \<longleftrightarrow> map_of m k = Some n" using wf by simp
    also have "\<dots> \<longleftrightarrow> (\<exists>e\<in>set evs. k = event_key e \<and> n = word_of_nat (count_list (map event_key evs) (event_key e)))"
      by (auto simp: get)
    finally show ?thesis
      using count_list_map_inj [of evs event_key] parts by (metis (no_types, lifting))
  qed
  have g_at: "g (event_key e, n) = (fst e, snd e, n)" if "e \<in> set evs" for e n
    using parts [OF that] by (simp add: g_def split: prod.split)
  have "set m = (\<lambda>e. (event_key e, word_of_nat (count_list evs e))) ` set evs"
    using mem by (auto simp: image_iff)
  then have "set totals = (\<lambda>e. g (event_key e, word_of_nat (count_list evs e))) ` set evs"
    by (simp add: tot image_image)
  also have "\<dots> = (\<lambda>(name, detail). (name, detail, word_of_nat (count_list evs (name, detail)))) ` set evs"
    by (rule image_cong) (simp_all add: g_at split: prod.split)
  finally show "set totals = (\<lambda>(name, detail). (name, detail, word_of_nat (count_list evs (name, detail)))) ` set evs" .
  have "map (\<lambda>(name, detail, _). (name, detail)) totals = map key_parts (map fst m)"
    by (simp add: tot g_def split_def comp_def)
  moreover have "inj_on key_parts (set (map fst m))"
    by (rule inj_onI) (auto simp: mem parts)
  ultimately show "distinct (map (\<lambda>(name, detail, _). (name, detail)) totals)"
    using wf by (simp add: distinct_map comp_inj_on)
qed

section \<open>No event forges another\<close>

definition printable :: "char \<Rightarrow> bool" where
  "printable c \<longleftrightarrow> 32 \<le> byte_val c \<and> byte_val c \<noteq> 127"

text \<open>In well-formed text an ASCII byte stands alone.\<close>

lemma utf8_wf_successive: "utf8_wf ns \<Longrightarrow> successively (\<lambda>a b. a < 128 \<longrightarrow> \<not> cont_byte b) ns"
proof (induction ns rule: length_induct)
  case (1 ns)
  show ?case
  proof (cases ns)
    case (Cons a r)
    with 1 obtain n where n: "lossy_step a r = (True, n)" and wf: "utf8_wf (drop (n - 1) r)"
      using utf8_wf_step by blast
    have ih: "successively (\<lambda>a b. a < 128 \<longrightarrow> \<not> cont_byte b) (drop (n - 1) r)"
      using 1(1) wf Cons by simp
    have hd: "\<not> cont_byte b" if "utf8_wf (b # r')" for b r'
      using that by (auto simp: cont_byte_def split: if_splits)
    from n show ?thesis
    proof (cases rule: lossy_step_cases)
      case ascii
      with wf have "\<not> cont_byte (hd r)" if "r \<noteq> []" using hd that by (cases r) auto
      with ih ascii Cons show ?thesis by (auto simp: successively_Cons)
    qed (use ih Cons in \<open>auto simp: successively_Cons utf8_byte_defs split: if_splits\<close>)
  qed simp
qed

lemma utf8_ascii_alone:
  assumes "successively (\<lambda>a b. byte_val a < 128 \<longrightarrow> \<not> is_cont b) s" "ch \<in> set (utf8_chars s)"
  shows "(\<exists>c. ch = [c]) \<or> list_all (\<lambda>c. 128 \<le> byte_val c) ch"
  using assms
proof (induction s rule: utf8_chars.induct)
  case (2 c cs)
  have rest: "successively (\<lambda>a b. byte_val a < 128 \<longrightarrow> \<not> is_cont b) (dropWhile is_cont cs)"
    using 2(2) by (metis successively_append_iff takeWhile_dropWhile_id append_Cons)
  consider (front) "ch = c # takeWhile is_cont cs" | (later) "ch \<in> set (utf8_chars (dropWhile is_cont cs))"
    using 2(3) by auto
  then show ?case
  proof cases
    case front
    have "takeWhile is_cont cs = []" if "byte_val c < 128"
      using 2(2) that by (cases cs) (auto simp: successively_Cons)
    moreover have "list_all (\<lambda>c. 128 \<le> byte_val c) (takeWhile is_cont cs)"
      by (auto simp: list_all_iff is_cont_def dest!: set_takeWhileD)
    ultimately show ?thesis using front by (cases "byte_val c < 128") auto
  next
    case later
    with rest "2.IH" show ?thesis by blast
  qed
qed simp

lemma utf8_char_cases:
  assumes "is_utf8 v" "ch \<in> set (utf8_chars v)"
  shows "(\<exists>c. ch = [c]) \<or> list_all (\<lambda>c. 128 \<le> byte_val c) ch"
proof -
  have "successively (\<lambda>a b. byte_val a < 128 \<longrightarrow> \<not> is_cont b) v"
  proof -
    have "is_cont b \<longleftrightarrow> cont_byte (byte_val b)" for b by (auto simp: is_cont_def cont_byte_def)
    with utf8_wf_successive [of "map byte_val v"] assms(1) show ?thesis
      by (simp add: is_utf8_def successively_map)
  qed
  from utf8_ascii_alone [OF this assms(2)] show ?thesis .
qed

lemma clean_printable:
  assumes "is_utf8 v" "ch \<in> set (utf8_chars v)" "\<not> is_control ch" "c \<in> set ch"
  shows "printable c"
  using utf8_char_cases [OF assms(1,2)] assms(3,4)
  by (auto simp: is_control_def printable_def list_all_iff)

lemma log_val_printable:
  assumes "is_utf8 v" "\<And>ch. list_all printable ch \<Longrightarrow> list_all printable (esc ch)"
  shows "list_all printable (log_val esc v)"
proof -
  have one: "list_all printable ch" if "ch \<in> set (filter (\<lambda>ch. \<not> is_control ch) (utf8_chars v))" for ch
    using clean_printable [OF assms(1)] that by (auto simp: list_all_iff)
  then have "list_all printable (debug_char esc ch)"
    if "ch \<in> set (filter (\<lambda>ch. \<not> is_control ch) (utf8_chars v))" for ch
    using that assms(2) by (auto simp: debug_char_def printable_def)
  with one show ?thesis
    by (auto simp: log_val_def Let_def list_all_iff) (auto simp: printable_def)
qed

lemma log_val_unquoted:
  assumes "is_utf8 v" "hd (log_val esc v) \<noteq> CHR 0x22"
  shows "CHR '' '' \<notin> set (log_val esc v)"
proof
  assume sp: "CHR '' '' \<in> set (log_val esc v)"
  let ?clean = "filter (\<lambda>ch. \<not> is_control ch) (utf8_chars v)"
  have plain: "log_val esc v = concat ?clean" "[CHR '' ''] \<notin> set ?clean"
    using assms(2) by (auto simp: log_val_def Let_def split: if_splits)
  with sp obtain ch where ch: "ch \<in> set ?clean" "CHR '' '' \<in> set ch" by auto
  with utf8_char_cases [OF assms(1)] have "ch = [CHR '' '']" by (fastforce simp: list_all_iff)
  with ch plain(2) show False by simp
qed

text \<open>One event is one line.\<close>

lemma log_line_printable:
  assumes "list_all printable timestamp" "list_all printable name"
    "\<And>k v. (k, v) \<in> set fs \<Longrightarrow> list_all printable k \<and> is_utf8 v"
    "\<And>ch. list_all printable ch \<Longrightarrow> list_all printable (esc ch)"
  shows "list_all printable (log_line esc timestamp (lvl, name, fs))"
proof -
  have "list_all printable (log_val esc v) \<and> list_all printable k" if "(k, v) \<in> set fs" for k v
    using assms(3) [OF that] log_val_printable [of v esc] assms(4) by blast
  then have "list_all printable (concat (map (\<lambda>(k, v). '' '' @ k @ ''='' @ log_val esc v) fs))"
    by (fastforce simp: list_all_iff printable_def)
  moreover have "list_all printable (log_label lvl)" "printable (CHR '' '')"
    by (simp_all add: log_label_def printable_def)
  ultimately show ?thesis using assms(1,2) by (simp add: log_line_def)
qed

end
