(* ===== verification/Tls.thy ===== *)
theory Tls
  imports Logging Remote
begin

text \<open>
  What \<^verbatim>\<open>src/tls.rs\<close> decides itself: the PEM reader, the choice of certificate and key, the
  client certificate and pinned-fingerprint verifiers, and how a server link is dialled and accepted
  (\<^verbatim>\<open>maintain_peer\<close> and \<^verbatim>\<open>serve_links\<close> of \<^verbatim>\<open>src/link.rs\<close>). The
  handshake and its signatures are the TLS library's, so they are arguments.
\<close>

section \<open>PEM\<close>

text \<open>\<^verbatim>\<open>str::find\<close> for a string pattern.\<close>

fun find_sub :: "string \<Rightarrow> string \<Rightarrow> nat option" where
  "find_sub w [] = (if w = [] then Some 0 else None)"
| "find_sub w (c # s) =
     (if take (length w) (c # s) = w then Some 0 else map_option Suc (find_sub w s))"

definition pem_begin :: "string \<Rightarrow> string" where
  "pem_begin label = ''-----BEGIN '' @ label @ ''-----''"

definition pem_end :: "string \<Rightarrow> string" where
  "pem_end label = ''-----END '' @ label @ ''-----''"

lemma find_sub_Some: "find_sub w s = Some i \<Longrightarrow> i + length w \<le> length s \<and> take (length w) (drop i s) = w"
proof (induction s arbitrary: i)
  case (Cons c s)
  then show ?case
    by (auto split: if_splits) (metis length_take min.bounded_iff order_refl length_Cons)
qed (auto split: if_splits)

function pem_blocks :: "string \<Rightarrow> string \<Rightarrow> u8 list list" where
  "pem_blocks rest label = (case find_sub (pem_begin label) rest of
     None \<Rightarrow> []
   | Some start \<Rightarrow>
       let after = drop (start + length (pem_begin label)) rest
       in case find_sub (pem_end label) after of
            None \<Rightarrow> []
          | Some stop \<Rightarrow>
              (case base64_decode (take stop after) of
                 Some der \<Rightarrow> if der \<noteq> [] then [der] else []
               | None \<Rightarrow> [])
              @ pem_blocks (drop (stop + length (pem_end label)) after) label)"
  by pat_completeness auto

termination
  by (relation "measure (\<lambda>(rest, _). length rest)")
    (auto simp: pem_begin_def dest!: find_sub_Some)

declare pem_blocks.simps [simp del]

datatype private_key = Pkcs8 "u8 list" | Pkcs1 "u8 list" | Sec1 "u8 list"

definition parse_key :: "string \<Rightarrow> private_key option" where
  "parse_key pem = (case pem_blocks pem ''PRIVATE KEY'' of
     der # _ \<Rightarrow> Some (Pkcs8 der)
   | [] \<Rightarrow> (case pem_blocks pem ''RSA PRIVATE KEY'' of
       der # _ \<Rightarrow> Some (Pkcs1 der)
     | [] \<Rightarrow> (case pem_blocks pem ''EC PRIVATE KEY'' of
         der # _ \<Rightarrow> Some (Sec1 der)
       | [] \<Rightarrow> None)))"

section \<open>Acceptors\<close>

datatype tls_error = BadEncoding | General string

text \<open>The verifier of client certificates: any certificate with content, none required.\<close>

definition offer_client_auth :: bool where "offer_client_auth = True"
definition client_auth_mandatory :: bool where "client_auth_mandatory = False"
definition root_hint_subjects :: "string list" where "root_hint_subjects = []"

definition verify_client_cert :: "u8 list \<Rightarrow> tls_error + unit" where
  "verify_client_cert end_entity = (if end_entity = [] then Inl BadEncoding else Inr ())"

text \<open>Both verifiers leave the signatures to the library, with the algorithms of their provider: \<open>lib12\<close>
  and \<open>lib13\<close> are its checks of a signed message under a certificate.\<close>

record ('alg, 'scheme) provider =
  pv_algorithms :: 'alg
  pv_schemes :: "'scheme list"

type_synonym 'alg signature_check = "u8 list \<Rightarrow> u8 list \<Rightarrow> u8 list \<Rightarrow> 'alg \<Rightarrow> tls_error + unit"

definition verify_tls12_signature ::
    "'alg signature_check \<Rightarrow> ('alg, 'scheme) provider \<Rightarrow> u8 list \<Rightarrow> u8 list \<Rightarrow> u8 list \<Rightarrow> tls_error + unit" where
  "verify_tls12_signature lib12 p msg cert dss = lib12 msg cert dss (pv_algorithms p)"

definition verify_tls13_signature ::
    "'alg signature_check \<Rightarrow> ('alg, 'scheme) provider \<Rightarrow> u8 list \<Rightarrow> u8 list \<Rightarrow> u8 list \<Rightarrow> tls_error + unit" where
  "verify_tls13_signature lib13 p msg cert dss = lib13 msg cert dss (pv_algorithms p)"

definition supported_verify_schemes :: "('alg, 'scheme) provider \<Rightarrow> 'scheme list" where
  "supported_verify_schemes p = pv_schemes p"

record acceptor =
  ac_chain :: "u8 list list"
  ac_key :: private_key
  ac_client_cert :: bool

text \<open>
  \<^verbatim>\<open>build_acceptor\<close>. \<open>prov\<close> says whether the library has a cryptography provider installed,
  \<open>file\<close> is what reading a path gives, an error or the contents, and \<open>pair_error\<close> is the
  library's judgement of a chain and a key.
\<close>

definition build_acceptor ::
    "bool \<Rightarrow> (string \<Rightarrow> string + string) \<Rightarrow> (u8 list list \<Rightarrow> private_key \<Rightarrow> string option) \<Rightarrow> string \<Rightarrow> string \<Rightarrow> bool
       \<Rightarrow> string + acceptor" where
  "build_acceptor prov file pair_error cert_path key_path offer = (case file cert_path of
     Inl e \<Rightarrow> Inl (''cannot read certificate '' @ cert_path @ '': '' @ e)
   | Inr cert_pem \<Rightarrow> (case file key_path of
       Inl e \<Rightarrow> Inl (''cannot read private key '' @ key_path @ '': '' @ e)
     | Inr key_pem \<Rightarrow>
         let chain = pem_blocks cert_pem ''CERTIFICATE''
         in if chain = [] then Inl (''no CERTIFICATE block in '' @ cert_path)
            else case parse_key key_pem of
              None \<Rightarrow> Inl (''no usable private key in '' @ key_path)
            | Some key \<Rightarrow>
                (if offer \<and> \<not> prov then Inl ''no crypto provider installed''
                 else case pair_error chain key of
                Some e \<Rightarrow> Inl (''certificate and key do not form a valid pair: '' @ e)
              | None \<Rightarrow> Inr \<lparr>ac_chain = chain, ac_key = key, ac_client_cert = offer\<rparr>)))"

abbreviation acceptor_from_files where
  "acceptor_from_files prov file pair_error cert key \<equiv> build_acceptor prov file pair_error cert key False"

abbreviation irc_acceptor_from_files where
  "irc_acceptor_from_files prov file pair_error cert key \<equiv> build_acceptor prov file pair_error cert key True"

definition tls_configured :: "environ \<Rightarrow> (nat \<times> string \<times> string) option" where
  "tls_configured env = (case Option.bind (env ''IRC_TLS_PORT'') parse_u16 of
     None \<Rightarrow> None
   | Some port \<Rightarrow>
       (if port = 0 then None
        else Some (port, opt_default ''/certs/tls.crt'' (env ''IRC_TLS_CERT''),
                   opt_default ''/certs/tls.key'' (env ''IRC_TLS_KEY''))))"

section \<open>Pinned links\<close>

definition radix16 :: "char \<Rightarrow> nat" where
  "radix16 c = (if is_digit c then byte_val c - 48
     else if 97 \<le> byte_val c then byte_val c - 87 else byte_val c - 55)"

fun hex_pairs :: "string \<Rightarrow> u8 list" where
  "hex_pairs (x # y # r) = word_of_nat (radix16 x * 16 + radix16 y) # hex_pairs r"
| "hex_pairs _ = []"

definition parse_fingerprint :: "string \<Rightarrow> u8 list option" where
  "parse_fingerprint s =
     (let clean = filter is_hexdigit s in if length clean \<noteq> 64 then None else Some (hex_pairs clean))"

definition verify_server_cert :: "u8 list \<Rightarrow> u8 list \<Rightarrow> tls_error + unit" where
  "verify_server_cert expected end_entity =
     (let got = sha256 end_entity
      in if got = expected then Inr ()
         else Inl (General (''link certificate fingerprint mismatch: expected '' @ hex expected
                @ '', got '' @ hex got)))"

text \<open>\<^verbatim>\<open>link_connector\<close>: what the connector pins. \<open>prov\<close> as for the acceptors.\<close>

definition link_connector :: "bool \<Rightarrow> string \<Rightarrow> string + u8 list" where
  "link_connector prov fingerprint = (case parse_fingerprint fingerprint of
     None \<Rightarrow> Inl ''link fingerprint must be 64 hex characters (SHA-256)''
   | Some expected \<Rightarrow> (if prov then Inr expected else Inl ''no crypto provider installed''))"

definition own_fingerprint :: "(string \<Rightarrow> string + string) \<Rightarrow> string \<Rightarrow> string option" where
  "own_fingerprint file cert_path = (case file cert_path of
     Inl _ \<Rightarrow> None
   | Inr pem \<Rightarrow> (case pem_blocks pem ''CERTIFICATE'' of
       der # _ \<Rightarrow> Some (hex (sha256 der))
     | [] \<Rightarrow> None))"

section \<open>Dialling and accepting links\<close>

text \<open>What an attempt at a link comes to: a session with the far side at an address, over TLS with the
  certificate it showed or in the clear; an event in the log; or an event that is only counted.\<close>

datatype attempt =
    RunSession string "u8 list option"
  | Logged log_record
  | Counted string string

text \<open>One round of \<^verbatim>\<open>maintain_peer\<close>. \<open>connect\<close> is the result of connecting to an address;
  \<open>handshake\<close> is the library's, given the verifier of the server's certificate: an error, or the
  certificate of the far side.\<close>

definition dial_peer ::
    "bool \<Rightarrow> (string \<Rightarrow> string + unit) \<Rightarrow> ((u8 list \<Rightarrow> tls_error + unit) \<Rightarrow> string + u8 list) \<Rightarrow> string \<Rightarrow> attempt" where
  "dial_peer prov connect handshake peer = (case peer_target peer of (addr, fingerprint) \<Rightarrow>
     (case connect addr of
        Inl _ \<Rightarrow> Counted ''link.connect_failed'' peer
      | Inr _ \<Rightarrow> (case fingerprint of
          None \<Rightarrow> RunSession addr None
        | Some fp \<Rightarrow> (case link_connector prov fp of
            Inl e \<Rightarrow> Logged (LOG_ERROR, ''link.tls_config_failed'', [(''error'', e)])
          | Inr expected \<Rightarrow> (case handshake (verify_server_cert expected) of
              Inr cert \<Rightarrow> RunSession addr (Some cert)
            | Inl e \<Rightarrow> Logged (LOG_ERROR, ''link.tls_failed'', [(''peer'', addr), (''error'', e)]))))))"

text \<open>The listener (\<^verbatim>\<open>serve_links\<close>): the certificate it may use, with what it logs.\<close>

definition link_acceptor ::
    "bool \<Rightarrow> (string \<Rightarrow> string + string) \<Rightarrow> (u8 list list \<Rightarrow> private_key \<Rightarrow> string option) \<Rightarrow> environ
       \<Rightarrow> acceptor option \<times> log_record list" where
  "link_acceptor prov file pair_error env =
     (if \<not> link_tls_enabled env then (None, [])
      else case tls_configured env of
        None \<Rightarrow> (None, [(LOG_ERROR, ''link.tls_no_cert'', [])])
      | Some (_, cert, key) \<Rightarrow> (case acceptor_from_files prov file pair_error cert key of
          Inl e \<Rightarrow> (None, [(LOG_ERROR, ''link.tls_config_failed'', [(''error'', e)])])
        | Inr a \<Rightarrow> (Some a, (case own_fingerprint file cert of
              Some fp \<Rightarrow> [(LOG_INFO, ''link.fingerprint'', [(''sha256'', fp)])] | None \<Rightarrow> []))))"

text \<open>\<open>Inl\<close> is the event with which the listener gives up; otherwise it listens, in the clear when
  there is no acceptor.\<close>

definition serve_links ::
    "bool \<Rightarrow> (string \<Rightarrow> string + string) \<Rightarrow> (u8 list list \<Rightarrow> private_key \<Rightarrow> string option) \<Rightarrow> (nat \<Rightarrow> string option)
       \<Rightarrow> environ \<Rightarrow> nat \<Rightarrow> log_record + acceptor option \<times> log_record list" where
  "serve_links prov file pair_error bind_error env port = (case bind_error port of
     Some e \<Rightarrow> Inl (LOG_ERROR, ''link.bind_failed'', [(''port'', show_nat port), (''error'', e)])
   | None \<Rightarrow> (case link_acceptor prov file pair_error env of (acc, log) \<Rightarrow>
       Inr (acc, log @ [(LOG_INFO, ''link.listening'',
         [(''port'', show_nat port), (''tls'', if acc \<noteq> None then ''yes'' else ''no'')])])))"

text \<open>A socket of the listener: the handshake with the library gives the client's certificate, if any.\<close>

definition accept_link ::
    "acceptor option \<Rightarrow> (acceptor \<Rightarrow> string + u8 list option) \<Rightarrow> string \<Rightarrow> attempt" where
  "accept_link acc handshake addr = (case acc of
     None \<Rightarrow> RunSession addr None
   | Some a \<Rightarrow> (case handshake a of
       Inr cert \<Rightarrow> RunSession addr cert
     | Inl _ \<Rightarrow> Counted ''link.tls_handshake_failed'' addr))"

section \<open>What the readers give back\<close>

lemma find_sub_here: "find_sub w (w @ r) = Some 0"
proof (cases "w @ r")
  case (Cons a l)
  moreover have "take (length w) (w @ r) = w" by simp
  ultimately show ?thesis by simp
qed simp

lemma find_sub_skip:
  assumes "x \<notin> set p"
  shows "find_sub (x # w) (p @ (x # w) @ r) = Some (length p)"
  using assms
proof (induction p)
  case Nil
  show ?case using find_sub_here [of "x # w" r] by simp
qed auto

lemma find_sub_absent: "x \<notin> set s \<Longrightarrow> find_sub (x # w) s = None"
  by (induction s) auto

definition pem_render :: "string \<Rightarrow> u8 list \<Rightarrow> string" where
  "pem_render label der = pem_begin label @ [CHR 0x0A] @ base64_encode der @ [CHR 0x0A] @ pem_end label @ [CHR 0x0A]"

lemma base64_no_dash: "CHR ''-'' \<notin> set (base64_encode d)"
proof -
  have "b64_val (CHR ''-'') = None" by code_simp
  then have "b64_digit n k \<noteq> CHR ''-''" for n k using b64_digit_val [of n k] by auto
  then have ne: "CHR ''-'' \<noteq> b64_digit n k" for n k by metis
  show ?thesis by (induction d rule: base64_encode.induct) (simp_all add: Let_def ne)
qed

lemma base64_decode_framed: "base64_decode ([CHR 0x0A] @ base64_encode d @ [CHR 0x0A]) = Some d"
  using b64_decode_encode [of d 0 "[]"] by (simp add: base64_decode_def b64_kept_def is_ws_def)

lemma pem_blocks_cons:
  assumes "CHR ''-'' \<notin> set noise" "der \<noteq> []"
  shows "pem_blocks (noise @ pem_render label der @ r) label = der # pem_blocks (CHR 0x0A # r) label"
proof -
  obtain b e where be: "pem_begin label = CHR ''-'' # b" "pem_end label = CHR ''-'' # e"
    by (simp add: pem_begin_def pem_end_def)
  let ?body = "[CHR 0x0A] @ base64_encode der @ [CHR 0x0A]"
  let ?rest = "noise @ pem_begin label @ ?body @ pem_end label @ CHR 0x0A # r"
  have start: "find_sub (pem_begin label) ?rest = Some (length noise)"
    using find_sub_skip [OF assms(1), of b "?body @ pem_end label @ CHR 0x0A # r"] by (simp add: be)
  have "CHR ''-'' \<notin> set ?body" using base64_no_dash [of der] by auto
  from find_sub_skip [OF this, of e "CHR 0x0A # r"]
  have stop: "find_sub (pem_end label) (?body @ pem_end label @ CHR 0x0A # r) = Some (length ?body)"
    unfolding be by simp
  have "pem_blocks ?rest label = der # pem_blocks (CHR 0x0A # r) label"
    by (subst pem_blocks.simps) (use start stop assms(2) base64_decode_framed [of der] in \<open>simp add: Let_def\<close>)
  then show ?thesis by (simp add: pem_render_def)
qed

lemma pem_blocks_render:
  assumes "list_all (\<lambda>d. d \<noteq> []) ders" "CHR ''-'' \<notin> set noise"
  shows "pem_blocks (noise @ concat (map (pem_render label) ders)) label = ders"
  using assms
proof (induction ders arbitrary: noise)
  case Nil
  then have "find_sub (pem_begin label) noise = None"
    using find_sub_absent by (simp add: pem_begin_def)
  then show ?case by (subst pem_blocks.simps) simp
next
  case (Cons d ds)
  from Cons.IH [of "[CHR 0x0A]"] Cons.prems show ?case
    using pem_blocks_cons [of noise d label "concat (map (pem_render label) ds)"] by simp
qed

text \<open>A truncated block is not a certificate.\<close>

lemma pem_blocks_truncated:
  assumes "CHR ''-'' \<notin> set body"
  shows "pem_blocks (pem_begin label @ body) label = []"
  using find_sub_absent [OF assms] find_sub_here [of "pem_begin label" body]
  by (subst pem_blocks.simps) (simp add: Let_def pem_end_def)

lemma hex_nibbles:
  "hex_byte b = [HEXCHARS ! (unat b div 16), HEXCHARS ! (unat b mod 16)]" "unat b div 16 < 16"
proof -
  have "b AND 15 = take_bit 4 b" by (simp add: take_bit_eq_mask mask_eq_exp_minus_1)
  moreover have "unat (take_bit 4 b) = unat b mod 16"
    unfolding unsigned_take_bit_eq by (simp add: take_bit_eq_mod)
  ultimately have "unat (b AND 15) = unat b mod 16" by simp
  moreover have "unat (drop_bit 4 b) = unat b div 16"
    unfolding unat_drop_bit_eq by (simp add: drop_bit_eq_div)
  ultimately show "hex_byte b = [HEXCHARS ! (unat b div 16), HEXCHARS ! (unat b mod 16)]"
    by (simp add: hex_byte_def)
  show "unat b div 16 < 16" using unsigned_less [of b, where ?'a = nat] by simp
qed

lemma hexchars: "k < 16 \<Longrightarrow> is_hexdigit (HEXCHARS ! k) \<and> radix16 (HEXCHARS ! k) = k"
proof -
  have "list_all (\<lambda>k. is_hexdigit (HEXCHARS ! k) \<and> radix16 (HEXCHARS ! k) = k) [0..<16]" by code_simp
  then show "k < 16 \<Longrightarrow> ?thesis" by (simp add: list_all_iff)
qed

lemma hex_byte_digits: "filter is_hexdigit (hex_byte b) = hex_byte b" "length (hex_byte b) = 2"
  using hexchars [OF hex_nibbles(2) [of b]] hexchars [of "unat b mod 16"] by (simp_all add: hex_nibbles(1))

lemma hex_pairs_byte: "hex_pairs (hex_byte b @ r) = b # hex_pairs r"
  using hexchars [OF hex_nibbles(2) [of b]] hexchars [of "unat b mod 16"]
  by (simp add: hex_nibbles(1) div_mult_mod_eq)

lemma hex_pairs_hex: "hex_pairs (hex d) = d"
  by (induction d) (simp_all add: hex_def hex_pairs_byte)

lemma length_hex_pairs: "length (hex_pairs s) = length s div 2"
  by (induction s rule: hex_pairs.induct) auto

lemma filter_joined_hex:
  assumes "list_all (\<lambda>c. \<not> is_hexdigit c) sep"
  shows "filter is_hexdigit (join_with sep (map hex_byte d)) = hex d"
proof -
  have sep: "filter is_hexdigit sep = []" using assms by (induction sep) auto
  have "filter is_hexdigit (join_with sep (map hex_byte (b # bs))) = hex (b # bs)" for b bs
    by (induction bs arbitrary: b) (simp_all add: hex_def hex_byte_digits sep)
  then show ?thesis by (cases d) (simp_all add: hex_def)
qed

text \<open>Every 32-byte digest, written with or without separators between its bytes, is read back.\<close>

lemma parse_fingerprint_joined:
  assumes "length d = 32" "list_all (\<lambda>c. \<not> is_hexdigit c) sep"
  shows "parse_fingerprint (join_with sep (map hex_byte d)) = Some d"
  using assms by (simp add: parse_fingerprint_def filter_joined_hex hex_pairs_hex)

lemma join_with_empty: "join_with [] xs = concat xs"
  by (induction xs rule: induct_list012) simp_all

lemma parse_fingerprint_hex: "length d = 32 \<Longrightarrow> parse_fingerprint (hex d) = Some d"
  using parse_fingerprint_joined [of d "[]"] by (simp add: join_with_empty hex_def)

lemma parse_fingerprint_length: "parse_fingerprint s = Some d \<Longrightarrow> length d = 32"
  by (auto simp: parse_fingerprint_def Let_def length_hex_pairs split: if_splits)

lemma rsplit_once_last: "c \<notin> set t \<Longrightarrow> rsplit_once c (h @ c # t) = Some (h, t)"
  using split_once_append [of c "rev t" "rev h"] by (simp add: rsplit_once_def)

text \<open>A peer entry that ends in a digest pins that digest, unless the digest happens to be written in
  decimal digits only.\<close>

lemma peer_target_pinned:
  assumes "length d = 32" "\<not> list_all is_digit (hex d)"
  shows "peer_target (addr @ '':'' @ hex d) = (addr, Some (hex d))" "parse_fingerprint (hex d) = Some d"
proof -
  have "CHR '':'' \<notin> set (hex d)"
  proof
    assume "CHR '':'' \<in> set (hex d)"
    then obtain b where "CHR '':'' \<in> set (hex_byte b)" by (auto simp: hex_def)
    then have "CHR '':'' \<in> set (filter is_hexdigit (hex_byte b))" by (simp add: hex_byte_digits)
    then show False by (simp add: is_hexdigit_def is_digit_def)
  qed
  from rsplit_once_last [OF this, of addr] assms parse_fingerprint_hex [OF assms(1)]
  show "peer_target (addr @ '':'' @ hex d) = (addr, Some (hex d))" "parse_fingerprint (hex d) = Some d"
    by (simp_all add: peer_target_def)
qed

lemma verify_server_cert_iff: "verify_server_cert expected cert = Inr () \<longleftrightarrow> sha256 cert = expected"
  by (simp add: verify_server_cert_def Let_def)

text \<open>The session on a pinned link is with the holder of the pinned certificate, whatever the
  handshake does beyond honouring the verifier.\<close>

lemma dial_pinned:
  assumes "length d = 32" "\<not> list_all is_digit (hex d)"
    and "\<And>v cert. handshake v = Inr cert \<Longrightarrow> v cert = Inr ()"
  shows "dial_peer prov connect handshake (addr @ '':'' @ hex d) = RunSession a tls \<longleftrightarrow>
    prov \<and> connect addr = Inr () \<and> a = addr \<and>
    (\<exists>cert. tls = Some cert \<and> handshake (verify_server_cert d) = Inr cert \<and> sha256 cert = d)"
  using assms(3) [of "verify_server_cert d"] unfolding dial_peer_def peer_target_pinned(1) [OF assms(1,2)]
  by (auto simp: link_connector_def peer_target_pinned(2) [OF assms(1,2)] verify_server_cert_iff
      split: sum.split)

text \<open>A link that asks for TLS is served in the clear when its certificate cannot be used.\<close>

lemma serve_links_clear:
  assumes "bind_error port = None" "link_tls_enabled env"
    and "tls_configured env = None \<or> (\<exists>p cert key e. tls_configured env = Some (p, cert, key)
      \<and> acceptor_from_files prov file pair_error cert key = Inl e)"
  shows "\<exists>log. serve_links prov file pair_error bind_error env port = Inr (None, log)"
    and "accept_link None hs addr = RunSession addr None"
  using assms by (auto simp: serve_links_def link_acceptor_def accept_link_def)

end
