(* ===== verification/Startup.thy ===== *)
theory Startup
  imports System Tls Logging
begin

text \<open>
  Start-up and supervision (\<^verbatim>\<open>src/lib.rs\<close>, \<^verbatim>\<open>src/main.rs\<close>): which services the environment turns on,
  the state the daemon starts from, and the loop that hands accepted sockets to connection tasks and
  runs the timers. Binding a socket is a parameter that gives the error, if any. The state at start
  is an initial state of the transition system of \<^verbatim>\<open>System\<close>, and what the loop does for one wake-up
  is a sequence of its steps.
\<close>

section \<open>Configuration\<close>

record config =
  cfg_name :: string
  cfg_oper_user :: string
  cfg_oper_pass :: string
  cfg_admin_loc1 :: string
  cfg_admin_loc2 :: string
  cfg_admin_email :: string

definition env_or :: "environ \<Rightarrow> string \<Rightarrow> string \<Rightarrow> string" where
  "env_or env key dflt = opt_default dflt (env key)"

definition config_default :: "environ \<Rightarrow> config" where
  "config_default env =
     \<lparr>cfg_name = env_or env ''IRC_SERVER_NAME'' ''chonkline'',
      cfg_oper_user = env_or env ''IRC_OPER_USER'' ''oper'',
      cfg_oper_pass = env_or env ''IRC_OPER_PASS'' ''secret'',
      cfg_admin_loc1 = env_or env ''IRC_ADMIN_LOC1'' ''Nowhere'',
      cfg_admin_loc2 = env_or env ''IRC_ADMIN_LOC2'' ''No university'',
      cfg_admin_email = env_or env ''IRC_ADMIN_EMAIL'' ''admin@example.invalid''\<rparr>"

definition main_port :: "environ \<Rightarrow> nat" where
  "main_port env = opt_default 6697 (Option.bind (env ''IRC_PORT'') parse_u16)"

section \<open>Services\<close>

datatype service =
    HttpOn nat
  | HttpsOn nat acceptor
  | LinksOn nat link_config
  | PeerOn string link_config

definition web_port :: "environ \<Rightarrow> string \<Rightarrow> nat option" where
  "web_port env key = (case Option.bind (env key) parse_u16 of
     Some p \<Rightarrow> (if p \<noteq> 0 then Some p else None) | None \<Rightarrow> None)"

definition http_service :: "environ \<Rightarrow> service list" where
  "http_service env = (case web_port env ''IRC_HTTP_PORT'' of Some p \<Rightarrow> [HttpOn p] | None \<Rightarrow> [])"

type_synonym tls_world = "bool \<times> (string \<Rightarrow> string + string) \<times> (u8 list list \<Rightarrow> private_key \<Rightarrow> string option)"

definition tls_listener ::
    "tls_world \<Rightarrow> (nat \<Rightarrow> string option) \<Rightarrow> environ \<Rightarrow> (nat \<times> acceptor) option \<times> log_record list" where
  "tls_listener tw bind_error env = (case tls_configured env of
     None \<Rightarrow> (None, [])
   | Some (port, cert, key) \<Rightarrow>
       (case irc_acceptor_from_files (fst tw) (fst (snd tw)) (snd (snd tw)) cert key of
          Inl e \<Rightarrow> (None, [(LOG_ERROR, ''tls.config_failed'', [(''error'', e)])])
        | Inr acc \<Rightarrow>
            (case bind_error port of
               None \<Rightarrow> (Some (port, acc), [(LOG_INFO, ''tls.listening'', [(''port'', show_nat port)])])
             | Some e \<Rightarrow> (None, [(LOG_ERROR, ''tls.bind_failed'', [(''port'', show_nat port), (''error'', e)])]))))"

definition https_service :: "tls_world \<Rightarrow> environ \<Rightarrow> service list \<times> log_record list" where
  "https_service tw env = (case web_port env ''IRC_HTTPS_PORT'' of
     None \<Rightarrow> ([], [])
   | Some port \<Rightarrow> (case tls_configured env of
       None \<Rightarrow> ([], [])
     | Some (_, cert, key) \<Rightarrow>
         (case acceptor_from_files (fst tw) (fst (snd tw)) (snd (snd tw)) cert key of
            Inr acc \<Rightarrow> ([HttpsOn port acc], [])
          | Inl e \<Rightarrow> ([], [(LOG_ERROR, ''https.config_failed'', [(''error'', e)])]))))"

definition link_services :: "environ \<Rightarrow> service list" where
  "link_services env = (case link_configured env of
     None \<Rightarrow> []
   | Some (cfg, listen_port, peers) \<Rightarrow>
       (case listen_port of Some p \<Rightarrow> [LinksOn p cfg] | None \<Rightarrow> []) @ map (\<lambda>peer. PeerOn peer cfg) peers)"

section \<open>The start\<close>

text \<open>The files are those the three stores load.\<close>

record startup =
  su_server :: server
  su_services :: "service list"
  su_tls :: "(nat \<times> acceptor) option"
  su_log :: "log_record list"

definition adopt_sid :: "environ \<Rightarrow> server \<Rightarrow> server" where
  "adopt_sid env st = (case link_configured env of
     None \<Rightarrow> st
   | Some (cfg, _) \<Rightarrow> st\<lparr>sv_network := (sv_network st)\<lparr>net_sid := lc_sid cfg\<rparr>\<rparr>)"

definition serve ::
    "tls_world \<Rightarrow> (nat \<Rightarrow> string option) \<Rightarrow> (nat \<Rightarrow> string + nat) \<Rightarrow> nat \<Rightarrow> config \<Rightarrow> world
       \<Rightarrow> string option \<times> string option \<times> string option \<Rightarrow> string + startup" where
  "serve tw bind_error bind_main port cfg w files = (case bind_main port of
     Inl e \<Rightarrow> Inl e
   | Inr local \<Rightarrow>
       (let env = w_env w;
            st = server_new w (cfg_name cfg) (cfg_oper_user cfg) (cfg_oper_pass cfg) (cfg_admin_loc1 cfg)
                   (cfg_admin_loc2 cfg) (cfg_admin_email cfg) (''127.0.0.1 '' @ show_nat local)
                   (fst files) (fst (snd files)) (snd (snd files));
            (tls, log1) = tls_listener tw bind_error env;
            (https, log2) = https_service tw env
        in Inr \<lparr>su_server = adopt_sid env st, su_services = http_service env @ https @ link_services env,
                su_tls = tls, su_log = log1 @ log2\<rparr>))"

text \<open>What becomes of a service when its task runs: whether it listens (or dials), and what it logs. The
  web port in the clear gives up without a word.\<close>

definition start_service ::
    "tls_world \<Rightarrow> (nat \<Rightarrow> string option) \<Rightarrow> environ \<Rightarrow> service \<Rightarrow> bool \<times> log_record list" where
  "start_service tw bind_error env svc = (case svc of
     HttpOn port \<Rightarrow> (bind_error port = None, [])
   | HttpsOn port acc \<Rightarrow> (case bind_error port of
       None \<Rightarrow> (True, [(LOG_INFO, ''https.listening'', [(''port'', show_nat port)])])
     | Some e \<Rightarrow> (False, [(LOG_ERROR, ''https.bind_failed'', [(''port'', show_nat port), (''error'', e)])]))
   | LinksOn port cfg \<Rightarrow>
       (case serve_links (fst tw) (fst (snd tw)) (snd (snd tw)) bind_error env port of
          Inl r \<Rightarrow> (False, [r])
        | Inr (acc, log) \<Rightarrow> (True, log))
   | PeerOn peer cfg \<Rightarrow> (True, []))"

text \<open>\<^verbatim>\<open>main\<close>: the line it prints. \<^verbatim>\<open>serve_sync\<close> starts on any port and panics when
  that fails, which is \<^const>\<open>None\<close>.\<close>

definition main_line ::
    "tls_world \<Rightarrow> (nat \<Rightarrow> string option) \<Rightarrow> (nat \<Rightarrow> string + nat) \<Rightarrow> world
       \<Rightarrow> string option \<times> string option \<times> string option \<Rightarrow> string" where
  "main_line tw bind_error bind_main w files =
     (let port = main_port (w_env w)
      in case serve tw bind_error bind_main port (config_default (w_env w)) w files of
           Inr s \<Rightarrow> VERSION @ '' listening on 0.0.0.0:'' @
             (case bind_main port of Inr local \<Rightarrow> show_nat local | Inl _ \<Rightarrow> [])
         | Inl e \<Rightarrow> ''failed to bind 0.0.0.0:'' @ show_nat port @ '': '' @ e)"

definition serve_sync ::
    "tls_world \<Rightarrow> (nat \<Rightarrow> string option) \<Rightarrow> (nat \<Rightarrow> string + nat) \<Rightarrow> world
       \<Rightarrow> string option \<times> string option \<times> string option \<Rightarrow> startup option" where
  "serve_sync tw bind_error bind_main w files =
     (case serve tw bind_error bind_main 0 (config_default (w_env w)) w files of Inr s \<Rightarrow> Some s | Inl _ \<Rightarrow> None)"

definition daemon_start :: "startup \<Rightarrow> daemon" where
  "daemon_start s = \<lparr>dm_server = su_server s, dm_next = 1, dm_conns = [], dm_links = []\<rparr>"

section \<open>The supervisor\<close>

abbreviation ACCEPT_QUEUE :: nat where "ACCEPT_QUEUE \<equiv> 256"

definition liveness_interval :: "environ \<Rightarrow> nat" where
  "liveness_interval env = from_secs (max (env_usize env ''CHONKLINE_LIVENESS_TICK_SECS'' 30) 1)"

text \<open>What wakes the loop: a socket from a listener or the end of its queue, or a timer. The counters
  are those the log holds when the sweep is over.\<close>

datatype wake =
    PlainReady
  | PlainClosed
  | TlsReady
  | TlsClosed
  | LivenessDue counters
  | ReclaimDue

text \<open>The task that owns a listener hands on a socket per successful accept; the first failure ends it,
  and with it its queue.\<close>

fun accept_task :: "wake \<Rightarrow> wake \<Rightarrow> (string + unit) list \<Rightarrow> wake list" where
  "accept_task ready closed [] = []"
| "accept_task ready closed (Inr _ # rs) = ready # accept_task ready closed rs"
| "accept_task ready closed (Inl _ # rs) = [closed]"

definition spawn_connection :: "daemon \<Rightarrow> daemon" where
  "spawn_connection d = put_stage (dm_next d) Spawned (d\<lparr>dm_next := dm_next d + 1\<rparr>)"

definition liveness_round :: "counters \<Rightarrow> server \<Rightarrow> log_record list \<times> server" where
  "liveness_round cnt st =
     (let st1 = liveness_tick st;
          totals = fst (flush_counters cnt);
          st2 = broadcast_counter_snotes totals st1
      in (map flushed_record totals @
            [heartbeat (user_count st2) (chan_count st2) (active_total (sv_sources st2)) (tracked_sources (sv_sources st2))],
          st2))"

text \<open>\<^const>\<open>None\<close> when the loop ends. The branch of the TLS queue is disabled without a TLS listener.\<close>

definition supervise :: "bool \<Rightarrow> wake \<Rightarrow> daemon \<Rightarrow> daemon option" where
  "supervise tls w d = (case w of
     PlainReady \<Rightarrow> Some (spawn_connection d)
   | PlainClosed \<Rightarrow> None
   | TlsReady \<Rightarrow> Some (if tls then spawn_connection d else d)
   | TlsClosed \<Rightarrow> Some d
   | LivenessDue cnt \<Rightarrow> Some (put_server (snd (liveness_round cnt (dm_server d))) d)
   | ReclaimDue \<Rightarrow> Some (put_server (reclaim_tick (dm_server d)) d))"

fun supervise_all :: "bool \<Rightarrow> wake list \<Rightarrow> daemon \<Rightarrow> daemon" where
  "supervise_all tls [] d = d"
| "supervise_all tls (w # ws) d = (case supervise tls w d of None \<Rightarrow> d | Some e \<Rightarrow> supervise_all tls ws e)"

section \<open>The start is an initial state\<close>

lemma link_configured_sid: "link_configured env = Some (cfg, r) \<Longrightarrow> env ''IRC_SID'' = Some (lc_sid cfg)"
  by (auto simp: link_configured_def split: option.splits if_splits)

lemma adopt_sid_new:
  "adopt_sid (w_env w) (server_new w n ou op l1 l2 em li a c k) = server_new w n ou op l1 l2 em li a c k"
  using link_configured_sid [of "w_env w"]
  by (auto simp: adopt_sid_def server_new_def network_new_def split: option.split)

lemma serve_server:
  assumes "serve tw be bm port cfg w files = Inr s"
  shows "\<exists>li. su_server s = server_new w (cfg_name cfg) (cfg_oper_user cfg) (cfg_oper_pass cfg) (cfg_admin_loc1 cfg)
    (cfg_admin_loc2 cfg) (cfg_admin_email cfg) li (fst files) (fst (snd files)) (snd (snd files))"
  using assms by (auto simp: serve_def Let_def adopt_sid_new split: sum.splits prod.splits)

lemma serve_init:
  assumes "serve tw be bm port cfg w files = Inr s"
  shows "dm_init (daemon_start s)"
  using serve_server [OF assms] unfolding dm_init_def daemon_start_def by (simp, blast)

section \<open>The supervisor takes steps of the daemon\<close>

lemma liveness_round_steps:
  "(dm_step peers)\<^sup>*\<^sup>* d (put_server (snd (liveness_round cnt (dm_server d))) d)"
proof -
  let ?m = "put_server (liveness_tick (dm_server d)) d"
  have "dm_step peers d ?m" by (rule liveness_sweep)
  moreover have "dm_step peers ?m (put_server (broadcast_counter_snotes (fst (flush_counters cnt)) (dm_server ?m)) ?m)"
    by (rule counters)
  ultimately show ?thesis by (simp add: liveness_round_def Let_def put_server_def)
qed

lemma supervise_steps: "supervise tls w d = Some e \<Longrightarrow> (dm_step peers)\<^sup>*\<^sup>* d e"
  using spawn [of peers d] reclaim_sweep [of peers d] liveness_round_steps [of peers d]
  by (auto simp: supervise_def spawn_connection_def split: wake.splits if_splits)

lemma supervise_all_steps: "(dm_step peers)\<^sup>*\<^sup>* d (supervise_all tls ws d)"
proof (induction tls ws d rule: supervise_all.induct)
  case (2 tls w ws d)
  then show ?case by (auto split: option.split intro: rtranclp_trans dest: supervise_steps)
qed simp

text \<open>One failed accept on the main port ends the loop: whatever would come after it is not served.\<close>

lemma accept_failure_stops:
  "supervise_all tls (accept_task PlainReady PlainClosed (replicate n (Inr ()) @ Inl e # rs) @ ws) d =
   (spawn_connection ^^ n) d"
  by (induction n arbitrary: d) (simp_all add: supervise_def funpow_swap1)

section \<open>What is exposed\<close>

text \<open>Client certificates are requested on the IRC port and never on the web port.\<close>

lemma build_acceptor_offer: "build_acceptor p f e c k offer = Inr a \<Longrightarrow> ac_client_cert a = offer"
  by (auto simp: build_acceptor_def Let_def split: sum.splits if_splits option.splits)

lemma serve_parts:
  assumes "serve tw be bm port cfg w files = Inr s"
  shows "su_services s = http_service (w_env w) @ fst (https_service tw (w_env w)) @ link_services (w_env w)"
    and "su_tls s = fst (tls_listener tw be (w_env w))"
  using assms by (auto simp: serve_def Let_def split: sum.splits prod.splits)

lemma http_service_only: "x \<in> set (http_service env) \<Longrightarrow> \<exists>p. x = HttpOn p"
  by (auto simp: http_service_def split: option.splits)

lemma https_service_only: "x \<in> set (fst (https_service tw env)) \<Longrightarrow> \<exists>p acc. x = HttpsOn p acc \<and> \<not> ac_client_cert acc"
  by (auto simp: https_service_def split: option.splits sum.splits dest: build_acceptor_offer)

lemma link_services_only:
  assumes "x \<in> set (link_services env)"
  shows "\<exists>lc. (\<exists>p. x = LinksOn p lc) \<or> (\<exists>peer. x = PeerOn peer lc)"
    and "x = LinksOn p lc \<or> x = PeerOn peer lc \<Longrightarrow> env ''IRC_SID'' = Some (lc_sid lc) \<and> valid_sid (lc_sid lc)"
  using assms by (auto simp: link_services_def link_configured_def split: option.splits if_splits)

lemma tls_listener_offers: "fst (tls_listener tw be env) = Some (q, acc) \<Longrightarrow> ac_client_cert acc"
  by (auto simp: tls_listener_def split: option.splits sum.splits dest: build_acceptor_offer)

lemma serve_certificates:
  assumes "serve tw be bm port cfg w files = Inr s"
  shows "HttpsOn p acc \<in> set (su_services s) \<Longrightarrow> \<not> ac_client_cert acc"
    and "su_tls s = Some (q, acc) \<Longrightarrow> ac_client_cert acc"
  by (auto simp: serve_parts [OF assms] dest!: http_service_only https_service_only link_services_only(1)
      dest: tls_listener_offers)

text \<open>Server links exist only for a valid server id.\<close>

lemma serve_links_need_sid:
  assumes "serve tw be bm port cfg w files = Inr s"
    and "LinksOn p lc \<in> set (su_services s) \<or> PeerOn peer lc \<in> set (su_services s)"
  shows "w_env w ''IRC_SID'' = Some (lc_sid lc) \<and> valid_sid (lc_sid lc)"
proof -
  obtain x where x: "x = LinksOn p lc \<or> x = PeerOn peer lc" "x \<in> set (su_services s)" using assms(2) by blast
  then have "x \<in> set (link_services (w_env w))"
    by (auto simp: serve_parts [OF assms(1)] dest!: http_service_only https_service_only)
  from link_services_only(2) [OF this x(1)] show ?thesis .
qed

end
