(* ===== verification/Slots.thy ===== *)
theory Slots
  imports System
begin

text \<open>
  The daemon and the admission table together. Every connection task that was admitted holds a slot
  until it gives it back; the steps of the daemon are simulated by operations on the source table, so
  the counts that \<^verbatim>\<open>Limits\<close> proves exact and bounded for the table bound the tasks that really run.
\<close>

section \<open>What only admission, charging and release touch\<close>

definition meter :: "server \<Rightarrow> source_table \<times> limits \<times> conf \<times> world" where
  "meter st = (sv_sources st, sv_limits st, sv_conf st, sv_world st)"

interpretation meter_view: conn_frame meter
proof unfold_locales
  show "meter s = meter st" if "core s = core st" for s st
    using arg_cong [OF that, of meter] by (simp add: meter_def)
qed (simp_all add: meter_def)

lemma meter_fields:
  assumes "meter s = meter st"
  shows "sv_sources s = sv_sources st" "sv_limits s = sv_limits st" "sv_conf s = sv_conf st" "sv_world s = sv_world st"
  using assms by (simp_all add: meter_def)

text \<open>A step on the table: the settings and the clock stay.\<close>

definition on_table :: "server \<Rightarrow> server \<Rightarrow> bool" where
  "on_table st s \<longleftrightarrow> sv_limits s = sv_limits st \<and> sv_conf s = sv_conf st \<and> sv_world s = sv_world st"

lemma admit_table:
  assumes "admit tls peer pk hdr st = (r, s)"
  shows "on_table st s"
    and "r = Accepted tk \<Longrightarrow> try_admit (sv_limits st) (tk_limit_key tk) (tk_exempt tk) (sv_now st) (sv_sources st)
           = (Inr (), sv_sources s)"
    and "r = Dropped l \<Longrightarrow> sv_sources s = sv_sources st \<or> (\<exists>key ex why.
           try_admit (sv_limits st) key ex (sv_now st) (sv_sources st) = (Inl why, sv_sources s))"
  using assms
  by (auto simp: admit_def decide_def on_table_def Let_def split: resolved.splits prod.splits option.splits sum.splits)

lemma charge_table:
  assumes "charge_source i s st = (v, st')"
  shows "on_table st st' \<and> (sv_sources st' = sv_sources st \<or> (\<exists>key ex r.
     charge_message (sv_limits st) key ex (sv_now st) (sv_sources st) = (r, sv_sources st')))"
  using assms by (auto simp: charge_source_def on_table_def split: if_splits prod.splits)

lemma process_table:
  assumes "process_segment i seg s st = (r, s', st')"
  shows "on_table st st' \<and> (sv_sources st' = sv_sources st \<or> (\<exists>key ex v.
     charge_message (sv_limits st) key ex (sv_now st) (sv_sources st) = (v, sv_sources st')))"
proof (cases "parse_segment seg")
  case (Some cmd)
  define st1 where "st1 = upd_by_id i (\<lambda>u. u\<lparr>cx_last_rx := sv_now st\<rparr>) st"
  obtain v st2 where c: "charge_source i s st1 = (v, st2)" by (cases "charge_source i s st1")
  have "meter st1 = meter st" by (simp add: st1_def frame_simps)
  with charge_table [OF c] have two: "on_table st st2 \<and> (sv_sources st2 = sv_sources st \<or> (\<exists>key ex v.
     charge_message (sv_limits st) key ex (sv_now st) (sv_sources st) = (v, sv_sources st2)))"
    by (simp add: on_table_def meter_def)
  have "meter st' = meter st2 \<or> meter st' = meter st"
    using assms Some c meter_view.frame_run [of i cmd st2]
    by (auto simp: process_segment_def route_def Let_def st1_def [symmetric] split: if_splits prod.splits sum.splits bool.splits)
  with two show ?thesis by (auto simp: on_table_def meter_def)
qed (use assms in \<open>auto simp: process_segment_def on_table_def\<close>)

section \<open>The slots that tasks hold\<close>

fun slot :: "stage \<Rightarrow> (string \<times> bool) multiset" where
  "slot Spawned = {#}"
| "slot (Handshaking tk) = {#(tk_limit_key tk, tk_exempt tk)#}"
| "slot (Reading tk s p) = {#(tk_limit_key tk, tk_exempt tk)#}"
| "slot (Closing tk) = {#(tk_limit_key tk, tk_exempt tk)#}"

definition slots :: "(nat, stage) hmap \<Rightarrow> (string \<times> bool) multiset" where
  "slots m = sum_list (map (slot \<circ> snd) m)"

lemma slots_remove: "hm_wf m \<Longrightarrow> hm_get m i = Some g \<Longrightarrow> slots m = slot g + slots (hm_remove i m)"
proof (induction m)
  case (Cons p m)
  then show ?case by (cases p) (auto simp: slots_def hm_wf_def delete_notin_dom split: if_splits)
qed simp

lemma slots_remove_le: "hm_wf m \<Longrightarrow> slots (hm_remove i m) \<subseteq># slots m"
  by (cases "hm_get m i") (auto simp: slots_remove delete_notin_dom map_of_eq_None_iff)

lemma slots_insert: "hm_wf m \<Longrightarrow> slots (hm_insert i g m) = slot g + slots (hm_remove i m)"
  using slots_remove [of "hm_insert i g m" i g] by (simp add: hm_simps delete_update_same)

section \<open>The table follows the tasks\<close>

text \<open>The abstract admission system of \<^verbatim>\<open>Limits\<close> beside the daemon. It may hold slots no task has any more:
  a TLS probe ends without giving its slot back.\<close>

definition tracks :: "limits \<Rightarrow> conf \<Rightarrow> daemon \<Rightarrow> admission \<Rightarrow> bool" where
  "tracks L cf d a \<longleftrightarrow> adm_table a = sv_sources (dm_server d) \<and> adm_clock a = sv_now (dm_server d)
     \<and> sv_limits (dm_server d) = L \<and> sv_conf (dm_server d) = cf
     \<and> hm_wf (dm_conns d) \<and> slots (dm_conns d) \<subseteq># adm_held a"

lemma tracks_server: "tracks L cf d a \<Longrightarrow> meter s = meter (dm_server d) \<Longrightarrow> tracks L cf (put_server s d) a"
  by (simp add: tracks_def meter_def)

lemma tracks_table:
  "tracks L cf d a \<Longrightarrow> on_table (dm_server d) s \<Longrightarrow> tracks L cf (put_server s d) (a\<lparr>adm_table := sv_sources s\<rparr>)"
  by (simp add: tracks_def on_table_def)

lemma tracks_put:
  assumes "tracks L cf d a" "hm_get (dm_conns d) i = Some g" "slot g' = slot g"
  shows "tracks L cf (put_stage i g' d) a"
  using assms slots_remove [of "dm_conns d" i g] by (simp add: tracks_def put_stage_def slots_insert)

lemma tracks_end: "tracks L cf d a \<Longrightarrow> tracks L cf (end_task i d) a"
  using slots_remove_le [of "dm_conns d" i] by (auto simp: tracks_def end_task_def intro: subset_mset.order_trans)

lemma tracks_links: "tracks L cf (d\<lparr>dm_links := ls\<rparr>) a = tracks L cf d a"
  by (simp add: tracks_def)

lemma tracks_end_reader:
  assumes "tracks L cf (put_server st d) a" "hm_get (dm_conns d) i = Some (Reading tk s p)"
  shows "tracks L cf (end_reader i tk st d) a"
proof -
  have "tracks L cf (put_server (cleanup_on_eof i st) (put_server st d)) a"
    by (rule tracks_server [OF assms(1)]) (simp add: frame_simps)
  then have "tracks L cf (put_server (cleanup_on_eof i st) d) a" by (simp add: put_server_def)
  from tracks_put [OF this, of i "Reading tk s p"] assms(2) show ?thesis by (simp add: end_reader_def)
qed

lemma tracks_after_line:
  assumes "tracks L cf (put_server st d) a" "hm_get (dm_conns d) i = Some (Reading tk s p)"
  shows "tracks L cf (after_line i tk (r, s', st) d) a"
  using tracks_end_reader [OF assms] tracks_put [OF assms(1), of i "Reading tk s p"] assms(2)
  by (cases r) (simp add: after_line_def split: option.split)

lemma tracks_released:
  assumes "tracks L cf d a" "hm_get (dm_conns d) i = Some g" "slot g = {#(tk_limit_key tk, tk_exempt tk)#}"
  shows "\<exists>b. adm_step L a b \<and> tracks L cf (end_task i (put_server (release_ticket tk (dm_server d)) d)) b"
proof -
  let ?p = "(tk_limit_key tk, tk_exempt tk)"
  have s: "slots (dm_conns d) = add_mset ?p (slots (hm_remove i (dm_conns d)))"
    using assms slots_remove [of "dm_conns d" i g] by (simp add: tracks_def)
  then have "?p \<in># adm_held a" using assms(1) by (auto simp: tracks_def dest: mset_subset_eqD)
  then have "adm_step L a (a\<lparr>adm_table := release L (tk_limit_key tk) (tk_exempt tk) (adm_clock a) (adm_table a),
      adm_held := adm_held a - {#?p#}\<rparr>)" by (rule adm_released)
  moreover have "slots (hm_remove i (dm_conns d)) \<subseteq># adm_held a - {#?p#}"
    using assms(1) s by (simp add: tracks_def insert_subset_eq_iff)
  ultimately show ?thesis
    using assms(1) by (intro exI conjI) (auto simp: tracks_def end_task_def release_ticket_def)
qed

lemma tracks_same:
  assumes "tracks L cf d a" "dm_conns e = dm_conns d" "meter (dm_server e) = meter (dm_server d)"
  shows "tracks L cf e a"
  using assms by (simp add: tracks_def meter_def)

lemma tracks_spawn: "tracks L cf d a \<Longrightarrow> tracks L cf (put_stage i Spawned (d\<lparr>dm_next := n\<rparr>)) a"
  using slots_remove_le [of "dm_conns d" i]
  by (auto simp: tracks_def put_stage_def slots_insert intro: subset_mset.order_trans)

lemma tracks_dropped:
  assumes "tracks L cf d a" "admit tls peer pk hdr (dm_server d) = (Dropped l, st)"
  shows "\<exists>b. (adm_step L)\<^sup>*\<^sup>* a b \<and> tracks L cf (end_task i (put_server st d)) b"
proof -
  let ?b = "a\<lparr>adm_table := sv_sources st\<rparr>"
  have "a = ?b \<or> adm_step L a ?b"
    using admit_table(3) [OF assms(2) refl] assms(1) adm_refused [of L _ _ a]
    by (auto simp: tracks_def)
  moreover have "tracks L cf (end_task i (put_server st d)) ?b"
    by (intro tracks_end tracks_table [OF assms(1)] admit_table(1) [OF assms(2)])
  ultimately show ?thesis by (metis r_into_rtranclp rtranclp.rtrancl_refl)
qed

lemma tracks_admitted:
  assumes "tracks L cf d a" "admit tls peer pk hdr (dm_server d) = (Accepted tk, st)" "hm_get (dm_conns d) i = Some Spawned"
  shows "\<exists>b. (adm_step L)\<^sup>*\<^sup>* a b \<and> tracks L cf (put_stage i (Handshaking tk) (put_server st d)) b"
proof -
  let ?p = "(tk_limit_key tk, tk_exempt tk)"
  obtain b where b: "adm_step L a b" "adm_table b = sv_sources st" "adm_held b = add_mset ?p (adm_held a)" "adm_clock b = adm_clock a"
    using adm_admitted [of L "tk_limit_key tk" "tk_exempt tk" a "sv_sources st"] admit_table(2) [OF assms(2) refl] assms(1)
    by (fastforce simp: tracks_def)
  have "tracks L cf (put_stage i (Handshaking tk) (put_server st d)) b"
    using assms(1,3) b(2-) admit_table(1) [OF assms(2)] slots_remove [of "dm_conns d" i Spawned]
    by (simp add: tracks_def put_stage_def slots_insert on_table_def)
  with b(1) show ?thesis by blast
qed

lemma tracks_line:
  assumes "tracks L cf d a" "hm_get (dm_conns d) i = Some (Reading tk s0 p)"
  shows "\<exists>b. (adm_step L)\<^sup>*\<^sup>* a b \<and> tracks L cf (after_line i tk (process_segment i seg s (dm_server d)) d) b"
proof -
  obtain r s' st where p: "process_segment i seg s (dm_server d) = (r, s', st)" by (metis prod_cases3)
  let ?b = "a\<lparr>adm_table := sv_sources st\<rparr>"
  have "a = ?b \<or> adm_step L a ?b"
    using process_table [OF p] assms(1) adm_charged [of L _ _ a]
    by (auto simp: tracks_def)
  moreover have "tracks L cf (after_line i tk (r, s', st) d) ?b"
    using tracks_after_line [OF _ assms(2)] tracks_table [OF assms(1)] process_table [OF p] by blast
  ultimately show ?thesis unfolding p by (metis r_into_rtranclp rtranclp.rtrancl_refl)
qed

lemma tracks_no_session:
  assumes "tracks L cf d a" "hm_get (dm_conns d) i = Some (Handshaking tk)"
  shows "\<exists>b. (adm_step L)\<^sup>*\<^sup>* a b \<and> tracks L cf (end_task i (put_server (after_handshake h tk (dm_server d)) d)) b"
proof (cases "h = TlsFailed")
  case True
  then show ?thesis using tracks_released [OF assms] by (auto simp: after_handshake_def)
next
  case False
  then have "after_handshake h tk (dm_server d) = dm_server d" by (cases h) (auto simp: after_handshake_def)
  then show ?thesis using tracks_end [OF assms(1), of i] by (auto simp: put_server_def)
qed

lemma tracks_session:
  assumes "tracks L cf d a" "hm_get (dm_conns d) i = Some (Handshaking tk)"
  shows "tracks L cf (start_session i tk cert d) a"
proof -
  have "tracks L cf (put_server (park_unregistered i x y z cert (dm_server d)) d) a" for x y z
    by (rule tracks_server [OF assms(1)]) (simp add: frame_simps)
  from tracks_put [OF this, where i = i and g = "Handshaking tk"] assms(2) show ?thesis
    by (simp add: start_session_def Let_def)
qed

lemma tracks_flushed:
  assumes "tracks L cf d a" "hm_get (dm_conns d) i = Some (Reading tk s p)" "meter st = meter (dm_server d)"
  shows "tracks L cf (end_reader i tk st d) a" "tracks L cf (put_stage i (Reading tk s' q) (put_server st d)) a"
proof -
  have t: "tracks L cf (put_server st d) a" by (rule tracks_server [OF assms(1,3)])
  show "tracks L cf (end_reader i tk st d) a" by (rule tracks_end_reader [OF t assms(2)])
  show "tracks L cf (put_stage i (Reading tk s' q) (put_server st d)) a"
    by (rule tracks_put [OF t, of i "Reading tk s p"]) (simp_all add: assms(2))
qed

text \<open>Every step of the daemon is a sequence of steps of the admission system.\<close>

lemma daemon_tracks:
  assumes "dm_step peers d e" "tracks L cf d a"
  shows "\<exists>b. (adm_step L)\<^sup>*\<^sup>* a b \<and> tracks L cf e b"
  using assms(1)
proof cases
  case (clock w)
  then have "adm_step L a (a\<lparr>adm_clock := w_now w\<rparr>)" using assms(2) by (intro adm_tick) (simp add: tracks_def)
  moreover have "tracks L cf e (a\<lparr>adm_clock := w_now w\<rparr>)" using assms(2) clock(1) by (simp add: tracks_def)
  ultimately show ?thesis by blast
next
  case (flushed i tk s blob quit w gone st)
  from tracks_flushed [OF assms(2) flushed(2) meter_view.frame_flush [OF flushed(3)]] flushed(1) show ?thesis by auto
next
  case (ended i tk s)
  from tracks_flushed(1) [OF assms(2) ended(2) refl] ended(1) show ?thesis by auto
next
  case (link_applied k t ev evs t' st)
  have "tracks L cf e a"
    by (rule tracks_same [OF assms(2)]) (simp_all add: link_applied(1) meter_view.frame_link(1) [OF link_applied(5)])
  then show ?thesis by blast
next
  case (released i tk)
  then show ?thesis using tracks_released [OF assms(2) released(2)] by auto
next
  case (read i tk s bytes)
  then show ?thesis using tracks_put [OF assms(2) read(2)] by auto
next
  case (overlong i tk s rest)
  then show ?thesis using tracks_put [OF assms(2) overlong(2)] by auto
next
  case spawn
  then show ?thesis using tracks_spawn [OF assms(2)] by auto
next
  case (session i tk h cert)
  then show ?thesis using tracks_session [OF assms(2) session(2)] by auto
next
  case (line i tk s seg rest)
  then show ?thesis using tracks_line [OF assms(2) line(2)] by simp
next
  case (link_opened c cfg outb t st)
  have "tracks L cf e a"
    by (rule tracks_same [OF assms(2)]) (simp_all add: link_opened(1) meter_view.frame_link_task(1) [OF link_opened(3)])
  then show ?thesis by blast
next
  case (link_flushed k t n t' st)
  have "tracks L cf e a"
    by (rule tracks_same [OF assms(2)]) (simp_all add: link_flushed(1) meter_view.frame_link_task(2) [OF link_flushed(4)])
  then show ?thesis by blast
next
  case (link_ticked k t st)
  have "tracks L cf e a"
    by (rule tracks_same [OF assms(2)]) (simp_all add: link_ticked(1) meter_view.frame_link_task(3) [OF link_ticked(6)])
  then show ?thesis by blast
qed (use tracks_dropped [OF assms(2)] tracks_admitted [OF assms(2)] tracks_no_session [OF assms(2)] assms(2)
    in \<open>auto simp: frame_simps meter_view.frame_link meter_view.frame_link_io tracks_links intro!: exI [of _ a] elim!: tracks_same\<close>)

lemma daemon_reaches_admission:
  assumes "dm_init d" "(dm_step peers)\<^sup>*\<^sup>* d e"
  shows "\<exists>a. adm_reach (sv_limits (dm_server d)) a \<and> tracks (sv_limits (dm_server d)) (sv_conf (dm_server d)) e a"
  using assms(2)
proof (induction rule: rtranclp_induct)
  case base
  define a where "a = \<lparr>adm_table = table_new, adm_held = {#}, adm_log = [], adm_clock = sv_now (dm_server d)\<rparr>"
  have "tracks (sv_limits (dm_server d)) (sv_conf (dm_server d)) d a"
    using assms(1) by (auto simp: tracks_def a_def dm_init_def server_new_def slots_def)
  moreover have "adm_init a" by (simp add: adm_init_def a_def)
  ultimately show ?case unfolding adm_reach_def by blast
next
  case (step f e)
  then obtain a where a: "adm_reach (sv_limits (dm_server d)) a" "tracks (sv_limits (dm_server d)) (sv_conf (dm_server d)) f a"
    by blast
  from daemon_tracks [OF step(2) a(2)] a(1) show ?case unfolding adm_reach_def by (meson rtranclp_trans)
qed

lemma held_mono:
  assumes "h \<subseteq># h'"
  shows "held_by h k \<le> held_by h' k" "held_counted h \<le> held_counted h'"
  using assms by (simp_all add: held_by_def held_counted_def multiset_filter_mono size_mset_mono)

lemma tasks_bounded:
  assumes "dm_init d" "(dm_step peers)\<^sup>*\<^sup>* d e"
  defines "L \<equiv> sv_limits (dm_server d)"
  shows "max_clients L = 0 \<or> held_counted (slots (dm_conns e)) \<le> max_clients L"
    and "max_clones_per_ip L = 0 \<or> count (slots (dm_conns e)) (k, False) \<le> max_clones_per_ip L"
    and "held_by (slots (dm_conns e)) k \<le> active_for (sv_sources (dm_server e)) k"
    and "sv_limits (dm_server e) = L" "sv_conf (dm_server e) = sv_conf (dm_server d)"
proof -
  obtain a where a: "adm_reach L a" "tracks L (sv_conf (dm_server d)) e a"
    using daemon_reaches_admission [OF assms(1,2)] by (auto simp: L_def)
  then have sub: "slots (dm_conns e) \<subseteq># adm_held a" and tab: "adm_table a = sv_sources (dm_server e)"
    by (simp_all add: tracks_def)
  note c = adm_counts_reach [OF a(1), unfolded adm_counts_def]
  show "max_clients L = 0 \<or> held_counted (slots (dm_conns e)) \<le> max_clients L"
    using c held_mono(2) [OF sub] by (auto intro: order_trans)
  show "max_clones_per_ip L = 0 \<or> count (slots (dm_conns e)) (k, False) \<le> max_clones_per_ip L"
    using c mset_subset_eq_count [OF sub, of "(k, False)"] by (auto intro: order_trans)
  show "held_by (slots (dm_conns e)) k \<le> active_for (sv_sources (dm_server e)) k"
    using c held_mono(1) [OF sub, of k] by (simp add: tab)
  show "sv_limits (dm_server e) = L" "sv_conf (dm_server e) = sv_conf (dm_server d)"
    using a(2) by (simp_all add: tracks_def)
qed

end
