(* ===== verification/Authority.thy ===== *)
theory Authority
  imports Slots
begin

text \<open>
  Who becomes an IRC operator, and who gets logged in to an account, while the daemon runs: only a
  connection that has sent a line which asks for it, with the proof the line needs. The sweeps, the
  links, the admission of other connections and every other line add nobody. The argument is the
  same for both, so it is made once, for any set of marks on connections that is read off the
  connections and that only a dispatched command can make larger.
\<close>

section \<open>What a line is dispatched on\<close>

text \<open>The state in which a command is dispatched, when the source is not over its budget.\<close>

definition arrival :: "nat \<Rightarrow> command \<Rightarrow> session \<Rightarrow> server \<Rightarrow> server" where
  "arrival i cmd s st = on_pong i cmd (begin_reply i cmd
     (snd (charge_source i s (upd_by_id i (\<lambda>u. u\<lparr>cx_last_rx := sv_now st\<rparr>) st))))"

lemma arrival_inv: "state_inv st \<Longrightarrow> state_inv (arrival i cmd s st)"
  unfolding arrival_def by (intro state_inv_on_pong) (simp add: state_inv_upd_by_id)

lemma charge_meter: "sv_conf (snd (charge_source i s st)) = sv_conf st" "sv_accounts (snd (charge_source i s st)) = sv_accounts st"
  "cx_opt f d (snd (charge_source i s st)) k = cx_opt f d st k"
proof -
  have s: "snd (charge_source i s st) = st\<lparr>sv_sources := sv_sources (snd (charge_source i s st))\<rparr>"
    by (cases "cx_opt cx_oper False st i") (simp_all add: charge_source_def case_prod_beta)
  show "sv_conf (snd (charge_source i s st)) = sv_conf st" by (subst s) simp
  show "sv_accounts (snd (charge_source i s st)) = sv_accounts st" by (subst s) simp
  have "find_by_id (st\<lparr>sv_sources := t\<rparr>) k = find_by_id st k" for t by (simp add: find_by_id_def cong: option.case_cong)
  then show "cx_opt f d (snd (charge_source i s st)) k = cx_opt f d st k" by (subst s) (simp add: cx_opt_def)
qed

lemma arrival_conf: "sv_conf (arrival i cmd s st) = sv_conf st"
proof -
  have "meter (on_pong i cmd (begin_reply i cmd t)) = meter t" for t by (simp add: meter_view.frame_session frame_simps)
  then have "sv_conf (on_pong i cmd (begin_reply i cmd t)) = sv_conf t" for t by (simp add: meter_def)
  then show ?thesis by (simp add: arrival_def charge_meter upd_by_id_def split: option.split)
qed

lemma arrival_same:
  assumes "state_inv st" "cmd_name cmd \<noteq> ''PONG''"
  shows "sv_accounts (arrival i cmd s st) = sv_accounts st"
    and "(\<And>u. f (erase u) = f u) \<Longrightarrow> (\<And>u now. f (u\<lparr>cx_last_rx := now\<rparr>) = f u)
      \<Longrightarrow> cx_opt f d (arrival i cmd s st) k = cx_opt f d st k"
proof -
  let ?st1 = "upd_by_id i (\<lambda>u. u\<lparr>cx_last_rx := sv_now st\<rparr>) st"
  have "core (arrival i cmd s st) = core (snd (charge_source i s ?st1))"
    using assms(2) by (simp add: arrival_def on_pong_def begin_reply_def Let_def core_simps)
  note c = this accounts_core [OF this]
  show "sv_accounts (arrival i cmd s st) = sv_accounts st"
    by (simp add: c charge_meter upd_by_id_def split: option.split)
  assume f: "\<And>u. f (erase u) = f u" "\<And>u now. f (u\<lparr>cx_last_rx := now\<rparr>) = f u"
  have "cx_opt f d (arrival i cmd s st) k = cx_opt f d ?st1 k"
    using cx_opt_core [OF c(1), of f d k] f(1) by (simp add: charge_meter)
  also have "\<dots> = cx_opt f d st k"
    using find_by_id_upd [OF assms(1), of "\<lambda>u. u\<lparr>cx_last_rx := sv_now st\<rparr>" i k] f(2)
    by (simp add: cx_opt_def split: option.split)
  finally show "cx_opt f d (arrival i cmd s st) k = cx_opt f d st k" .
qed

text \<open>The line a reader handles next.\<close>

definition next_input :: "daemon \<Rightarrow> nat \<Rightarrow> string option" where
  "next_input d i = (case hm_get (dm_conns d) i of
     Some (Reading tk s None) \<Rightarrow> (case next_line (ss_buf s) of
         Some (Content seg, rest) \<Rightarrow> Some seg
       | _ \<Rightarrow> None)
   | _ \<Rightarrow> None)"

section \<open>Marks on connections\<close>

text \<open>What the steps of the daemon do to a set of marks. A change that leaves the connections alone, or
  makes them fewer without logging anybody in, adds no mark, and neither does a new connection.\<close>

locale mark =
  fixes marks :: "server \<Rightarrow> 'm set"
  assumes marks_cxs: "cxs s = cxs st \<Longrightarrow> marks s = marks st"
    and marks_descends: "descends (\<lambda>_ _. False) st s \<Longrightarrow> marks s \<subseteq> marks st"
    and marks_park: "marks (park_new i h r tx cert st) \<subseteq> marks st"
begin

lemma marks_settle: "marks (snd (settle i q st)) \<subseteq> marks st"
proof -
  let ?D = "descends (\<lambda>_ _. False)"
  have "?D st (snd (finish_reply i st))"
    by (simp add: finish_reply_def next_batch_ref_def Let_def descends_upd descends_cxs)
  moreover have "?D s (snd (take_pending i b s))" for b s
    by (simp add: take_pending_def descends_upd split: option.split)
  ultimately have "?D st (snd (settle i q st))" by (simp add: settle_def case_prod_beta) (rule descends_trans)
  then show ?thesis by (rule marks_descends)
qed

lemma marks_run_command:
  assumes "m \<in> marks (snd (run_command i cmd st))" "m \<notin> marks st"
  defines "p \<equiv> on_pong i cmd (begin_reply i cmd st)"
  shows "m \<notin> marks p \<and> m \<in> marks (snd (dispatch i cmd p))
    \<and> (open_command (cmd_name cmd) \<or> cx_opt cx_registered False p i)"
proof -
  let ?b = "begin_reply i cmd st"
  have b: "marks ?b = marks st" by (rule marks_cxs) (rule cxs_view.frame_session)
  have nr: "marks (deliver_not_registered i ?b) = marks st"
    using b by (simp add: cxs_view.frame_session [THEN marks_cxs])
  have open_gate: "gate_open ?b i cmd"
    using assms(1,2) marks_settle [of i False "deliver_not_registered i ?b"] nr
    by (auto simp: run_command_def Let_def split: if_splits)
  then have "open_command (cmd_name cmd) \<or> cx_opt cx_registered False p i"
    by (auto simp: gate_open_def on_pong_def open_command_def p_def)
  moreover have "m \<notin> marks p" using marks_descends [OF descends_on_pong, of i cmd ?b] b assms(2) by (auto simp: p_def)
  moreover have "m \<in> marks (snd (dispatch i cmd p))"
    using assms(1) open_gate marks_settle by (fastforce simp: run_command_def Let_def case_prod_beta p_def)
  ultimately show ?thesis by blast
qed

lemma marks_line:
  assumes gain: "m \<in> marks (snd (snd (process_segment i seg s st)))" "m \<notin> marks st"
  shows "\<exists>cmd. parse_segment seg = Some cmd \<and> m \<notin> marks (arrival i cmd s st)
    \<and> m \<in> marks (snd (dispatch i cmd (arrival i cmd s st)))
    \<and> (open_command (cmd_name cmd) \<or> cx_opt cx_registered False (arrival i cmd s st) i)"
proof -
  obtain cmd where cmd: "parse_segment seg = Some cmd"
    using gain by (auto simp: process_segment_def split: option.splits)
  let ?st1 = "upd_by_id i (\<lambda>u. u\<lparr>cx_last_rx := sv_now st\<rparr>) st"
  obtain v st2 where c: "charge_source i s ?st1 = (v, st2)" by (cases "charge_source i s ?st1")
  have "descends (\<lambda>_ _. False) st ?st1" by (simp add: descends_upd)
  from marks_descends [OF this] gain(2) have "m \<notin> marks ?st1" by blast
  moreover have "cxs st2 = cxs ?st1"
    using c by (auto simp: charge_source_def frame_simps split: if_splits prod.splits)
  ultimately have two: "m \<notin> marks st2" using marks_cxs [of st2 ?st1] by simp
  have "marks (snd (flood_disconnect i cmd st2)) \<subseteq> marks st2"
    using marks_settle [of i True "deliver i (proto_line [] ''ERROR'' '':Excess flood'') (begin_reply i cmd st2)"]
    by (simp add: flood_disconnect_def marks_cxs [OF cxs_view.frame_output(1)] marks_cxs [OF cxs_view.frame_session(1)])
  moreover have "snd (snd (route i cmd s st)) \<in> {st, st2, snd (flood_disconnect i cmd st2), snd (run_command i cmd st2)}"
    by (simp add: route_def Let_def c case_prod_beta split: sum.split bool.split)
  ultimately have "m \<in> marks (snd (run_command i cmd st2))" using gain two cmd
    by (auto simp: process_segment_def)
  from marks_run_command [OF this two] cmd c show ?thesis by (simp add: arrival_def)
qed

lemma marks_end_reader: "marks (dm_server (end_reader i tk st d)) \<subseteq> marks st"
  by (simp add: end_reader_def marks_descends descends_sweeps)

lemma marks_after_line: "marks (dm_server (after_line i tk r d)) \<subseteq> marks (snd (snd r))"
proof -
  obtain quit pending s st where r: "r = ((quit, pending), s, st)" by (metis prod.collapse)
  from marks_end_reader [of i tk st d] show ?thesis by (simp add: r after_line_def split: option.split)
qed

lemma marks_session: "marks (dm_server (start_session i tk cert d)) \<subseteq> marks (dm_server d)"
  using marks_park by (simp add: start_session_def Let_def park_unregistered_def)

lemma marks_flushed: "flush_pending w i q st = (gone, s) \<Longrightarrow> marks s = marks st"
  by (rule marks_cxs) (auto simp: flush_pending_def frame_simps split: wait.splits if_splits option.splits)

text \<open>A mark appears in a step only when that step handles a line whose command adds it.\<close>

lemma marks_step:
  assumes step: "dm_step event_safe d e" and gain: "m \<in> marks (dm_server e)" "m \<notin> marks (dm_server d)"
  shows "\<exists>i seg s. next_input d i = Some seg \<and> m \<in> marks (snd (snd (process_segment i seg s (dm_server d))))"
  using step
proof cases
  case (line i tk s seg rest)
  from gain(1) have "m \<in> marks (snd (snd (process_segment i seg (s\<lparr>ss_buf := rest, ss_throttle := 0\<rparr>) (dm_server d))))"
    using marks_after_line unfolding line(1) by blast
  moreover from line(2,3) have "next_input d i = Some seg" by (simp add: next_input_def)
  ultimately show ?thesis by blast
next
  case (flushed i tk s blob quit w gone st)
  from gain flushed(1) marks_flushed [OF flushed(3)] marks_end_reader [of i tk st d] show ?thesis
    by (auto split: if_splits)
next
  case (ended i tk s)
  with gain marks_end_reader [of i tk "dm_server d" d] show ?thesis by auto
next
  case (link_applied k t ev evs t' st)
  with gain marks_cxs [OF cxs_view.frame_link(1) [OF link_applied(5)]] show ?thesis by simp
next
  case (dropped i tls peer pk hdr l st)
  with gain state_inv_admit [OF dropped(3), THEN conjunct2, THEN marks_cxs] show ?thesis by simp
next
  case (admitted i tls peer pk hdr tk st)
  with gain state_inv_admit [OF admitted(3), THEN conjunct2, THEN marks_cxs] show ?thesis by simp
next
  case reclaim_sweep
  with gain marks_descends [OF descends_sweeps(1), of "dm_server d"] show ?thesis by auto
next
  case liveness_sweep
  with gain marks_descends [OF descends_sweeps(2), of "dm_server d"] show ?thesis by auto
next
  case (drained i)
  with gain marks_cxs [OF cxs_core [OF writer_core(1)]] show ?thesis by simp
next
  case (writer_lost i)
  with gain marks_cxs [OF cxs_core [OF writer_core(2)]] show ?thesis by simp
next
  case (session i tk h cert)
  with gain marks_session [of i tk cert d] show ?thesis by auto
next
  case (clock w)
  with gain marks_cxs [OF cxs_meter(2)] show ?thesis by simp
next
  case (link_opened c cfg outb t st)
  with gain marks_cxs [OF cxs_view.frame_link_task(1)] show ?thesis by simp
next
  case (link_flushed k t n t' st)
  with gain marks_cxs [OF cxs_view.frame_link_task(2)] show ?thesis by simp
next
  case (link_ticked k t st)
  with gain marks_cxs [OF cxs_view.frame_link_task(3)] show ?thesis by simp
qed (use gain handshake_same(2,4) [THEN marks_cxs] cxs_view.frame_link(2) [THEN marks_cxs]
    cxs_view.frame_link_io(4,5) [THEN marks_cxs] marks_cxs [OF cxs_view.frame_session(3)] in simp_all)

text \<open>Along a run: the moment at which the mark appears.\<close>

lemma marks_gained:
  assumes run: "(dm_step event_safe)\<^sup>*\<^sup>* d e" and "m \<notin> marks (dm_server d)" "m \<in> marks (dm_server e)"
  shows "\<exists>f g. (dm_step event_safe)\<^sup>*\<^sup>* d f \<and> dm_step event_safe f g \<and> (dm_step event_safe)\<^sup>*\<^sup>* g e
    \<and> m \<notin> marks (dm_server f) \<and> m \<in> marks (dm_server g)"
  using run assms(3)
proof (induction rule: rtranclp_induct)
  case base
  with assms(2) show ?case by blast
next
  case (step f e)
  then show ?case by (cases "m \<in> marks (dm_server f)") (blast intro: rtranclp.rtrancl_into_rtrancl)+
qed

end

section \<open>Operators\<close>

definition opers :: "server \<Rightarrow> nat set" where
  "opers st = cx_id ` {u \<in> cxs st. cx_oper u}"

lemma opers_conns: "opers st = cx_id ` {u \<in> conns st. cx_oper u}"
  by (force simp: opers_def cxs_def image_iff)

lemma opers_iff: "state_inv st \<Longrightarrow> j \<in> opers st \<longleftrightarrow> cx_opt cx_oper False st j"
proof
  assume inv: "state_inv st"
  show "j \<in> opers st \<Longrightarrow> cx_opt cx_oper False st j"
    using conns_find [OF inv] by (auto simp: opers_conns cx_opt_def)
  assume "cx_opt cx_oper False st j"
  then obtain u where "find_by_id st j = Some u" "cx_oper u" by (auto simp: cx_opt_def split: option.splits)
  with find_conns [OF inv this(1)] show "j \<in> opers st" by (auto simp: opers_conns)
qed

text \<open>A new connection is neither an operator nor logged in.\<close>

lemma park_conns: "\<exists>u. conns (park_new i h r tx cert st) \<subseteq> insert u (conns st) \<and> \<not> cx_oper u \<and> cx_account u = None"
proof -
  obtain u where "park_new i h r tx cert st = st\<lparr>sv_unreg := hm_insert i u (sv_unreg st)\<rparr>" "\<not> cx_oper u" "cx_account u = None"
    by (auto simp: park_new_def)
  with values_insert [of i u "sv_unreg st"] show ?thesis by (intro exI [of _ u]) (auto simp: conns_def)
qed

interpretation oper_mark: mark opers
proof unfold_locales
  show "cxs s = cxs st \<Longrightarrow> opers s = opers st" for s st by (simp add: opers_def)
  show "descends (\<lambda>_ _. False) st s \<Longrightarrow> opers s \<subseteq> opers st" for s st
    by (fastforce simp: opers_def descends_def tweak_def)
  show "opers (park_new i h r tx cert st) \<subseteq> opers st" for i h r tx cert st
    using park_conns [of i h r tx cert st] by (force simp: opers_conns)
qed

definition oper_line :: "conf \<Rightarrow> string \<Rightarrow> bool" where
  "oper_line cf seg = (case parse_segment seg of
     None \<Rightarrow> False
   | Some cmd \<Rightarrow> cmd_name cmd = ''OPER'' \<and> first_opt (cmd_params cmd) = Some (oper_user cf)
       \<and> nth_opt (cmd_params cmd) 1 = Some (oper_pass cf))"

text \<open>The next line of a reader asks for operator status with the configured credentials.\<close>

definition asks_oper :: "conf \<Rightarrow> daemon \<Rightarrow> nat \<Rightarrow> bool" where
  "asks_oper cf d j = (case next_input d j of Some seg \<Rightarrow> oper_line cf seg | None \<Rightarrow> False)"

lemma oper_step:
  assumes inv: "dm_inv d" and step: "dm_step event_safe d e"
    and gain: "j \<in> opers (dm_server e)" "j \<notin> opers (dm_server d)"
  shows "asks_oper (sv_conf (dm_server d)) d j"
proof -
  let ?st = "dm_server d"
  have si: "state_inv ?st" by (rule dm_invD(1) [OF inv])
  from oper_mark.marks_step [OF step gain] obtain i seg s where
    next_in: "next_input d i = Some seg" and more_opers: "j \<in> opers (snd (snd (process_segment i seg s ?st)))" by blast
  from oper_mark.marks_line [OF more_opers gain(2)] obtain cmd where cmd: "parse_segment seg = Some cmd"
    and gate: "open_command (cmd_name cmd) \<or> cx_opt cx_registered False (arrival i cmd s ?st) i"
    and g: "j \<notin> opers (arrival i cmd s ?st)" "j \<in> opers (snd (dispatch i cmd (arrival i cmd s ?st)))" by blast
  note ai = arrival_inv [OF si, of i cmd s]
  have "cmd_name cmd = ''OPER'' \<and> j = i \<and> first_opt (cmd_params cmd) = Some (oper_user (sv_conf ?st))
      \<and> nth_opt (cmd_params cmd) 1 = Some (oper_pass (sv_conf ?st))"
    using dispatch_oper_gain [OF ai gate] g opers_iff [OF ai] opers_iff [OF state_inv_dispatch [OF ai gate]]
    unfolding arrival_conf by blast
  with next_in cmd show ?thesis by (simp add: asks_oper_def oper_line_def)
qed

text \<open>The configuration is that of the start of the run.\<close>

lemma conf_kept:
  assumes "hm_wf (dm_conns d)" "(dm_step peers)\<^sup>*\<^sup>* d e"
  shows "sv_conf (dm_server e) = sv_conf (dm_server d)"
proof -
  have "\<exists>a. tracks (sv_limits (dm_server d)) (sv_conf (dm_server d)) e a"
    using assms(2)
  proof (induction rule: rtranclp_induct)
    case base
    show ?case
      by (rule exI [of _ "\<lparr>adm_table = sv_sources (dm_server d), adm_held = slots (dm_conns d), adm_log = [],
          adm_clock = sv_now (dm_server d)\<rparr>"]) (simp add: tracks_def assms(1))
  next
    case (step f e)
    with daemon_tracks show ?case by meson
  qed
  then show ?thesis by (auto simp: tracks_def)
qed

lemma operators_asked:
  assumes inv: "dm_inv d" and wf: "hm_wf (dm_conns d)" and run: "(dm_step event_safe)\<^sup>*\<^sup>* d e"
    and "j \<notin> opers (dm_server d)" "j \<in> opers (dm_server e)"
  shows "\<exists>f g. (dm_step event_safe)\<^sup>*\<^sup>* d f \<and> dm_step event_safe f g \<and> (dm_step event_safe)\<^sup>*\<^sup>* g e
    \<and> asks_oper (sv_conf (dm_server d)) f j \<and> j \<notin> opers (dm_server f) \<and> j \<in> opers (dm_server g)"
proof -
  from oper_mark.marks_gained [OF run assms(4,5)] obtain f g where
    fg: "(dm_step event_safe)\<^sup>*\<^sup>* d f" "dm_step event_safe f g" "(dm_step event_safe)\<^sup>*\<^sup>* g e"
    "j \<notin> opers (dm_server f)" "j \<in> opers (dm_server g)" by blast
  have "asks_oper (sv_conf (dm_server f)) f j" by (rule oper_step [OF daemon.kept [OF fg(1) inv] fg(2,5,4)])
  with fg show ?thesis unfolding conf_kept [OF wf fg(1)] by blast
qed

section \<open>Logins\<close>

definition logged :: "server \<Rightarrow> (nat \<times> string) set" where
  "logged st = {(k, a). \<exists>u\<in>cxs st. cx_id u = k \<and> cx_account u = Some a}"

lemma logged_conns: "logged st = {(k, a). \<exists>u\<in>conns st. cx_id u = k \<and> cx_account u = Some a}"
  by (auto simp: logged_def cxs_def)

lemma logged_iff: "state_inv st \<Longrightarrow> (j, a) \<in> logged st \<longleftrightarrow> cx_opt cx_account None st j = Some a"
proof
  assume inv: "state_inv st"
  show "(j, a) \<in> logged st \<Longrightarrow> cx_opt cx_account None st j = Some a"
    using conns_find [OF inv] by (auto simp: logged_conns cx_opt_def)
  assume "cx_opt cx_account None st j = Some a"
  then obtain u where "find_by_id st j = Some u" "cx_account u = Some a" by (auto simp: cx_opt_def split: option.splits)
  with find_conns [OF inv this(1)] show "(j, a) \<in> logged st" by (auto simp: logged_conns)
qed

interpretation login_mark: mark logged
proof unfold_locales
  show "cxs s = cxs st \<Longrightarrow> logged s = logged st" for s st by (simp add: logged_def)
  show "descends (\<lambda>_ _. False) st s \<Longrightarrow> logged s \<subseteq> logged st" for s st
    by (fastforce simp: logged_def descends_def tweak_def)
  show "logged (park_new i h r tx cert st) \<subseteq> logged st" for i h r tx cert st
    using park_conns [of i h r tx cert st] by (force simp: logged_conns)
qed

lemma dispatch_login:
  assumes inv: "state_inv st" and gain: "(j, a) \<in> logged (snd (dispatch i cmd st))" "(j, a) \<notin> logged st"
  shows "login st i cmd j (Some a)"
proof (cases "cmd_name cmd = ''OPER''")
  case True
  let ?s = "snote (cx_opt cx_nick [] st i @ '' is now an IRC operator'') st"
  have "logged (upd_by_id i (\<lambda>u. u\<lparr>cx_oper := True\<rparr>) ?s) \<subseteq> logged ?s"
  proof -
    have "conns (upd_by_id i (\<lambda>u. u\<lparr>cx_oper := True\<rparr>) ?s) \<subseteq> conns ?s \<union> (\<lambda>u. u\<lparr>cx_oper := True\<rparr>) ` conns ?s"
      by (rule conns_upd)
    then show ?thesis by (fastforce simp: logged_conns)
  qed
  then have "logged (handle_oper i cmd st) \<subseteq> logged st"
    by (cases "first_opt (cmd_params cmd)")
      (simp_all add: handle_oper_def password_mismatch_def Let_def cxs_view.frame_output [THEN login_mark.marks_cxs])
  with gain True show ?thesis by (auto simp: dispatch_def)
next
  case False
  from gain(1) obtain v where v: "v \<in> cxs (snd (dispatch i cmd st))" "cx_id v = j" "cx_account v = Some a"
    by (auto simp: logged_def)
  with descends_dispatch [OF False inv, of i] obtain u where u: "u \<in> cxs st" "tweak (login st i cmd) u v"
    unfolding descends_def by blast
  then have "cx_account u \<noteq> Some a" using gain(2) v by (auto simp: logged_def tweak_def)
  with u v show ?thesis by (auto simp: tweak_def)
qed

lemma login_arrival:
  assumes "state_inv st" "login (arrival i cmd s st) i cmd j acct"
  shows "login st i cmd j acct"
proof -
  from assms(2) have "cmd_name cmd \<noteq> ''PONG''" by (auto simp: login_def split: if_splits)
  note same = arrival_same [OF assms(1) this, where i = i and s = s]
  have kept: "cx_opt cx_cert_fp None (arrival i cmd s st) i = cx_opt cx_cert_fp None st i"
    "cx_opt cx_nick [] (arrival i cmd s st) i = cx_opt cx_nick [] st i" by (rule same(2); simp)+
  from assms(2) show ?thesis unfolding login_def sasl_login_def same(1) kept .
qed

text \<open>The next line of a reader asks for an account with the proof that it may have it.\<close>

definition asks_login :: "daemon \<Rightarrow> nat \<Rightarrow> string \<Rightarrow> bool" where
  "asks_login d j a = (case Option.bind (next_input d j) parse_segment of
     Some cmd \<Rightarrow> login (dm_server d) j cmd j (Some a) | None \<Rightarrow> False)"

lemma login_step:
  assumes inv: "dm_inv d" and step: "dm_step event_safe d e"
    and gain: "(j, a) \<in> logged (dm_server e)" "(j, a) \<notin> logged (dm_server d)"
  shows "asks_login d j a"
proof -
  let ?st = "dm_server d"
  have si: "state_inv ?st" by (rule dm_invD(1) [OF inv])
  from login_mark.marks_step [OF step gain] obtain i seg s where
    next_in: "next_input d i = Some seg" and "(j, a) \<in> logged (snd (snd (process_segment i seg s ?st)))" by blast
  from login_mark.marks_line [OF this(2) gain(2)] obtain cmd where cmd: "parse_segment seg = Some cmd"
    and g: "(j, a) \<notin> logged (arrival i cmd s ?st)" "(j, a) \<in> logged (snd (dispatch i cmd (arrival i cmd s ?st)))" by blast
  have l: "login ?st i cmd j (Some a)"
    by (rule login_arrival [OF si dispatch_login [OF arrival_inv [OF si] g(2,1)]])
  then have "j = i" by (simp add: login_def)
  with l next_in cmd show ?thesis by (simp add: asks_login_def)
qed

lemma logins_asked:
  assumes inv: "dm_inv d" and run: "(dm_step event_safe)\<^sup>*\<^sup>* d e"
    and "(j, a) \<notin> logged (dm_server d)" "(j, a) \<in> logged (dm_server e)"
  shows "\<exists>f g. (dm_step event_safe)\<^sup>*\<^sup>* d f \<and> dm_step event_safe f g \<and> (dm_step event_safe)\<^sup>*\<^sup>* g e
    \<and> asks_login f j a \<and> (j, a) \<notin> logged (dm_server f) \<and> (j, a) \<in> logged (dm_server g)"
proof -
  from login_mark.marks_gained [OF run assms(3,4)] obtain f g where
    fg: "(dm_step event_safe)\<^sup>*\<^sup>* d f" "dm_step event_safe f g" "(dm_step event_safe)\<^sup>*\<^sup>* g e"
    "(j, a) \<notin> logged (dm_server f)" "(j, a) \<in> logged (dm_server g)" by blast
  have "asks_login f j a" by (rule login_step [OF daemon.kept [OF fg(1) inv] fg(2,5,4)])
  with fg show ?thesis by blast
qed

section \<open>The credentials do grant it\<close>

lemma opt_settle:
  assumes inv: "state_inv st" and f: "\<And>u. f (erase u) = f u" "\<And>u n. f (u\<lparr>cx_batch_seq := n\<rparr>) = f u"
  shows "cx_opt f d (snd (settle i q st)) j = cx_opt f d st j"
proof -
  have upd: "cx_opt f d (upd_by_id i g s) j = cx_opt f d s j"
    if "state_inv s" "\<And>u. cx_id (g u) = cx_id u" "\<And>u. f (g u) = f u" for g s
    using that by (simp add: cx_opt_def find_by_id_upd split: option.split)
  have "cx_opt f d (snd (finish_reply i st)) j = cx_opt f d st j"
    using inv f by (simp add: finish_reply_def next_batch_ref_def Let_def upd cx_opt_core [OF core_upd_reply])
  moreover have "f (enqueue b u) = f u" "cx_id (enqueue b u) = cx_id u" for b u
    using f(1) [of "enqueue b u"] f(1) [of u] by (simp_all add: enqueue_def erase_def)
  then have "cx_opt f d (snd (take_pending i b s)) j = cx_opt f d s j" if "state_inv s" for b s
    using that by (simp add: take_pending_def upd split: option.split)
  ultimately show ?thesis using state_inv_finish_reply [OF inv]
    by (simp add: settle_def case_prod_beta)
qed

text \<open>A line from a client whose source is not limited is run.\<close>

lemma line_runs:
  fixes i :: nat and st :: server
  assumes "parse_segment seg = Some cmd" "cmd_prefix cmd = None" "\<not> is_numeric_reply (cmd_name cmd)" "ss_exempt s"
  defines "st1 \<equiv> upd_by_id i (\<lambda>u. u\<lparr>cx_last_rx := sv_now st\<rparr>) st"
  shows "fst (process_segment i seg s st) = fst (run_command i cmd st1)"
    and "snd (snd (process_segment i seg s st)) = snd (run_command i cmd st1)"
proof -
  have "charge_source i s st1 = (Inr (), st1)"
    using assms(4) by (cases "cx_opt cx_oper False st1 i") (simp_all add: charge_source_def charge_message_def)
  then show "fst (process_segment i seg s st) = fst (run_command i cmd st1)"
    and "snd (snd (process_segment i seg s st)) = snd (run_command i cmd st1)"
    using assms(1-3) unfolding st1_def
    by (simp_all add: process_segment_def route_def authentic_def Let_def case_prod_beta)
qed

lemma command_runs:
  assumes "gate_open (begin_reply i cmd st) i cmd" "cmd_name cmd \<noteq> ''PONG''"
  shows "run_command i cmd st = settle i (fst (dispatch i cmd (begin_reply i cmd st))) (snd (dispatch i cmd (begin_reply i cmd st)))"
  using assms by (simp add: run_command_def Let_def on_pong_def case_prod_beta)

lemma settle_quit: "fst (fst (settle i q st)) = q"
  by (simp add: settle_def case_prod_beta)

text \<open>What the command finds: the connection as it was, apart from the time of its last line.\<close>

lemma line_finds:
  fixes cmd :: command
  assumes inv: "state_inv st" and u: "find_by_id st i = Some u"
  defines "b \<equiv> begin_reply i cmd (upd_by_id i (\<lambda>u. u\<lparr>cx_last_rx := sv_now st\<rparr>) st)"
  shows "state_inv b" and "sv_conf b = sv_conf st" and "sv_accounts b = sv_accounts st"
    and "\<exists>v. find_by_id b i = Some v \<and> erase v = erase (u\<lparr>cx_last_rx := sv_now st\<rparr>)"
proof -
  let ?st1 = "upd_by_id i (\<lambda>u. u\<lparr>cx_last_rx := sv_now st\<rparr>) st"
  have c: "core b = core ?st1" by (simp add: b_def begin_reply_def Let_def core_simps)
  have inv1: "state_inv ?st1" using inv by (simp add: state_inv_upd_by_id)
  then show "state_inv b" by (simp add: b_def)
  have same: "sv_conf ?st1 = sv_conf st" "sv_accounts ?st1 = sv_accounts st"
    by (simp_all add: upd_by_id_def split: option.split)
  show "sv_conf b = sv_conf st" using c same by (metis core_fields(5))
  show "sv_accounts b = sv_accounts st" using accounts_core [OF c] same by simp
  have "find_by_id ?st1 i = Some (u\<lparr>cx_last_rx := sv_now st\<rparr>)"
    using find_by_id_upd [OF inv, of "\<lambda>u. u\<lparr>cx_last_rx := sv_now st\<rparr>" i i] u by simp
  moreover have "map_option erase (find_by_id b i) = map_option erase (find_by_id ?st1 i)"
    using find_by_id_core c by metis
  ultimately show "\<exists>v. find_by_id b i = Some v \<and> erase v = erase (u\<lparr>cx_last_rx := sv_now st\<rparr>)"
    by (cases "find_by_id b i") auto
qed

lemma handle_oper_grants:
  assumes "state_inv st" "find_by_id st i \<noteq> None" "oper_pass (sv_conf st) \<noteq> []"
    and "first_opt (cmd_params cmd) = Some (oper_user (sv_conf st))" "nth_opt (cmd_params cmd) 1 = Some (oper_pass (sv_conf st))"
  shows "cx_opt cx_oper False (handle_oper i cmd st) i"
proof -
  have "find_by_id (snote t st) i \<noteq> None" for t
    using assms(2) by (metis core_snote find_by_id_core option.map_disc_iff)
  then have "cx_opt cx_oper False (upd_by_id i (\<lambda>u. u\<lparr>cx_oper := True\<rparr>) (snote t st)) i" for t
    using assms(1) by (auto simp: cx_opt_def find_by_id_upd split: option.split)
  then show ?thesis
    using assms(3-) by (simp add: handle_oper_def str_default_def Let_def constant_time_eq_iff
        oper_core [OF core_deliver] oper_core [OF core_numeric])
qed

lemma line_grants:
  assumes inv: "state_inv st" and u: "find_by_id st i = Some u" "cx_registered u"
    and cmd: "parse_segment seg = Some cmd" "cmd_prefix cmd = None" and line: "oper_line (sv_conf st) seg"
    and pass: "oper_pass (sv_conf st) \<noteq> []" and ex: "ss_exempt s"
  shows "cx_opt cx_oper False (snd (snd (process_segment i seg s st))) i" "\<not> fst (fst (process_segment i seg s st))"
proof -
  let ?st1 = "upd_by_id i (\<lambda>u. u\<lparr>cx_last_rx := sv_now st\<rparr>) st"
  let ?b = "begin_reply i cmd ?st1"
  note b = line_finds [OF inv u(1), of cmd]
  have c: "cmd_name cmd = ''OPER''" "first_opt (cmd_params cmd) = Some (oper_user (sv_conf st))"
    "nth_opt (cmd_params cmd) 1 = Some (oper_pass (sv_conf st))" using line cmd(1) by (simp_all add: oper_line_def)
  obtain v where v: "find_by_id ?b i = Some v" "erase v = erase (u\<lparr>cx_last_rx := sv_now st\<rparr>)" using b(4) by blast
  from arg_cong [OF v(2), of cx_registered] u(2) v(1) have "gate_open ?b i cmd" by (simp add: gate_open_def cx_opt_def)
  then have r: "run_command i cmd ?st1 = settle i False (handle_oper i cmd ?b)"
    using command_runs [of i cmd ?st1] c(1) by (simp add: dispatch_def)
  have "cx_opt cx_oper False (handle_oper i cmd ?b) i"
    by (rule handle_oper_grants [OF b(1)]) (use v(1) c pass in \<open>simp_all add: b(2)\<close>)
  moreover have "state_inv (handle_oper i cmd ?b)" using b(1) by (rule state_inv_handle_oper)
  moreover note line_runs [OF cmd _ ex, of i st]
  ultimately show "cx_opt cx_oper False (snd (snd (process_segment i seg s st))) i" "\<not> fst (fst (process_segment i seg s st))"
    by (simp_all add: c(1) is_numeric_reply_def r opt_settle settle_quit)
qed

text \<open>A certificate that an account lists opens it.\<close>

lemma line_logs_in:
  assumes inv: "state_inv st" and u: "find_by_id st i = Some u" "\<not> cx_registered u" "cx_account u = None"
    and sasl: "sasl (cx_caps u)" "cx_sasl_mech u = Some ''EXTERNAL''" "cx_cert_fp u = Some fp"
    and bound: "account_for_cert (sv_accounts st) fp = Some a"
    and cmd: "parse_segment seg = Some cmd" "cmd_prefix cmd = None" "cmd_name cmd = ''AUTHENTICATE''" "cmd_params cmd = [''+'']"
    and ex: "ss_exempt s"
  shows "cx_opt cx_account None (snd (snd (process_segment i seg s st))) i = Some a" "\<not> fst (fst (process_segment i seg s st))"
proof -
  let ?st1 = "upd_by_id i (\<lambda>u. u\<lparr>cx_last_rx := sv_now st\<rparr>) st"
  let ?b = "begin_reply i cmd ?st1"
  note b = line_finds [OF inv u(1), of cmd]
  obtain v where v: "find_by_id ?b i = Some v" "erase v = erase (u\<lparr>cx_last_rx := sv_now st\<rparr>)" using b(4) by blast
  have fs: "\<not> cx_registered v" "cx_account v = None" "sasl (cx_caps v)" "cx_sasl_mech v = Some ''EXTERNAL''" "cx_cert_fp v = Some fp"
    using u(2,3) sasl arg_cong [OF v(2), of cx_registered] arg_cong [OF v(2), of cx_account] arg_cong [OF v(2), of cx_caps]
      arg_cong [OF v(2), of cx_sasl_mech] arg_cong [OF v(2), of cx_cert_fp] by (simp_all add: erase_def)
  have "handle_authenticate i cmd ?b = finish_sasl_login i a ?b"
    using fs bound by (simp add: handle_authenticate_def Let_def cx_opt_def v(1) first_opt_def str_default_def cmd(4)
        check_credentials_def authenticate_external_def external_authzid_def b(3))
  then have "cx_opt cx_account None (handle_authenticate i cmd ?b) i = Some a"
    by (simp add: account_finish_sasl [OF b(1)] v(1))
  moreover have "state_inv (handle_authenticate i cmd ?b)" using b(1) by (rule state_inv_handle_authenticate)
  moreover have "run_command i cmd ?st1 = settle i False (handle_authenticate i cmd ?b)"
    using command_runs [of i cmd ?st1] cmd(3) by (simp add: dispatch_def gate_open_def open_command_def)
  moreover note line_runs [OF cmd(1,2) _ ex, of i st]
  ultimately show "cx_opt cx_account None (snd (snd (process_segment i seg s st))) i = Some a"
    "\<not> fst (fst (process_segment i seg s st))"
    by (simp_all add: cmd(3) is_numeric_reply_def opt_settle settle_quit)
qed

end
