(* ===== verification/Sample.thy ===== *)
theory Sample
  imports Sweeps Roster Http Startup Authority
begin

text \<open>Example states on which the properties of the root theory are exercised. They model no code of
  their own: a server as \<^const>\<open>server_new\<close> leaves it, the same server with three registered users
  (alice, an operator of #a; bob, a member of it; carol, a bystander) and one connection that has not
  registered, and a server with an account that a client certificate opens. The lemmas look the
  tables up and show that the state invariant of \<^verbatim>\<open>Inv\<close> holds of them.\<close>

definition demo_world :: world where
  "demo_world = \<lparr>w_now = from_secs 1000, w_unix = 1700000000, w_millis = 0, w_env = (\<lambda>_. None), w_salt = [],
     w_write_ok = True, w_ban_write = Written\<rparr>"

definition demo_start :: server where
  "demo_start = server_new demo_world ''irc.test'' ''admin'' ''secret'' [] [] [] [] None None None"

definition demo_user :: "nat \<Rightarrow> string \<Rightarrow> string set \<Rightarrow> cx" where
  "demo_user i nick cs =
     \<lparr>cx_id = i, cx_tx = channel_new 512, cx_nick = nick, cx_nick_key = nick, cx_user = ''u'', cx_host = ''h'',
      cx_real_host = ''10.0.0.1'', cx_realname = ''R'', cx_registered = True, cx_account = None,
      cx_caps = caps_default, cx_sasl_mech = None, cx_cert_fp = None, cx_pending_nick = None,
      cx_pending_user = None, cx_cap_negotiating = False, cx_cap_gated_welcome = False,
      cx_batch_seq = 0, cx_reg_challenged = False, cx_reg_verified = False, cx_away = None,
      cx_invis = False, cx_wallop = False, cx_srvnotice = False, cx_oper = False, cx_bot = False,
      cx_chans = cs, cx_connected_at = from_secs 10, cx_last_rx = from_secs 20, cx_close_notify = True\<rparr>"

definition demo_chan :: chn where
  "demo_chan = (chn_new 0 ''#a'')\<lparr>ch_members := {2, 7}, ch_ops := {7}\<rparr>"

definition demo :: server where
  "demo = demo_start\<lparr>sv_users := [(''alice'', demo_user 7 ''alice'' {''#a''}), (''bob'', demo_user 2 ''bob'' {''#a''}),
       (''carol'', demo_user 3 ''carol'' {})],
     sv_unreg := [(4, (demo_user 4 ''dave'' {})\<lparr>cx_registered := False\<rparr>)],
     sv_chans := [(''#a'', demo_chan)]\<rparr>"

lemma demo_names: "norm_nick ''alice'' = ''alice''" "norm_nick ''bob'' = ''bob''" "norm_nick ''carol'' = ''carol''"
  "norm_nick ''#a'' = ''#a''"
  by code_simp+

lemma demo_tables:
  "sv_users demo = [(''alice'', demo_user 7 ''alice'' {''#a''}), (''bob'', demo_user 2 ''bob'' {''#a''}),
     (''carol'', demo_user 3 ''carol'' {})]"
  "sv_unreg demo = [(4, (demo_user 4 ''dave'' {})\<lparr>cx_registered := False\<rparr>)]" "sv_chans demo = [(''#a'', demo_chan)]"
  "sv_history demo = []" "sv_ping demo = []" "sv_world demo = demo_world" "reply_for (sv_reply demo) = None"
  by (simp_all add: demo_def demo_start_def server_new_def)

lemma demo_user_fields [simp]:
  "cx_id (demo_user i n cs) = i" "cx_nick (demo_user i n cs) = n" "cx_nick_key (demo_user i n cs) = n"
  "cx_registered (demo_user i n cs)" "cx_chans (demo_user i n cs) = cs" "\<not> cx_oper (demo_user i n cs)"
  "cx_last_rx (demo_user i n cs) = from_secs 20" "cx_connected_at (demo_user i n cs) = from_secs 10"
  by (simp_all add: demo_user_def)

lemma demo_chan_fields [simp]: "ch_members demo_chan = {2, 7}" "ch_ops demo_chan = {7}" "ch_voices demo_chan = {}"
  "\<not> ch_invite_only demo_chan" "\<not> ch_regonly demo_chan" "\<not> ch_nomsg demo_chan" "\<not> ch_moderated demo_chan"
  "ch_chan_key demo_chan = None" "ch_bans demo_chan = []"
  by (simp_all add: demo_chan_def chn_new_def)

lemma demo_get:
  "hm_get (sv_users demo) k = Some u \<longleftrightarrow> k = ''alice'' \<and> u = demo_user 7 ''alice'' {''#a''}
     \<or> k = ''bob'' \<and> u = demo_user 2 ''bob'' {''#a''} \<or> k = ''carol'' \<and> u = demo_user 3 ''carol'' {}"
  "hm_get (sv_unreg demo) i = Some v \<longleftrightarrow> i = 4 \<and> v = (demo_user 4 ''dave'' {})\<lparr>cx_registered := False\<rparr>"
  "hm_get (sv_chans demo) ck = Some c \<longleftrightarrow> ck = ''#a'' \<and> c = demo_chan"
  by (auto simp: demo_tables)

lemma demo_unreg_free: "i \<noteq> 4 \<Longrightarrow> hm_get (sv_unreg demo) i = None"
  by (simp add: demo_tables)

lemma state_inv_demo: "state_inv demo"
proof -
  have ids: "ids_ok (hm_get (sv_users demo)) (hm_get (sv_unreg demo))"
    unfolding ids_ok_def demo_get by (auto simp: demo_names demo_unreg_free)
  have members: "\<forall>m\<in>{2, 7}. \<exists>k u. hm_get (sv_users demo) k = Some u \<and> cx_id u = m"
    using demo_get(1) by (metis demo_user_fields(1) insertE singletonD)
  have "memb_ok (hm_get (sv_users demo)) (hm_get (sv_chans demo))"
    unfolding memb_ok_def using members by (auto simp: demo_get demo_names)
  with ids show ?thesis by (simp add: state_inv_def hm_wf_def demo_tables)
qed

definition demo_daemon :: daemon where
  "demo_daemon = \<lparr>dm_server = demo_start, dm_next = 1, dm_conns = [], dm_links = []\<rparr>"

lemma demo_daemon_init: "dm_init demo_daemon"
  unfolding dm_init_def demo_daemon_def demo_start_def by (simp, blast)

definition demo_cmd :: "string \<Rightarrow> string list \<Rightarrow> command" where
  "demo_cmd n ps = \<lparr>cmd_prefix = None, cmd_name = n, cmd_params = ps, cmd_tags = []\<rparr>"

lemma demo_cmd_fields [simp]: "cmd_name (demo_cmd n ps) = n" "cmd_params (demo_cmd n ps) = ps"
  by (simp_all add: demo_cmd_def)

lemma demo_find:
  "find_by_id demo 7 = Some (demo_user 7 ''alice'' {''#a''})" "find_by_id demo 2 = Some (demo_user 2 ''bob'' {''#a''})"
  "find_by_id demo 3 = Some (demo_user 3 ''carol'' {})"
  by (simp_all add: find_by_id_def demo_tables hm_values_def)

definition demo_ticket :: ticket where
  "demo_ticket = \<lparr>tk_peer = ''10.0.0.1'', tk_real_host = ''10.0.0.1'', tk_limit_key = ''10.0.0.1'', tk_exempt = True\<rparr>"

text \<open>The tasks that read for the connections of the example; carol has sent a line.\<close>

definition demo_reader :: "string \<Rightarrow> stage" where
  "demo_reader buf = Reading demo_ticket ((session_new ''10.0.0.1'' True)\<lparr>ss_buf := buf\<rparr>) None"

definition demo_running :: daemon where
  "demo_running = \<lparr>dm_server = demo, dm_next = 8,
     dm_conns = [(2, demo_reader []), (3, demo_reader (''OPER admin secret'' @ [CHR 0x0A])), (4, demo_reader []),
       (7, demo_reader [])], dm_links = []\<rparr>"

lemma dm_inv_demo_running: "dm_inv demo_running"
proof -
  have "conn_ids demo = {2, 3, 4, 7}" by (auto simp: conn_ids_conns conns_def demo_tables hm_values_def)
  then show ?thesis
    by (auto simp: dm_inv_def demo_running_def state_inv_demo readers_def demo_reader_def stage_ok_def session_ok_def
        session_new_def split: if_splits)
qed

definition demo_line :: daemon where
  "demo_line = after_line 3 demo_ticket (process_segment 3 ''OPER admin secret''
     ((session_new ''10.0.0.1'' True)\<lparr>ss_buf := [], ss_throttle := 0\<rparr>) demo) demo_running"

lemma demo_line_step: "dm_step event_safe demo_running demo_line"
proof -
  have "next_line (''OPER admin secret'' @ [CHR 0x0A]) = Some (Content ''OPER admin secret'', [])" by code_simp
  with dm_step.line [of demo_running 3 demo_ticket "(session_new ''10.0.0.1'' True)\<lparr>ss_buf := ''OPER admin secret'' @ [CHR 0x0A]\<rparr>"
      "''OPER admin secret''" "[]" event_safe]
  show ?thesis by (simp add: demo_line_def demo_running_def demo_reader_def)
qed

lemma demo_line_oper: "\<not> cx_opt cx_oper False (dm_server demo_running) 3" "cx_opt cx_oper False (dm_server demo_line) 3"
proof -
  show "\<not> cx_opt cx_oper False (dm_server demo_running) 3" by (simp add: demo_running_def cx_opt_def demo_find)
  have cmd: "parse_segment ''OPER admin secret'' = Some (demo_cmd ''OPER'' [''admin'', ''secret''])" by code_simp
  have conf: "oper_user (sv_conf demo) = ''admin''" "oper_pass (sv_conf demo) = ''secret''"
    by (simp_all add: demo_def demo_start_def server_new_def)
  let ?r = "process_segment 3 ''OPER admin secret'' ((session_new ''10.0.0.1'' True)\<lparr>ss_buf := [], ss_throttle := 0\<rparr>) demo"
  have "cx_opt cx_oper False (snd (snd ?r)) 3" "\<not> fst (fst ?r)"
    by (rule line_grants [OF state_inv_demo demo_find(3) _ cmd];
      simp add: oper_line_def cmd conf demo_cmd_def session_new_def first_opt_def nth_opt_def)+
  then show "cx_opt cx_oper False (dm_server demo_line) 3"
    by (simp add: demo_line_def after_line_def case_prod_beta split: option.split)
qed

definition demo_fp :: string where "demo_fp = replicate 64 (CHR ''a'')"

definition demo_accounts :: account_store where
  "demo_accounts = \<lparr>acct_path = None,
     acct_map = [(''alice'', \<lparr>acct_name = ''Alice'', acct_salt = [], acct_hash = [], acct_iters = 1, acct_certs = [demo_fp]\<rparr>)],
     by_cert = [(demo_fp, ''alice'')], acct_file = None\<rparr>"

definition demo_login :: server where
  "demo_login = demo_start\<lparr>sv_accounts := demo_accounts,
     sv_unreg := [(4, (demo_user 4 [] {})\<lparr>cx_registered := False, cx_caps := caps_default\<lparr>sasl := True\<rparr>,
       cx_cert_fp := Some demo_fp, cx_sasl_mech := Some ''EXTERNAL''\<rparr>)]\<rparr>"

lemma demo_fp_normal: "normalize_cert_fingerprint demo_fp = Some demo_fp"
  by code_simp

lemma state_inv_demo_login: "state_inv demo_login"
  by (auto simp: state_inv_def demo_login_def demo_start_def server_new_def hm_wf_def ids_ok_def memb_ok_def
      split: if_splits)

text \<open>The daemon with this server, whose client has just been asked for its message.\<close>

definition demo_asking :: daemon where
  "demo_asking = \<lparr>dm_server = demo_login, dm_next = 5,
     dm_conns = [(4, demo_reader (''AUTHENTICATE +'' @ [CHR 0x0A]))], dm_links = []\<rparr>"

lemma dm_inv_demo_asking: "dm_inv demo_asking"
proof -
  have "conn_ids demo_login = {4}"
    by (auto simp: conn_ids_conns conns_def demo_login_def demo_start_def server_new_def hm_values_def)
  then show ?thesis
    by (auto simp: dm_inv_def demo_asking_def state_inv_demo_login readers_def demo_reader_def stage_ok_def session_ok_def
        session_new_def split: if_splits)
qed

definition demo_signed :: daemon where
  "demo_signed = after_line 4 demo_ticket (process_segment 4 ''AUTHENTICATE +''
     ((session_new ''10.0.0.1'' True)\<lparr>ss_buf := [], ss_throttle := 0\<rparr>) demo_login) demo_asking"

lemma demo_signed_step: "dm_step event_safe demo_asking demo_signed"
proof -
  have "next_line (''AUTHENTICATE +'' @ [CHR 0x0A]) = Some (Content ''AUTHENTICATE +'', [])" by code_simp
  with dm_step.line [of demo_asking 4 demo_ticket "(session_new ''10.0.0.1'' True)\<lparr>ss_buf := ''AUTHENTICATE +'' @ [CHR 0x0A]\<rparr>"
      "''AUTHENTICATE +''" "[]" event_safe]
  show ?thesis by (simp add: demo_signed_def demo_asking_def demo_reader_def)
qed

lemma demo_signed_account: "cx_opt cx_account None (dm_server demo_asking) 4 = None"
  "cx_opt cx_account None (dm_server demo_signed) 4 = Some ''Alice''"
proof -
  let ?u = "(demo_user 4 [] {})\<lparr>cx_registered := False, cx_caps := caps_default\<lparr>sasl := True\<rparr>,
      cx_cert_fp := Some demo_fp, cx_sasl_mech := Some ''EXTERNAL''\<rparr>"
  have u: "find_by_id demo_login 4 = Some ?u" by (simp add: demo_login_def find_by_id_def)
  then show "cx_opt cx_account None (dm_server demo_asking) 4 = None"
    by (simp add: demo_asking_def cx_opt_def demo_user_def)
  have cmd: "parse_segment ''AUTHENTICATE +'' = Some (demo_cmd ''AUTHENTICATE'' [''+''])" by code_simp
  have "account_for_cert (sv_accounts demo_login) demo_fp = Some ''Alice''"
    by (simp add: account_for_cert_def demo_fp_normal demo_login_def demo_accounts_def)
  note grant = line_logs_in [OF state_inv_demo_login u _ _ _ _ _ this cmd]
  let ?r = "process_segment 4 ''AUTHENTICATE +'' ((session_new ''10.0.0.1'' True)\<lparr>ss_buf := [], ss_throttle := 0\<rparr>) demo_login"
  have "cx_opt cx_account None (snd (snd ?r)) 4 = Some ''Alice''" "\<not> fst (fst ?r)"
    by (rule grant; simp add: demo_user_def demo_cmd_def session_new_def)+
  then show "cx_opt cx_account None (dm_server demo_signed) 4 = Some ''Alice''"
    by (simp add: demo_signed_def after_line_def case_prod_beta split: option.split)
qed

lemma demo_chan_at: "chan demo ''#a'' = Some demo_chan"
  by (simp add: chan_def demo_names demo_tables)

lemma demo_join_allowed: "join_allowed demo 3 key ''#a''"
proof -
  have "valid_channel ''#a''" by code_simp
  then show ?thesis
    by (simp add: join_allowed_def demo_chan_at demo_find join_checks_def Let_def is_member_def ban_match_def)
qed

lemma demo_live: "live 7 demo" "live 2 demo"
  using state_inv_demo by (simp_all add: live_iff cx_opt_def demo_find live_def reg_in_iff)

definition demo_replying :: server where
  "demo_replying = demo\<lparr>sv_reply := (sv_reply demo)\<lparr>reply_for := Some 7\<rparr>\<rparr>"

lemma demo_replying_facts:
  "state_inv demo_replying" "chan demo_replying ''#a'' = Some demo_chan" "reply_for (sv_reply demo_replying) = Some 7"
  "find_by_id demo_replying i = find_by_id demo i" "\<not> bypass_reply_capture (sv_reply demo_replying)"
proof -
  have same: "sv_users demo_replying = sv_users demo" "sv_unreg demo_replying = sv_unreg demo"
    "sv_chans demo_replying = sv_chans demo" "sv_history demo_replying = sv_history demo"
    by (simp_all add: demo_replying_def)
  show "state_inv demo_replying" using state_inv_tables [OF same] state_inv_demo by simp
  show "chan demo_replying ''#a'' = Some demo_chan" using demo_chan_at same by (simp add: chan_def)
  show "find_by_id demo_replying i = find_by_id demo i" by (simp only: find_by_id_def same)
  show "reply_for (sv_reply demo_replying) = Some 7" "\<not> bypass_reply_capture (sv_reply demo_replying)"
    by (simp_all add: demo_replying_def demo_def demo_start_def server_new_def)
qed

definition demo_reg :: chan_reg where
  "demo_reg = \<lparr>reg_display = ''#a'', founder_display = ''alice'', reg_topic = ''welcome''\<rparr>"

lemma cert_inv_demo: "cert_inv demo_accounts"
proof -
  have "fp_ok demo_fp" by code_simp
  then show ?thesis by (simp add: cert_inv_def demo_accounts_def hm_wf_def)
qed

definition demo_env :: environ where
  "demo_env k = (if k = ''IRC_PROXY_PROTOCOL'' then Some ''1'' else None)"

definition demo_admission :: admission where
  "demo_admission = \<lparr>adm_table = snd (try_admit (limits_default demo_env) ''10.0.0.1'' False 5 table_new),
     adm_held = {#(''10.0.0.1'', False)#}, adm_log = [(''10.0.0.1'', 5)], adm_clock = 5\<rparr>"

lemma demo_limits:
  "max_clients (limits_default demo_env) = 1024" "max_clones_per_ip (limits_default demo_env) = 5"
  "max_connects_per_window (limits_default demo_env) = 30" "connect_window (limits_default demo_env) = from_secs 60"
  by (simp_all add: limits_default_def Let_def env_usize_def demo_env_def addresses_are_trustworthy_def)

lemma demo_admission_reach: "adm_reach (limits_default demo_env) demo_admission"
proof -
  define a where "a = \<lparr>adm_table = table_new, adm_held = {#}, adm_log = [], adm_clock = 5\<rparr>"
  have "fst (try_admit (limits_default demo_env) ''10.0.0.1'' False 5 table_new) = Inr ()"
    by (simp add: try_admit_def demo_limits table_new_def entry_of_def source_default_def recent_def)
  then have "try_admit (limits_default demo_env) ''10.0.0.1'' False (adm_clock a) (adm_table a) =
      (Inr (), snd (try_admit (limits_default demo_env) ''10.0.0.1'' False 5 table_new))"
    by (simp add: a_def prod_eq_iff)
  from adm_step.adm_admitted [OF this] have "adm_step (limits_default demo_env) a demo_admission"
    by (simp add: a_def demo_admission_def)
  moreover have "adm_init a" by (simp add: adm_init_def a_def)
  ultimately show ?thesis unfolding adm_reach_def by blast
qed

lemma demo_admitted: "fst (admit False ''10.0.0.1'' None None demo) = Accepted (make_ticket demo ''10.0.0.1'' ''10.0.0.1'' False)"
  by (simp add: admit_def resolve_address_def plain_proxy_mode_def parse_mode_def demo_def demo_start_def server_new_def
      demo_world_def str_default_def decide_def ban_matching_def ban_expire_def ban_load_def try_admit_def Let_def
      limits_default_def env_usize_def addresses_are_trustworthy_def table_new_def entry_of_def source_default_def
      make_ticket_def is_exempt_def)

definition demo_link :: link_config where
  "demo_link = \<lparr>lc_sid = ''1AA'', lc_name = ''irc.test'', lc_desc = ''d'', send_password = ''out'', recv_password = ''pw''\<rparr>"

definition demo_hello :: string where "demo_hello = ''SERVER hub.test pw 0 2BB :hub''"

definition demo_session :: link_session where
  "demo_session = snd (the (handle_line demo_hello (link_begin (link_new demo_link False))))"

lemma demo_session_phase: "ls_phase demo_session = Bursting"
  by code_simp

lemma demo_session_reach: "link_reach demo_link False [demo_hello] demo_session"
proof -
  have "handle_line demo_hello (link_begin (link_new demo_link False)) \<noteq> None" by code_simp
  then have "handle_line demo_hello (link_begin (link_new demo_link False)) =
      Some (fst (the (handle_line demo_hello (link_begin (link_new demo_link False)))), demo_session)"
    by (auto simp: demo_session_def)
  then show ?thesis by (rule link_received [OF link_created])
qed

definition demo_remote :: remote_user where
  "demo_remote = \<lparr>ru_uuid = ''2BBAAAAAA'', ru_sid = ''2BB'', ru_nick = ''zoe'', ru_nick_key = ''zoe'', ru_user = ''z'',
     ru_host = ''h'', ru_real_host = ''h'', ru_realname = ''Z'', ru_ts = 5, ru_modes = ''+i'', ru_chans = {},
     ru_away = None, ru_oper = False\<rparr>"

definition demo_network :: network where
  "demo_network = add_user demo_remote (add_server \<lparr>rs_sid = ''2BB'', rs_name = ''hub.test'', rs_desc = ''hub'', rs_hop = 1,
     rs_via = ''1AA'', rs_bursting = False\<rparr> (network_new ''1AA''))"

lemma net_inv_demo: "net_inv demo_network"
  unfolding demo_network_def
  by (intro net_inv_add_user net_inv_add_server net_inv_new) (simp add: network_new_def add_server_def)

lemma demo_times:
  "sv_now demo = from_secs 1000" "registration_window (sv_env demo) = from_secs 60"
  "ping_after_window (sv_env demo) = from_secs 30" "eviction_window (sv_env demo) = from_secs 30"
  by (simp_all add: demo_tables demo_world_def registration_window_def ping_after_window_def eviction_window_def env_usize_def)

lemma demo_start_admitted:
  "fst (admit False ''10.0.0.1'' None None demo_start) = Accepted (make_ticket demo_start ''10.0.0.1'' ''10.0.0.1'' False)"
  by (simp add: admit_def resolve_address_def plain_proxy_mode_def parse_mode_def demo_start_def server_new_def
      demo_world_def str_default_def decide_def ban_matching_def ban_expire_def ban_load_def try_admit_def Let_def
      limits_default_def env_usize_def addresses_are_trustworthy_def table_new_def entry_of_def source_default_def
      make_ticket_def is_exempt_def)

definition demo_handshaking :: daemon where
  "demo_handshaking = put_stage 1 (Handshaking (make_ticket demo_start ''10.0.0.1'' ''10.0.0.1'' False))
     (put_server (snd (admit False ''10.0.0.1'' None None demo_start)) (put_stage 1 Spawned (demo_daemon\<lparr>dm_next := 2\<rparr>)))"

lemma demo_handshaking_steps: "(dm_step peers)\<^sup>*\<^sup>* demo_daemon demo_handshaking"
proof -
  let ?d = "put_stage 1 Spawned (demo_daemon\<lparr>dm_next := 2\<rparr>)"
  have "dm_step peers demo_daemon ?d"
    using dm_step.spawn [of peers demo_daemon] by (simp add: demo_daemon_def numeral_2_eq_2)
  moreover have "dm_step peers ?d demo_handshaking"
    unfolding demo_handshaking_def
    by (rule dm_step.admitted [where tls = False and peer = "''10.0.0.1''" and pk = None and hdr = None])
      (use demo_start_admitted in \<open>simp_all add: put_stage_def demo_daemon_def prod_eq_iff\<close>)
  ultimately show ?thesis by (rule converse_rtranclp_into_rtranclp [OF _ r_into_rtranclp])
qed

definition demo_tls :: tls_world where
  "demo_tls = (True, \<lambda>_. Inl ''no such file'', \<lambda>_ _. None)"

end
