(* ===== verification/Spec2Isabelle.thy ===== *)
theory Spec2Isabelle
  imports Sample
begin

text \<open>
  \<^bold>\<open>A verification development for chonkline, an IRC server in Rust\<close> (\<^verbatim>\<open>src/src/*.rs\<close>).

  \<^bold>\<open>The program.\<close> One process holds one \<^verbatim>\<open>ServerState\<close> behind a mutex. A listener hands each socket to a
  task that resolves the client's address (PROXY protocol), asks the ban store and the source table whether
  to admit it, performs the TLS handshake, and then reads chunks, frames them into lines, parses them,
  charges flood limits and dispatches commands; a second task writes the connection's queue. Timers run
  the liveness and the reclaim sweeps. Server links are sessions of their own, which parse the lines of a
  peer into events that are applied to the same state. Accounts, channel registrations and bans are kept
  in text files.

  \<^bold>\<open>Theories and the code they model.\<close>
  \<^item> \<^verbatim>\<open>Prelude\<close>: strings as byte lists, UTF-8 characters, Rust's \<^verbatim>\<open>split\<close>, \<^verbatim>\<open>trim\<close>, \<^verbatim>\<open>parse\<close>, hash maps as
    association lists (\<^verbatim>\<open>hm_get\<close>, \<^verbatim>\<open>hm_insert\<close>, \<^verbatim>\<open>hm_remove\<close>), and the collections of simplification rules.
    \<^verbatim>\<open>Transition\<close>: the locales of invariant and monotone transition systems. \<^verbatim>\<open>Utf8\<close>: \<^verbatim>\<open>from_utf8_lossy\<close>.
  \<^item> \<^verbatim>\<open>Crypto\<close>, \<^verbatim>\<open>Base64\<close> (\<^verbatim>\<open>crypto.rs\<close>): SHA-256, HMAC, PBKDF2, the constant-time comparison, hex, Base64.
  \<^item> \<^verbatim>\<open>Glob\<close>, \<^verbatim>\<open>Bans\<close> (\<^verbatim>\<open>bans.rs\<close>): the wildcard loop and the ban store with its file. \<^verbatim>\<open>Casemap\<close>: nick folding.
  \<^item> \<^verbatim>\<open>Proto\<close> (\<^verbatim>\<open>proto.rs\<close>): composing and parsing lines, tags, timestamps.
  \<^item> \<^verbatim>\<open>Chanreg\<close> (\<^verbatim>\<open>channels.rs\<close>), \<^verbatim>\<open>Accounts\<close> (\<^verbatim>\<open>accounts.rs\<close>): the two registries and their files.
  \<^item> \<^verbatim>\<open>Netaddr\<close>, \<^verbatim>\<open>Limits\<close> (\<^verbatim>\<open>limits.rs\<close>), \<^verbatim>\<open>Proxyproto\<close> (\<^verbatim>\<open>proxyproto.rs\<close>), \<^verbatim>\<open>Admission\<close> (\<^verbatim>\<open>ops.rs\<close>): address syntax,
    the source table, the PROXY header, and the way of a connection from accept to session.
  \<^item> \<^verbatim>\<open>Network\<close> (\<^verbatim>\<open>network.rs\<close>), \<^verbatim>\<open>Link\<close>, \<^verbatim>\<open>Remote\<close> (\<^verbatim>\<open>link.rs\<close>, \<^verbatim>\<open>cmds.rs\<close>): remote servers and users, the link
    protocol, the effect of a peer's events, and the loop of a link task with its queue. The queue's sender is
    cloned into the handles of the link, so queues live in a store and tasks and handles hold their address.
  \<^item> \<^verbatim>\<open>Chan\<close>, \<^verbatim>\<open>State\<close> (\<^verbatim>\<open>state.rs\<close>), \<^verbatim>\<open>Reply\<close>: the records of a connection, a channel and the server, every operation
    of \<^verbatim>\<open>ServerState\<close>, and delivery of replies. The clock, the environment, random salts and the outcome of file
    writes are the record \<^verbatim>\<open>world\<close> inside the state, which the steps of the daemon may change.
  \<^item> \<^verbatim>\<open>Registration\<close>, \<^verbatim>\<open>Membership\<close>, \<^verbatim>\<open>Modes\<close>, \<^verbatim>\<open>Chanops\<close>, \<^verbatim>\<open>Oper\<close>, \<^verbatim>\<open>Services\<close>, \<^verbatim>\<open>Messages\<close>, \<^verbatim>\<open>Queries\<close>, \<^verbatim>\<open>Sasl\<close>,
    \<^verbatim>\<open>Dispatch\<close> (\<^verbatim>\<open>cmds.rs\<close>): one definition per command handler, and the dispatcher.
  \<^item> \<^verbatim>\<open>Framing\<close>, \<^verbatim>\<open>Session\<close> (\<^verbatim>\<open>ops.rs\<close>): the read buffer, flood charging, gates before dispatch, replies that wait
    for room, the end of a session, the sweeps. \<^verbatim>\<open>System\<close>: the daemon as a transition system over all tasks.
  \<^item> \<^verbatim>\<open>Http\<close> (\<^verbatim>\<open>http.rs\<close>), \<^verbatim>\<open>Logging\<close> (\<^verbatim>\<open>log.rs\<close>), \<^verbatim>\<open>Tls\<close> (\<^verbatim>\<open>tls.rs\<close>, and from \<^verbatim>\<open>link.rs\<close> how
    links are dialled and accepted).
  \<^item> \<^verbatim>\<open>Startup\<close> (\<^verbatim>\<open>lib.rs\<close>, \<^verbatim>\<open>main.rs\<close>): the services the environment turns on, the state at start, the supervisor.
  \<^item> \<^verbatim>\<open>Inv\<close>: the invariant of the state. \<^verbatim>\<open>Frame\<close>: locales for what operations leave alone. \<^verbatim>\<open>Evolve\<close>: what commands
    may do to connections. \<^verbatim>\<open>Slots\<close>: the daemon simulated by the admission system. \<^verbatim>\<open>Authority\<close>: a locale
    for marks that only a command can put on a connection, with operators and logins as its instances.
    \<^verbatim>\<open>Roster\<close>: the abstract roster that channel operations refine. \<^verbatim>\<open>Sweeps\<close>: the progress made by the sweeps. \<^verbatim>\<open>Sample\<close>: example states.

  \<^bold>\<open>What is shown.\<close> C1 to C5: the invariant over every interleaving, the limits on the tasks that run, the
  supervisor as a run of that system, and the invariant under every command. C6 and C7: who becomes an
  operator in a run of the daemon, and who gets logged in to an account. C8 to C15: channels, as a
  refinement of a relation between channels and members, and messages. C16 to C20: bytes to commands and back, and patterns. C21 to C24: files and accounts. C25 to
  C29: admission. C30 to C33: server links. C34 and C35: what the sweeps achieve. C36 to C40: the log,
  pinned links, the output of links, Base64.

  \<^bold>\<open>Bounds and loops.\<close> Every loop of the code is a total function: structural, or with a termination proof
  by a measure (the wildcard loop, framing, the parameter parser, the subtree of a lost server). Reading
  from a socket is a function of the list of results the socket gives; that the PROXY reader decides is C29. The
  only fuel is the depth of the nick-history chase (\<^verbatim>\<open>lookup\<close>) and the 64 looks of \<^verbatim>\<open>peek_is_header\<close>, which are
  bounds of the code itself. Words have the width of the source where arithmetic can wrap (\<^verbatim>\<open>u64\<close> ban expiry,
  identifiers, counters); times are natural numbers of nanoseconds, as \<^verbatim>\<open>Instant\<close> and \<^verbatim>\<open>Duration\<close> saturate.

  \<^bold>\<open>Assumption on peers.\<close> A linked server is trusted by the code to send a status change only for users on the
  channel: \<^const>\<open>event_safe\<close> states it, and C1 depends on it. A peer that breaks it can make a local user an
  operator of a channel the user is not on. C6 and C7 are about the same runs.

  \<^bold>\<open>Not modelled.\<close> The tokio runtime, socket calls and the handover queues between tasks appear only as the
  steps of \<^const>\<open>dm_step\<close>. TLS records, signatures and certificate chains are rustls: its verdict on a
  certificate and key is a parameter of \<^verbatim>\<open>build_acceptor\<close>, and its handshakes are parameters of the session and
  of \<^verbatim>\<open>dial_peer\<close>; C38 assumes of them that they honour the certificate verifier. Binding
  a socket is a parameter that gives the error, if any; the static page and the release notes are parameters
  of the routes that serve them. The pause between two attempts to reach a peer is left out. The escaping of characters outside ASCII by \<^verbatim>\<open>Debug\<close> is a parameter of the log line.
  The unit tests inside the source files are not modelled.
\<close>

section \<open>Properties\<close>



text \<open>C2. The tasks that run stay within the configured limits, in every reachable state and whatever the
  links send: at most the maximum of clients in all and of clones per source are admitted and not yet
  released at a time (exempt ones aside), the table counts every one of them, and the limits and the
  operator credentials are those of the start.\<close>

theorem sessions_within_limits:
  assumes "dm_init d" and "(dm_step peers)\<^sup>*\<^sup>* d e"
  shows "(max_clients (sv_limits (dm_server d)) = 0
      \<or> held_counted (slots (dm_conns e)) \<le> max_clients (sv_limits (dm_server d)))
    \<and> (max_clones_per_ip (sv_limits (dm_server d)) = 0
      \<or> count (slots (dm_conns e)) (k, False) \<le> max_clones_per_ip (sv_limits (dm_server d)))
    \<and> held_by (slots (dm_conns e)) k \<le> active_for (sv_sources (dm_server e)) k
    \<and> sv_limits (dm_server e) = sv_limits (dm_server d) \<and> sv_conf (dm_server e) = sv_conf (dm_server d)"
  using tasks_bounded [OF assms] by blast

theorem sessions_within_limits_witness:
  "(max_clients (sv_limits (dm_server demo_daemon)) = 0
      \<or> held_counted (slots (dm_conns demo_handshaking)) \<le> max_clients (sv_limits (dm_server demo_daemon)))
    \<and> (max_clones_per_ip (sv_limits (dm_server demo_daemon)) = 0
      \<or> count (slots (dm_conns demo_handshaking)) (''10.0.0.1'', False) \<le> max_clones_per_ip (sv_limits (dm_server demo_daemon)))
    \<and> held_by (slots (dm_conns demo_handshaking)) ''10.0.0.1'' \<le> active_for (sv_sources (dm_server demo_handshaking)) ''10.0.0.1''
    \<and> sv_limits (dm_server demo_handshaking) = sv_limits (dm_server demo_daemon)
    \<and> sv_conf (dm_server demo_handshaking) = sv_conf (dm_server demo_daemon)"
  by (rule sessions_within_limits [OF demo_daemon_init demo_handshaking_steps])





text \<open>C5. Every client command, whatever its parameters and on every branch of its handler, keeps
  the invariant of the server state, when the registration gate lets the command through.\<close>

theorem commands_keep_state:
  assumes "state_inv st" and "gate_open st i cmd"
  shows "state_inv (snd (dispatch i cmd st))"
  using state_inv_dispatch assms by (simp add: gate_open_def)

theorem commands_keep_state_witness: "state_inv (snd (dispatch 3 (demo_cmd ''JOIN'' [''#a'']) demo))"
  by (rule commands_keep_state [OF state_inv_demo]) (simp add: gate_open_def cx_opt_def demo_find)





text \<open>C8. One JOIN refines the abstract roster, the set of pairs of a channel key and a member: it
  adds exactly the joiner when the admission checks pass, and nothing otherwise.\<close>

theorem join_refines_roster:
  "roster (join_one i keys (idx, raw) st) =
     roster st \<union> (if join_allowed st i (join_key keys idx) raw then {(norm_nick raw, i)} else {})"
  by (rule roster_join_one)

text \<open>C9. Who enters an existing channel by JOIN was invited or matches an invite exception when
  the channel is invite-only, is logged in when it is +R, is not banned without an exception, gave
  the key, and was on fewer than the maximum of channels.\<close>

theorem join_admission:
  assumes "(norm_nick raw, i) \<in> roster (join_one i keys (idx, raw) st) - roster st"
    and "chan st raw = Some c" and "find_by_id st i = Some u"
  shows "(ch_invite_only c \<longrightarrow> invited c i \<or> invex_match c u) \<and> (ch_regonly c \<longrightarrow> cx_account u \<noteq> None)
    \<and> (ban_match c u = None \<or> except_match c u)
    \<and> (ch_chan_key c = None \<or> ch_chan_key c = Some (norm_nick (join_key keys idx)))
    \<and> card (cx_chans u) < MAX_CHANNELS"
proof -
  have "join_allowed st i (join_key keys idx) raw"
    using assms(1) by (auto simp: roster_join_one split: if_splits)
  from join_allowed_checks [OF this assms(2,3)] show ?thesis by blast
qed

theorem join_admission_witness:
  "(ban_match demo_chan (demo_user 3 ''carol'' {}) = None \<or> except_match demo_chan (demo_user 3 ''carol'' {}))
    \<and> (ch_chan_key demo_chan = None \<or> ch_chan_key demo_chan = Some (norm_nick (join_key None 0)))
    \<and> card (cx_chans (demo_user 3 ''carol'' {})) < MAX_CHANNELS"
proof -
  have "(norm_nick ''#a'', 3) \<in> roster (join_one 3 None (0, ''#a'') demo) - roster demo"
    by (simp add: roster_join_one demo_join_allowed, simp add: roster_def demo_names demo_tables)
  from join_admission [OF this demo_chan_at demo_find(3)] show ?thesis by blast
qed

text \<open>C10. KICK refines the roster: it removes exactly the named member of the named channel, and
  only when the kicker is a member who is an operator there or kicks himself.\<close>

theorem kick_refines_roster:
  assumes "live i st"
  shows "roster (handle_kick i cmd st) = roster st - kicked st i cmd"
  using assms by (rule roster_handle_kick)

theorem kick_refines_roster_witness:
  "roster (handle_kick 7 (demo_cmd ''KICK'' [''#a'', ''bob'']) demo) =
     roster demo - kicked demo 7 (demo_cmd ''KICK'' [''#a'', ''bob''])"
  by (rule kick_refines_roster [OF demo_live(1)])





text \<open>C13. A channel message that is not allowed (no such channel, sender outside a +n channel,
  moderated or banned) is reported as such and no connection's queue changes.\<close>

theorem refused_message_reaches_nobody:
  assumes "channel_send_denied st i (norm_nick raw)"
    and "reply_for (sv_reply st) = Some i" and "\<not> bypass_reply_capture (sv_reply st)"
  shows "\<not> fst (deliver_to_channel i raw t p st) \<and> find_by_id (snd (deliver_to_channel i raw t p st)) k = find_by_id st k"
  using channel_message_refused [OF assms] by simp

theorem refused_message_reaches_nobody_witness:
  "\<not> fst (deliver_to_channel 7 ''#none'' ''hi'' True demo_replying)
   \<and> find_by_id (snd (deliver_to_channel 7 ''#none'' ''hi'' True demo_replying)) 2 = find_by_id demo_replying 2"
proof (rule refused_message_reaches_nobody [OF _ demo_replying_facts(3,5)])
  have "norm_nick ''#none'' = ''#none''" by code_simp
  then have "chan demo_replying (norm_nick ''#none'') = None"
    by (simp add: chan_def demo_replying_def demo_tables)
  then show "channel_send_denied demo_replying 7 (norm_nick ''#none'')"
    by (simp add: channel_send_denied_def split: option.split)
qed

text \<open>C14. A PRIVMSG or NOTICE with any list of recipients is delivered to at most the maximum number
  of targets, each once under case folding, and each taken from the list.\<close>

theorem message_fanout_bounded:
  "\<exists>targets. length targets \<le> MAX_TARGETS \<and> distinct (map norm_nick targets) \<and> set targets \<subseteq> set rs
     \<and> snd (privmsg_loop i x p rs [] st) = fold (\<lambda>raw s. deliver_one_recipient i raw x p (note_message s)) targets st"
  using served_bound [of "[]" rs] served_distinct [of rs "[]"] served_subset [of rs "[]"]
  by (intro exI [of _ "served rs []"]) (simp add: privmsg_loop_served)

text \<open>C15. MODE on a channel by a user who is not its operator changes nothing in the tables but
  replies.\<close>

theorem mode_needs_operator:
  assumes "\<not> chan_opt (\<lambda>c. is_op c i) False st (norm_nick raw)"
  shows "core (mode_channel i raw terms st) = core st"
  using assms by (rule mode_channel_unprivileged)

theorem mode_needs_operator_witness: "core (mode_channel 2 ''#a'' [''+m''] demo) = core demo"
  by (rule mode_needs_operator) (simp add: chan_opt_def demo_chan_at is_op_def)

text \<open>C16. The incremental framing of a read buffer (find the terminator, cut, skip, parse) yields exactly
  the parses of the segments between line terminators of the whole buffer, the unfinished last one
  excluded.\<close>

theorem framing_is_segmentation: "commands_of buf = List.map_filter parse_segment (butlast (segments buf))"
  by (rule commands_of_segments)




text \<open>C19. What the parser accepts is well formed: an upper-case non-empty command, at most the maximum
  number of parameters, from a line within the limit; only the last parameter may be empty, hold
  blanks or start with a colon.\<close>

theorem parsed_command_wf:
  assumes "proto_parse l = Some c"
  shows "cmd_name c \<noteq> [] \<and> list_all is_upper (cmd_name c) \<and> length (cmd_params c) \<le> MAX_PARAMS
    \<and> length l \<le> MAX_CONTENT_BYTES \<and> list_all middle_ok (butlast (cmd_params c))"
  using proto_parse_wf [OF assms] proto_parse_middle [OF assms] by (simp add: list_all_iff)

theorem parsed_command_wf_witness:
  "cmd_name (demo_cmd ''JOIN'' [''#a'', '''']) \<noteq> [] \<and> list_all is_upper (cmd_name (demo_cmd ''JOIN'' [''#a'', '''']))
    \<and> length (cmd_params (demo_cmd ''JOIN'' [''#a'', ''''])) \<le> MAX_PARAMS
    \<and> length ''join #a :'' \<le> MAX_CONTENT_BYTES
    \<and> list_all middle_ok (butlast (cmd_params (demo_cmd ''JOIN'' [''#a'', ''''])))"
  by (rule parsed_command_wf) code_simp

text \<open>C20. The backtracking loop of the wildcard matcher decides the recursive meaning of a pattern, for
  every text without a literal star.\<close>

theorem wildcard_meaning:
  assumes "star_ch \<notin> set (utf8_chars text)"
  shows "glob_match pat text \<longleftrightarrow> glob_spec (utf8_chars pat) (utf8_chars text)"
  using assms by (rule glob_match_spec)

theorem wildcard_meaning_witness:
  "glob_match ''*!*@10.?.*'' ''al!u@10.0.0.1'' \<longleftrightarrow>
     glob_spec (utf8_chars ''*!*@10.?.*'') (utf8_chars ''al!u@10.0.0.1'')"
  by (rule wildcard_meaning) code_simp



text \<open>C22. Loading the file the channel registry saves answers every lookup as the registry did.\<close>

theorem registry_file_roundtrip:
  assumes "reg_inv s" and "reg_path s = Some p" and "reg_file (reg_save True s) = Some c"
  shows "reg_get (reg_load (Some p) (Some c)) n = reg_get s n"
  using assms by (rule reg_load_save)

theorem registry_file_roundtrip_witness:
  "reg_get (reg_load (Some ''chans'') (Some (render_reg (''#a'', demo_reg) @ [CHR 0x0A]))) ''#A'' =
     reg_get \<lparr>reg_path = Some ''chans'', reg_map = [(''#a'', demo_reg)], reg_file = None\<rparr> ''#A''"
proof (rule registry_file_roundtrip)
  have "is_utf8 ''welcome''" by code_simp
  then show "reg_inv \<lparr>reg_path = Some ''chans'', reg_map = [(''#a'', demo_reg)], reg_file = None\<rparr>"
    by (simp add: reg_inv_def hm_wf_def reg_entry_ok_def demo_reg_def demo_names field_ok_def)
qed (simp_all add: reg_save_def)

text \<open>C23. After a successful registration the password opens the account under every spelling of its
  name, another password only if it has the same PBKDF2 hash, and every other account answers as
  before.\<close>

theorem registered_password_verifies:
  assumes "acct_register ok salt nm pass s = Inr s'"
  shows "acct_verify s' nm pass \<and> acct_display_name s' nm = Some nm \<and>
    acct_verify s' m p = (if norm_nick m = norm_nick nm
      then pbkdf2_sha256 (as_bytes p) salt ITERS HASH_LEN = pbkdf2_sha256 (as_bytes pass) salt ITERS HASH_LEN
      else acct_verify s m p)"
  using acct_find_register [OF assms]
  by (simp add: acct_verify_iff acct_display_name_def flip: acct_find_def)

theorem registered_password_verifies_witness:
  "\<exists>s'. acct_register True [7] ''Bob'' ''pw'' demo_accounts = Inr s' \<and> acct_verify s' ''Bob'' ''pw''
     \<and> acct_display_name s' ''Bob'' = Some ''Bob''
     \<and> acct_verify s' ''alice'' ''x'' = (if norm_nick ''alice'' = norm_nick ''Bob''
          then pbkdf2_sha256 (as_bytes ''x'') [7] ITERS HASH_LEN = pbkdf2_sha256 (as_bytes ''pw'') [7] ITERS HASH_LEN
          else acct_verify demo_accounts ''alice'' ''x'')"
proof -
  have "norm_nick ''Bob'' = ''bob''" by code_simp
  then obtain s' where "acct_register True [7] ''Bob'' ''pw'' demo_accounts = Inr s'"
    by (simp add: acct_register_def Let_def is_service_name_def demo_names demo_accounts_def hm_contains_get)
  with registered_password_verifies [OF this, of "''alice''" "''x''"] show ?thesis by blast
qed

text \<open>C24. Every operation of the account store keeps the certificate index in order (each fingerprint on
  one account, no repetition, at most eight), whether the file could be written or not: an addition
  or removal whose write fails is rolled back.\<close>

theorem certificate_index_kept:
  assumes "cert_inv s"
  shows "cert_inv (snd (add_cert ok nm raw s)) \<and> cert_inv (snd (remove_cert ok nm raw s))
    \<and> pred_sum (\<lambda>e. True) cert_inv (acct_register ok salt nm pass s)
    \<and> pred_sum (\<lambda>e. True) cert_inv (set_password ok salt nm pass s)"
  using cert_inv_add_cert [OF assms] cert_inv_remove_cert [OF assms] cert_inv_register [OF assms]
    cert_inv_set_password [OF assms]
  by (cases "acct_register ok salt nm pass s"; cases "set_password ok salt nm pass s") auto

theorem certificate_index_kept_witness:
  "cert_inv (snd (add_cert False ''alice'' demo_fp demo_accounts))
    \<and> cert_inv (snd (remove_cert False ''alice'' demo_fp demo_accounts))
    \<and> pred_sum (\<lambda>e. True) cert_inv (acct_register False [7] ''alice'' ''pw'' demo_accounts)
    \<and> pred_sum (\<lambda>e. True) cert_inv (set_password False [7] ''alice'' ''pw'' demo_accounts)"
  by (rule certificate_index_kept [OF cert_inv_demo])

text \<open>C25. After any sequence of admissions, refusals, charges and releases the counters of the source
  table are exact: they count the connections that hold a slot, by source and in total, and both
  caps on concurrent connections are respected.\<close>

theorem admission_counters_exact:
  assumes "adm_reach L a"
  shows "active_for (adm_table a) k = held_by (adm_held a) k
    \<and> active_total (adm_table a) = held_counted (adm_held a)
    \<and> (max_clients L = 0 \<or> held_counted (adm_held a) \<le> max_clients L)
    \<and> (max_clones_per_ip L = 0 \<or> count (adm_held a) (k, False) \<le> max_clones_per_ip L)"
  using adm_counts_reach [OF assms] unfolding adm_counts_def by blast

theorem admission_counters_exact_witness:
  "active_for (adm_table demo_admission) ''10.0.0.1'' = held_by (adm_held demo_admission) ''10.0.0.1''
    \<and> active_total (adm_table demo_admission) = held_counted (adm_held demo_admission)
    \<and> (max_clients (limits_default demo_env) = 0
       \<or> held_counted (adm_held demo_admission) \<le> max_clients (limits_default demo_env))
    \<and> (max_clones_per_ip (limits_default demo_env) = 0
       \<or> count (adm_held demo_admission) (''10.0.0.1'', False) \<le> max_clones_per_ip (limits_default demo_env))"
  by (rule admission_counters_exact [OF demo_admission_reach])

text \<open>C26. In no window of sixty seconds up to the present are more non-exempt connections of one source
  admitted than the configured rate, over any sequence of operations on the table.\<close>

theorem connection_rate_bounded:
  assumes "connect_window L = from_secs 60" and "adm_reach L a" and "0 < max_connects_per_window L"
  shows "length (recent (adm_clock a) (from_secs 60) (log_of (adm_log a) k)) \<le> max_connects_per_window L"
  using adm_rate_reach [OF assms(1,2)] assms(3) by (simp add: adm_rate_def)

theorem connection_rate_bounded_witness:
  "length (recent (adm_clock demo_admission) (from_secs 60) (log_of (adm_log demo_admission) ''10.0.0.1''))
     \<le> max_connects_per_window (limits_default demo_env)"
  by (rule connection_rate_bounded [OF _ demo_admission_reach]) (simp_all add: demo_limits)

text \<open>C27. A connection is accepted only when no ban in force matches the address it was resolved to and
  the limits admit it; its slot is charged to the source that address belongs to.\<close>

theorem admitted_not_banned:
  assumes "admit tls peer peeked hdr st = (Accepted tk, st')"
  shows "\<not> list_ex (\<lambda>b. ban_live (sv_unix st) b \<and> glob_match (ban_mask b) (tk_real_host tk)) (bans (sv_bans st))
    \<and> fst (try_admit (sv_limits st) (source_key (tk_real_host tk)) (tk_exempt tk) (sv_now st) (sv_sources st)) = Inr ()
    \<and> (tk_real_host tk = peer \<or> hdr = Some (Source (tk_real_host tk)) \<and> proxy_trusted_peer (sv_env st) peer)"
proof -
  obtain addr trusted where r: "resolve_address (sv_env st) tls peer peeked hdr = Address addr trusted"
    and tk: "tk = make_ticket st peer addr trusted" and d: "decide tk st = (None, st')"
    using admit_Accepted [OF assms] by blast
  show ?thesis
    using decide_admits [OF d] resolve_source [OF r]
    by (auto simp: tk make_ticket_def ban_expire_def list_ex_iff)
qed

theorem admitted_not_banned_witness:
  "\<not> list_ex (\<lambda>b. ban_live (sv_unix demo) b
       \<and> glob_match (ban_mask b) (tk_real_host (make_ticket demo ''10.0.0.1'' ''10.0.0.1'' False))) (bans (sv_bans demo))
    \<and> fst (try_admit (sv_limits demo) (source_key (tk_real_host (make_ticket demo ''10.0.0.1'' ''10.0.0.1'' False)))
        (tk_exempt (make_ticket demo ''10.0.0.1'' ''10.0.0.1'' False)) (sv_now demo) (sv_sources demo)) = Inr ()
    \<and> (tk_real_host (make_ticket demo ''10.0.0.1'' ''10.0.0.1'' False) = ''10.0.0.1''
       \<or> None = Some (Source (tk_real_host (make_ticket demo ''10.0.0.1'' ''10.0.0.1'' False)))
         \<and> proxy_trusted_peer (sv_env demo) ''10.0.0.1'')"
  by (rule admitted_not_banned [of False "''10.0.0.1''" None None demo _ "snd (admit False ''10.0.0.1'' None None demo)"])
    (use demo_admitted in \<open>simp add: prod_eq_iff\<close>)

text \<open>C28. Where the PROXY header is required, a client that is not exempt gets an address only from a
  complete, valid header sent by a trusted peer; everything else is closed or refused.\<close>

theorem proxy_header_required:
  assumes "resolve_address env tls peer peeked hdr = Address addr trusted"
    and "(if tls then tls_proxy_mode env else plain_proxy_mode env) = ProxyRequired"
    and "\<not> proxy_exempt_peer env peer"
  shows "peeked = Some PeekHeader \<and> hdr = Some (Source addr) \<and> proxy_trusted_peer env peer"
  using assms by (rule resolve_required)

theorem proxy_header_required_witness:
  "Some PeekHeader = Some PeekHeader \<and> Some (Source ''10.1.2.3'') = Some (Source ''10.1.2.3'')
   \<and> proxy_trusted_peer demo_env ''10.0.0.1''"
  by (rule proxy_header_required [of demo_env False "''10.0.0.1''" _ _ "''10.1.2.3''" False])
    (simp_all add: resolve_address_def resolve_header_def plain_proxy_mode_def parse_mode_def demo_env_def str_default_def
      proxy_exempt_peer_def proxy_trusted_peer_def proxy_trust_configured_def)

text \<open>C29. The reader of the PROXY line stops after at most 107 results of the socket, whatever they are:
  it never waits for the end of a line that does not come.\<close>

theorem proxy_reader_stops:
  assumes "MAX_V1_HEADER \<le> length rs"
  shows "\<exists>h rest. read_v1 [] rs = Some (h, rest) \<and> length rs - length rest \<le> MAX_V1_HEADER"
  using read_v1_decides [of "[]" rs] assms by simp

theorem proxy_reader_stops_witness:
  "\<exists>h rest. read_v1 [] (replicate 107 (Byte (CHR ''x''))) = Some (h, rest)
     \<and> length (replicate 107 (Byte (CHR ''x''))) - length rest \<le> MAX_V1_HEADER"
  by (rule proxy_reader_stops) simp

text \<open>C30. A server link is in the burst or linked phase only after it received a SERVER line with the
  configured password and a valid server id, whatever other lines came before, in between and after.\<close>

theorem link_authenticated:
  assumes "link_reach cfg outb hist s" and "ls_phase s = Bursting \<or> ls_phase s = Linked"
  shows "(\<exists>sid. peer_sid s = Some sid \<and> valid_sid sid) \<and> list_ex (authenticates cfg) hist"
  using link_reach_authenticated [OF assms(1)] assms(2) by blast

theorem link_authenticated_witness:
  "(\<exists>sid. peer_sid demo_session = Some sid \<and> valid_sid sid) \<and> list_ex (authenticates demo_link) [demo_hello]"
  by (rule link_authenticated [OF demo_session_reach]) (simp add: demo_session_phase)

text \<open>C31. A user introduced to a peer with the UID line arrives there as the same user: composing the
  line, parsing it and handling it yields one event with every field, and leaves the session as it was.\<close>

theorem user_introduction_roundtrip:
  fixes nts sts :: u64
  assumes "valid_sid sid" and "valid_uuid uuid = Some True"
    and "list_all middle_ok [nick, rh, dh, ident, ip, modes]"
    and "length (uid_line sid uuid nts nick rh dh ident ip sts modes realname) \<le> MAX_CONTENT_BYTES"
    and "CHR 0x00 \<notin> set (uid_line sid uuid nts nick rh dh ident ip sts modes realname)"
    and "ls_phase s \<noteq> Dead"
  shows "handle_line (uid_line sid uuid nts nick rh dh ident ip sts modes realname) s = Some ([UserIntroduced
    \<lparr>ru_uuid = uuid, ru_sid = sid, ru_nick = nick, ru_nick_key = norm_nick nick, ru_user = ident, ru_host = dh,
     ru_real_host = rh, ru_realname = realname, ru_ts = nts, ru_modes = modes, ru_chans = {}, ru_away = None,
     ru_oper = False\<rparr>], s)"
proof -
  have "\<not> starts_with ''ERROR'' (uid_line sid uuid nts nick rh dh ident ip sts modes realname)"
    by (simp add: uid_line_def starts_with_def)
  with uid_line_parse [OF assms(1-5)] assms(2,6) sid_source_ok [OF assms(1)] show ?thesis
    by (simp add: handle_line_def Let_def on_uid_def str_default_def last_opt_def)
qed

theorem user_introduction_roundtrip_witness:
  "handle_line (uid_line ''1AA'' ''1AAAAAAAB'' 5 ''al'' ''h1'' ''h2'' ''u'' ''10.0.0.1'' 5 ''+i'' ''Al B'') demo_session =
    Some ([UserIntroduced
    \<lparr>ru_uuid = ''1AAAAAAAB'', ru_sid = ''1AA'', ru_nick = ''al'', ru_nick_key = norm_nick ''al'', ru_user = ''u'',
     ru_host = ''h2'', ru_real_host = ''h1'', ru_realname = ''Al B'', ru_ts = 5, ru_modes = ''+i'', ru_chans = {},
     ru_away = None, ru_oper = False\<rparr>], demo_session)"
proof (rule user_introduction_roundtrip)
  show "ls_phase demo_session \<noteq> Dead" by (simp add: demo_session_phase)
qed code_simp+

text \<open>C32. When the link to a peer is lost, the servers reached through it and their users leave the
  network tables, transitively, every other server and user stays, and the link's handle is removed.\<close>

theorem lost_link_clears_network:
  assumes "net_inv (sv_network st)" and "lt_registered t = Some sid"
  shows "hm_get (net_servers (sv_network (link_teardown t st))) k =
      (if k \<in> lost_servers (sv_network st) sid then None else hm_get (net_servers (sv_network st)) k)
    \<and> hm_get (net_users (sv_network (link_teardown t st))) v =
      (case hm_get (net_users (sv_network st)) v of None \<Rightarrow> None
       | Some u \<Rightarrow> if ru_sid u \<in> lost_servers (sv_network st) sid then None else Some u)
    \<and> sv_links (link_teardown t st) = filter (\<lambda>h. lh_sid h \<noteq> sid) (sv_links st)"
  by (simp only: teardown_network [OF assms(2)] split_server_servers split_server_users [OF assms(1)])

theorem lost_link_clears_network_witness:
  "hm_get (net_servers (sv_network (link_teardown ((link_task_new demo_link False 0 0)\<lparr>lt_registered := Some ''2BB''\<rparr>)
        (demo\<lparr>sv_network := demo_network\<rparr>)))) ''2BB'' =
      (if ''2BB'' \<in> lost_servers (sv_network (demo\<lparr>sv_network := demo_network\<rparr>)) ''2BB'' then None
       else hm_get (net_servers (sv_network (demo\<lparr>sv_network := demo_network\<rparr>))) ''2BB'')
    \<and> hm_get (net_users (sv_network (link_teardown ((link_task_new demo_link False 0 0)\<lparr>lt_registered := Some ''2BB''\<rparr>)
        (demo\<lparr>sv_network := demo_network\<rparr>)))) ''2BBAAAAAA'' =
      (case hm_get (net_users (sv_network (demo\<lparr>sv_network := demo_network\<rparr>))) ''2BBAAAAAA'' of None \<Rightarrow> None
       | Some u \<Rightarrow> if ru_sid u \<in> lost_servers (sv_network (demo\<lparr>sv_network := demo_network\<rparr>)) ''2BB'' then None else Some u)
    \<and> sv_links (link_teardown ((link_task_new demo_link False 0 0)\<lparr>lt_registered := Some ''2BB''\<rparr>)
        (demo\<lparr>sv_network := demo_network\<rparr>)) =
      filter (\<lambda>h. lh_sid h \<noteq> ''2BB'') (sv_links (demo\<lparr>sv_network := demo_network\<rparr>))"
  by (rule lost_link_clears_network) (simp_all add: net_inv_demo)

text \<open>C33. Minting an identifier for a local user keeps them unique: the invariant of the table holds
  after it and the identifier belongs to that user alone, as long as the counter has not used up its
  six base-36 digits.\<close>

theorem minted_identifiers_unique:
  assumes "uuids_inv n" and "unat (net_next_uid n) < 36 ^ 6"
  shows "uuids_inv (snd (uuid_for_local i n)) \<and>
    (local_uuid (snd (uuid_for_local i n)) j = Some (fst (uuid_for_local i n)) \<longleftrightarrow> j = i)"
proof -
  have inv: "uuids_inv (snd (uuid_for_local i n))" using assms by (rule uuids_inv_mint)
  have own: "local_uuid (snd (uuid_for_local i n)) i = Some (fst (uuid_for_local i n))"
    by (simp add: local_uuid_def uuid_for_local_def next_uid_def Let_def hm_simps split: option.split)
  with inv uuids_inv_inj [OF inv] show ?thesis by (auto simp: local_uuid_def)
qed

theorem minted_identifiers_unique_witness:
  "uuids_inv (snd (uuid_for_local 7 (network_new ''1AA''))) \<and>
    (local_uuid (snd (uuid_for_local 7 (network_new ''1AA''))) 2 = Some (fst (uuid_for_local 7 (network_new ''1AA''))) \<longleftrightarrow>
     (2 :: nat) = 7)"
  by (rule minted_identifiers_unique) (auto simp: uuids_inv_def network_new_def)

text \<open>C34. A registered user who stays silent is disconnected: a sweep that finds the silence longer than
  the ping window, and a second one later than the eviction window after it, leave no such user, when
  nothing but time passes between the two.\<close>

theorem silent_user_removed:
  assumes "state_inv st" and "hm_get (sv_users st) k = Some u"
    and "ping_after_window (sv_env st) < sv_now st - cx_last_rx u"
    and "\<forall>at. hm_get (sv_ping st) (cx_id u) = Some at \<longrightarrow> at \<le> sv_now st"
    and "w_env w = sv_env st" and "sv_now st + eviction_window (sv_env st) < w_now w"
  shows "find_by_id (liveness_tick ((liveness_tick st)\<lparr>sv_world := w\<rparr>)) (cx_id u) = None"
  using silence_ends [OF assms(1-3) _ assms(5,6)] assms(4) by blast

theorem silent_user_removed_witness:
  "find_by_id (liveness_tick ((liveness_tick demo)\<lparr>sv_world := demo_world\<lparr>w_now := from_secs 2000\<rparr>\<rparr>))
     (cx_id (demo_user 2 ''bob'' {''#a''})) = None"
  by (rule silent_user_removed [OF state_inv_demo, of "''bob''"])
    (simp_all add: demo_times, simp_all add: demo_tables from_secs_def)

text \<open>C35. A connection that has not registered within the registration window is gone after the next
  sweep.\<close>

theorem unregistered_connection_removed:
  assumes "state_inv st" and "hm_get (sv_unreg st) i = Some u"
    and "registration_window (sv_env st) < sv_now st - cx_connected_at u"
  shows "find_by_id (liveness_tick st) i = None"
  using assms by (rule registration_times_out)

theorem unregistered_connection_removed_witness: "find_by_id (liveness_tick demo) 4 = None"
  by (rule unregistered_connection_removed [OF state_inv_demo, of _ "(demo_user 4 ''dave'' {})\<lparr>cx_registered := False\<rparr>"])
    (simp_all add: demo_times, simp_all add: demo_tables from_secs_def)



text \<open>C37. Between two flushes the counters of repeated log events lose nothing and count nothing twice: a
  flush reports every kind of event that occurred, once, with the number of its occurrences.\<close>

theorem counters_account_for_events:
  assumes "\<forall>e \<in> set evs. CHR '' '' \<notin> set (fst e)"
  shows "set (fst (flush_counters (fold (\<lambda>(name, detail). counted name detail) evs []))) =
      (\<lambda>(name, detail). (name, detail, word_of_nat (count_list evs (name, detail)))) ` set evs
    \<and> distinct (map (\<lambda>(name, detail, _). (name, detail))
        (fst (flush_counters (fold (\<lambda>(name, detail). counted name detail) evs []))))"
  using flush_totals [OF assms] by blast

theorem counters_account_for_events_witness:
  "set (fst (flush_counters (fold (\<lambda>(name, detail). counted name detail)
      [(''flood'', ''10.0.0.1''), (''conn.refused'', []), (''flood'', ''10.0.0.1'')] []))) =
      (\<lambda>(name, detail). (name, detail,
        word_of_nat (count_list [(''flood'', ''10.0.0.1''), (''conn.refused'', []), (''flood'', ''10.0.0.1'')] (name, detail))))
       ` set [(''flood'', ''10.0.0.1''), (''conn.refused'', []), (''flood'', ''10.0.0.1'')]
    \<and> distinct (map (\<lambda>(name, detail, _). (name, detail))
        (fst (flush_counters (fold (\<lambda>(name, detail). counted name detail)
          [(''flood'', ''10.0.0.1''), (''conn.refused'', []), (''flood'', ''10.0.0.1'')] []))))"
  by (rule counters_account_for_events) simp

text \<open>C38. A peer configured with the fingerprint of a certificate gets a session exactly when the
  address answers, a provider is installed and the handshake succeeds with a certificate of that
  fingerprint; it is never dialled in the clear. The fingerprint is written as plain hex and not made
  of decimal digits only, and the handshake honours the verifier it is given.\<close>

theorem pinned_peer_authenticated:
  assumes "length d = 32" and "\<not> list_all is_digit (hex d)"
    and "\<And>v cert. handshake v = Inr cert \<Longrightarrow> v cert = Inr ()"
  shows "dial_peer prov connect handshake (addr @ '':'' @ hex d) = RunSession a tls \<longleftrightarrow>
    prov \<and> connect addr = Inr () \<and> a = addr \<and>
    (\<exists>cert. tls = Some cert \<and> handshake (verify_server_cert d) = Inr cert \<and> sha256 cert = d)"
  using assms by (rule dial_pinned)

theorem pinned_peer_authenticated_witness:
  "(dial_peer True (\<lambda>_. Inr ()) (\<lambda>v. if v [1] = Inr () then Inr [1] else Inl ''refused'')
      (''hub.test:7000'' @ '':'' @ hex (replicate 32 171)) = RunSession ''hub.test:7000'' (Some [1])) =
   (True \<and> (Inr () :: string + unit) = Inr () \<and> ''hub.test:7000'' = ''hub.test:7000'' \<and>
    (\<exists>cert. Some [1] = Some cert
       \<and> (if verify_server_cert (replicate 32 171) [1] = Inr () then Inr [1] else Inl ''refused'') = Inr cert
       \<and> sha256 cert = replicate 32 171))"
proof (rule pinned_peer_authenticated)
  show "length (replicate 32 171) = 32" "\<not> list_all is_digit (hex (replicate 32 171))" by code_simp+
qed (simp split: if_splits)

text \<open>C39. What a link session has to say reaches the queue of its writer in order and without gaps: the
  flush appends the first lines, as many as there is room for, drops and counts the others, and
  leaves the session with nothing to say and everything else as it was. A queue never holds more
  than its capacity.\<close>

theorem link_output_queued:
  assumes "hm_get (sv_queues st) (lt_chan t) = Some q" and "\<not> tx_closed q" and "length (tx_queue q) \<le> tx_capacity q"
  defines "room \<equiv> tx_capacity q - length (tx_queue q)" and "out \<equiv> ls_out (lt_session t)"
  shows "link_flush t st =
    (length out - room, t\<lparr>lt_session := (lt_session t)\<lparr>ls_out := []\<rparr>\<rparr>,
     st\<lparr>sv_queues := hm_insert (lt_chan t) (q\<lparr>tx_queue := tx_queue q @ take room out\<rparr>) (sv_queues st)\<rparr>)
    \<and> length (tx_queue q @ take room out) \<le> tx_capacity q"
  using queue_lines_spec [OF assms(1-3), of out] assms(3) by (simp add: link_flush_def take_outbound_def out_def room_def)

theorem link_output_queued_witness:
  "link_flush (link_task_new demo_link False 0 0)
      (demo\<lparr>sv_queues := [(0, (channel_new 2)\<lparr>tx_queue := [''PING'']\<rparr>)]\<rparr>) =
    (length (ls_out (lt_session (link_task_new demo_link False 0 0))) - (2 - 1),
     (link_task_new demo_link False 0 0)\<lparr>lt_session := (lt_session (link_task_new demo_link False 0 0))\<lparr>ls_out := []\<rparr>\<rparr>,
     (demo\<lparr>sv_queues := [(0, (channel_new 2)\<lparr>tx_queue := [''PING'']\<rparr>)]\<rparr>)\<lparr>sv_queues := hm_insert 0
       ((channel_new 2)\<lparr>tx_queue := [''PING''] @ take (2 - 1) (ls_out (lt_session (link_task_new demo_link False 0 0)))\<rparr>)
       [(0, (channel_new 2)\<lparr>tx_queue := [''PING'']\<rparr>)]\<rparr>)
    \<and> length ([''PING''] @ take (2 - 1) (ls_out (lt_session (link_task_new demo_link False 0 0)))) \<le> 2"
  using link_output_queued [of "demo\<lparr>sv_queues := [(0, (channel_new 2)\<lparr>tx_queue := [''PING'']\<rparr>)]\<rparr>"
      "link_task_new demo_link False 0 0" "(channel_new 2)\<lparr>tx_queue := [''PING'']\<rparr>"]
  by (simp add: link_task_new_def channel_new_def)

text \<open>C40. Base64 decoding inverts encoding on every byte string.\<close>

theorem base64_decodes_what_it_encodes: "base64_decode (base64_encode d) = Some d"
  by (rule base64_roundtrip)

end
